(* ===== verification/Prelude.thy ===== *)
theory Prelude
  imports Main "HOL-Library.AList" "HOL-Library.Multiset"
begin

section \<open>Shared types, table operations and list lemmas\<close>

text \<open>
  What every component of the relay uses: the errors a handler can throw, the read and write
  operations of the database client on a table (a table is the list of its rows, in insertion
  order), association lists for the ordered \<open>Map\<close> objects of the server, and the lemmas on
  these that the component theories share.

  Strings are lists of 8-bit characters (the Latin-1 part of a JavaScript string). A
  JavaScript \<open>Date\<close> is its time value in milliseconds, an \<open>int\<close>. Identifiers (UUIDs) are
  strings. A JavaScript \<open>Map\<close> is an association list: \<open>AList.update\<close> overwrites in place or
  appends at the end and \<open>AList.delete\<close> removes, which is the insertion order a \<open>Map\<close> is
  iterated in.
\<close>

type_synonym ident = string
type_synonym ms = int

text \<open>
  The errors a handler can throw: \<open>AppError\<close> (status code, code, message) of
  \<open>lib/errors.ts\<close>, the database client's errors by their code (\<open>P2002\<close>: a unique constraint
  failed; \<open>P2025\<close>: no row to update), a failed schema parse, an error of the HTTP framework, which
  carries a \<open>statusCode\<close>, and a plain \<open>Error\<close>.
\<close>

datatype js_error =
    AppError int string string
  | PrismaError string
  | ZodError
  | StatusError int string
  | PlainError string

text \<open>
  JSON values. Numbers are the integral ones, which is all the source reads or writes. An object is
  the list of its properties. \<open>JDate t\<close> stands for the string that \<open>toISOString\<close> makes of the time \<open>t\<close>.
\<close>

datatype json =
    JNull
  | JBool bool
  | JNum int
  | JStr string
  | JDate ms
  | JArr "json list"
  | JObj "(string \<times> json) list"

named_theorems row_simps \<open>rewriting of table operations\<close>
named_theorems frame_simps \<open>state components an operation leaves alone\<close>

subsection \<open>Table operations\<close>

text \<open>
  The database client's operations the source uses, on the rows of one table.
  \<open>findFirst\<close> and \<open>findUnique\<close> are \<open>List.find\<close> with the \<open>where\<close> clause as predicate,
  \<open>findMany\<close> is \<open>filter\<close>.
\<close>

definition updateMany :: "('r \<Rightarrow> bool) \<Rightarrow> ('r \<Rightarrow> 'r) \<Rightarrow> 'r list \<Rightarrow> 'r list" where
  "updateMany P f rows = map (\<lambda>r. if P r then f r else r) rows"

definition deleteMany :: "('r \<Rightarrow> bool) \<Rightarrow> 'r list \<Rightarrow> 'r list" where
  "deleteMany P rows = filter (\<lambda>r. \<not> P r) rows"

definition countWhere :: "('r \<Rightarrow> bool) \<Rightarrow> 'r list \<Rightarrow> nat" where
  "countWhere P rows = length (filter P rows)"

text \<open>
  \<open>update\<close> on a unique key throws \<open>P2025\<close> when there is no such row and returns the updated
  row otherwise.
\<close>

definition updateUnique ::
  "('r \<Rightarrow> bool) \<Rightarrow> ('r \<Rightarrow> 'r) \<Rightarrow> 'r list \<Rightarrow> (js_error + 'r) \<times> 'r list" where
  "updateUnique P f rows =
     (case List.find P rows of
        None \<Rightarrow> (Inl (PrismaError ''P2025''), rows)
      | Some r \<Rightarrow> (Inr (f r), updateMany P f rows))"

subsection \<open>Lemmas on tables\<close>

lemma updateMany_Nil [simp]: "updateMany P f [] = []"
  and updateMany_Cons [simp]:
    "updateMany P f (r # rows) = (if P r then f r else r) # updateMany P f rows"
  and length_updateMany [simp]: "length (updateMany P f rows) = length rows"
  by (simp_all add: updateMany_def)

lemma set_updateMany: "set (updateMany P f rows) = {r \<in> set rows. \<not> P r} \<union> f ` {r \<in> set rows. P r}"
  by (auto simp: updateMany_def)

lemma map_updateMany_key [simp]:
  assumes "\<And>r. key (f r) = key r"
  shows "map key (updateMany P f rows) = map key rows"
  using assms by (induction rows) auto

lemma find_updateMany:
  assumes "\<And>r. Q (f r) = Q r"
  shows "List.find Q (updateMany P f rows) =
    map_option (\<lambda>r. if P r then f r else r) (List.find Q rows)"
  using assms by (induction rows) auto

lemma filter_updateMany_disjoint:
  assumes "\<And>r. P r \<Longrightarrow> \<not> Q r \<and> \<not> Q (f r)"
  shows "filter Q (updateMany P f rows) = filter Q rows"
  using assms by (induction rows) auto

lemma deleteMany_Nil [simp]: "deleteMany P [] = []"
  and deleteMany_Cons [simp]:
    "deleteMany P (r # rows) = (if P r then deleteMany P rows else r # deleteMany P rows)"
  and set_deleteMany [simp]: "set (deleteMany P rows) = {r \<in> set rows. \<not> P r}"
  by (auto simp: deleteMany_def)

lemma length_deleteMany_less: "r \<in> set rows \<Longrightarrow> P r \<Longrightarrow> length (deleteMany P rows) < length rows"
  by (auto simp: deleteMany_def intro: length_filter_less)

lemma distinct_map_deleteMany: "distinct (map f rows) \<Longrightarrow> distinct (map f (deleteMany P rows))"
  by (simp add: deleteMany_def distinct_map_filter)

lemma find_SomeD: "List.find P rows = Some r \<Longrightarrow> r \<in> set rows \<and> P r"
  by (induction rows) (auto split: if_splits)

lemma find_None_iff_all: "List.find P rows = None \<longleftrightarrow> (\<forall>r \<in> set rows. \<not> P r)"
  by (induction rows) auto

lemma find_unique_key:
  assumes "distinct (map key rows)" and "r \<in> set rows"
  shows "List.find (\<lambda>x. key x = key r) rows = Some r"
  using assms by (induction rows) (auto simp: image_iff)

lemma find_cong_set: "(\<And>r. r \<in> set rows \<Longrightarrow> P r = Q r) \<Longrightarrow> List.find P rows = List.find Q rows"
  by (induction rows) auto

subsection \<open>Ordered maps\<close>

lemma map_of_update [simp]: "map_of (AList.update k v al) k' = (if k' = k then Some v else map_of al k')"
  by (simp add: update_conv')

lemma map_of_delete [simp]: "map_of (AList.delete k al) k' = (if k' = k then None else map_of al k')"
  by (simp add: delete_conv')

lemma distinct_keys_update: "distinct (map fst al) \<Longrightarrow> distinct (map fst (AList.update k v al))"
  by (rule distinct_update)

lemma distinct_keys_delete: "distinct (map fst al) \<Longrightarrow> distinct (map fst (AList.delete k al))"
  by (rule distinct_delete)

subsection \<open>Sorted lists of keyed entries\<close>

text \<open>Strictly increasing keys, and prefixes of what lies above a bound.\<close>

definition strict_sorted_by :: "('a \<Rightarrow> 'k::linorder) \<Rightarrow> 'a list \<Rightarrow> bool" where
  "strict_sorted_by key xs \<longleftrightarrow> sorted_wrt (<) (map key xs)"

lemma strict_sorted_by_Nil [simp]: "strict_sorted_by key []"
  and strict_sorted_by_Cons [simp]:
    "strict_sorted_by key (x # xs) \<longleftrightarrow> (\<forall>y \<in> set xs. key x < key y) \<and> strict_sorted_by key xs"
  by (auto simp: strict_sorted_by_def)

lemma strict_sorted_by_append:
  "strict_sorted_by key (xs @ ys) \<longleftrightarrow>
     strict_sorted_by key xs \<and> strict_sorted_by key ys \<and>
     (\<forall>x \<in> set xs. \<forall>y \<in> set ys. key x < key y)"
  by (induction xs) auto

lemma strict_sorted_by_filter: "strict_sorted_by key xs \<Longrightarrow> strict_sorted_by key (filter P xs)"
  by (induction xs) auto

lemma strict_sorted_by_take: "strict_sorted_by key xs \<Longrightarrow> strict_sorted_by key (take n xs)"
  by (metis append_take_drop_id strict_sorted_by_append)

lemma strict_sorted_by_drop: "strict_sorted_by key xs \<Longrightarrow> strict_sorted_by key (drop n xs)"
  by (metis append_take_drop_id strict_sorted_by_append)

lemma strict_sorted_by_sort_key:
  assumes "distinct (map key xs)"
  shows "strict_sorted_by key (sort_key key xs)"
proof -
  have "distinct (map key (sort_key key xs))"
    using assms by (simp add: distinct_map)
  moreover have "sorted (map key (sort_key key xs))"
    by simp
  ultimately show ?thesis
    by (auto simp: strict_sorted_by_def strict_sorted_iff)
qed

lemma strict_sorted_by_distinct: "strict_sorted_by key xs \<Longrightarrow> distinct (map key xs)"
  by (induction xs) force+

lemma filter_strict_sorted_split:
  assumes "strict_sorted_by key xs"
  shows "xs = filter (\<lambda>x. key x \<le> b) xs @ filter (\<lambda>x. b < key x) xs"
  using assms
proof (induction xs)
  case Nil
  then show ?case by simp
next
  case (Cons x xs)
  then have IH: "xs = filter (\<lambda>x. key x \<le> b) xs @ filter (\<lambda>x. b < key x) xs"
    by simp
  show ?case
  proof (cases "key x \<le> b")
    case True
    then show ?thesis using IH by auto
  next
    case False
    then have "\<forall>y \<in> set xs. b < key y"
      using Cons.prems by fastforce
    then have "filter (\<lambda>x. key x \<le> b) xs = []" and "filter (\<lambda>x. b < key x) xs = xs"
      by (auto simp: filter_empty_conv filter_id_conv not_le)
    with False show ?thesis by simp
  qed
qed

lemma strict_sorted_by_unique:
  assumes "strict_sorted_by key xs" and "strict_sorted_by key ys" and "set xs = set ys"
  shows "xs = ys"
  using assms
proof (induction xs arbitrary: ys)
  case Nil
  then show ?case by simp
next
  case (Cons x xs)
  then obtain y ys' where ys: "ys = y # ys'"
    by (cases ys) auto
  have "x = y"
    using Cons.prems ys by (metis insert_iff list.simps(15) not_less_iff_gr_or_eq strict_sorted_by_Cons)
  moreover have "x \<notin> set xs" and "y \<notin> set ys'"
    using Cons.prems ys by force+
  ultimately have "set xs = set ys'"
    using Cons.prems(3) ys by auto
  with Cons.IH [of ys'] Cons.prems ys \<open>x = y\<close> show ?case by simp
qed

lemma map_sort_key: "map f (sort_key (\<lambda>x. g (f x)) xs) = sort_key g (map f xs)"
proof -
  have ins: "map f (insort_key (\<lambda>x. g (f x)) x ys) = insort_key g (f x) (map f ys)" for x ys
    by (induction ys) auto
  show ?thesis
    by (induction xs) (simp_all add: ins)
qed

lemma sort_key_cong_set:
  assumes "distinct (map key xs)" and "distinct (map key ys)" and "set xs = set ys"
  shows "sort_key key xs = sort_key key ys"
  using assms by (intro strict_sorted_by_unique [of key]) (auto intro: strict_sorted_by_sort_key)

lemma strict_sorted_le_last:
  "strict_sorted_by key xs \<Longrightarrow> x \<in> set xs \<Longrightarrow> key x \<le> key (last xs)"
  by (induction xs) (auto intro: less_imp_le)

lemma strict_sorted_filter_above_last:
  assumes "strict_sorted_by key xs" and "take n xs \<noteq> []"
  shows "filter (\<lambda>x. key (last (take n xs)) < key x) xs = drop n xs"
proof -
  let ?b = "key (last (take n xs))"
  have s: "strict_sorted_by key (take n xs @ drop n xs)"
    using assms(1) by simp
  then have "\<forall>x \<in> set (drop n xs). ?b < key x"
    using assms(2) by (auto simp only: strict_sorted_by_append) (use last_in_set in blast)
  moreover have "\<forall>x \<in> set (take n xs). \<not> ?b < key x"
    using strict_sorted_le_last [OF strict_sorted_by_take [OF assms(1)]] by (auto simp: not_less)
  ultimately have "filter (\<lambda>x. ?b < key x) (take n xs @ drop n xs) = drop n xs"
    by (simp only: filter_append) (simp add: filter_empty_conv filter_id_conv)
  then show ?thesis by simp
qed

lemma filter_not_in_prefix:
  assumes "distinct (map key xs)"
  shows "filter (\<lambda>x. key x \<notin> key ` set (take n xs)) xs = drop n xs"
proof -
  have d: "distinct (map key (take n xs @ drop n xs))"
    using assms by simp
  then have "key ` set (take n xs) \<inter> key ` set (drop n xs) = {}"
    by (simp only: map_append distinct_append set_map)
  then have "filter (\<lambda>x. key x \<notin> key ` set (take n xs)) (take n xs @ drop n xs) = drop n xs"
    by (simp only: filter_append) (auto simp: filter_empty_conv filter_id_conv)
  then show ?thesis by simp
qed

lemma sum_list_sort_key: "(\<Sum>x \<leftarrow> sort_key key xs. f x) = (\<Sum>x \<leftarrow> xs. f x :: int)"
proof -
  have "mset (map f (sort_key key xs)) = mset (map f xs)"
    by simp
  then show ?thesis
    by (metis sum_mset_sum_list)
qed

end
