(* ===== verification/JobStatus.thy ===== *)
theory JobStatus
  imports Prelude
begin

section \<open>The job lifecycle\<close>

text \<open>
  \<open>packages/shared/src/index.ts\<close> over the enumerations of \<open>packages/protocol/src/index.ts\<close>:
  the statuses of a job, the table of allowed transitions, the terminal statuses. Everything
  the server writes into a job's status through \<open>JobService.transitionFromAgent\<close> goes through
  \<open>canTransitionJob\<close>.
\<close>

datatype job_status =
    Queued
  | Dispatched
  | Running
  | WaitingForInput
  | Completed
  | Failed
  | Cancelled
  | Disconnected

text \<open>
  The statuses are finitely many: as an instance of \<open>enum\<close>, statements that quantify over
  them are decided by evaluation.
\<close>

instantiation job_status :: enum
begin

definition enum_job_status :: "job_status list" where
  "enum_job_status =
     [Queued, Dispatched, Running, WaitingForInput, Completed, Failed, Cancelled, Disconnected]"

definition enum_all_job_status :: "(job_status \<Rightarrow> bool) \<Rightarrow> bool" where
  "enum_all_job_status P \<longleftrightarrow>
     P Queued \<and> P Dispatched \<and> P Running \<and> P WaitingForInput \<and> P Completed \<and> P Failed \<and>
     P Cancelled \<and> P Disconnected"

definition enum_ex_job_status :: "(job_status \<Rightarrow> bool) \<Rightarrow> bool" where
  "enum_ex_job_status P \<longleftrightarrow>
     P Queued \<or> P Dispatched \<or> P Running \<or> P WaitingForInput \<or> P Completed \<or> P Failed \<or>
     P Cancelled \<or> P Disconnected"

instance
proof
  show univ: "(UNIV :: job_status set) = set enum_class.enum"
    using job_status.exhaust by (auto simp: enum_job_status_def)
  show "distinct (enum_class.enum :: job_status list)"
    by (simp add: enum_job_status_def)
  fix P :: "job_status \<Rightarrow> bool"
  show "enum_class.enum_all P = Ball UNIV P"
    unfolding univ by (simp add: enum_all_job_status_def enum_job_status_def)
  show "enum_class.enum_ex P = Bex UNIV P"
    unfolding univ by (simp add: enum_ex_job_status_def enum_job_status_def)
qed

end

fun transitions :: "job_status \<Rightarrow> job_status list" where
  "transitions Queued = [Dispatched, Failed, Cancelled]"
| "transitions Dispatched = [Running, Failed, Cancelled, Disconnected]"
| "transitions Running = [WaitingForInput, Completed, Failed, Cancelled, Disconnected]"
| "transitions WaitingForInput = [Running, Completed, Failed, Cancelled, Disconnected]"
| "transitions Disconnected = [Running, WaitingForInput, Completed, Failed, Cancelled]"
| "transitions Completed = []"
| "transitions Failed = []"
| "transitions Cancelled = []"

definition canTransitionJob :: "job_status \<Rightarrow> job_status \<Rightarrow> bool" where
  "canTransitionJob from to \<longleftrightarrow> from = to \<or> to \<in> set (transitions from)"

definition isTerminalJobStatus :: "job_status \<Rightarrow> bool" where
  "isTerminalJobStatus status \<longleftrightarrow> status = Completed \<or> status = Failed \<or> status = Cancelled"

definition durationMilliseconds :: "ms \<Rightarrow> ms \<Rightarrow> ms" where
  "durationMilliseconds startedAt finishedAt = max 0 (finishedAt - startedAt)"

subsection \<open>The table\<close>

lemma isTerminal_simps [simp]:
  "isTerminalJobStatus Completed" "isTerminalJobStatus Failed" "isTerminalJobStatus Cancelled"
  "\<not> isTerminalJobStatus Queued" "\<not> isTerminalJobStatus Dispatched"
  "\<not> isTerminalJobStatus Running" "\<not> isTerminalJobStatus WaitingForInput"
  "\<not> isTerminalJobStatus Disconnected"
  by (simp_all add: isTerminalJobStatus_def)

lemma canTransitionJob_refl [simp]: "canTransitionJob s s"
  by (simp add: canTransitionJob_def)

lemma terminal_transitions_empty: "isTerminalJobStatus s \<longleftrightarrow> transitions s = []"
  by (cases s) simp_all

lemma canTransitionJob_terminal: "isTerminalJobStatus s \<Longrightarrow> canTransitionJob s t \<longleftrightarrow> t = s"
  by (auto simp: canTransitionJob_def terminal_transitions_empty)

text \<open>One effective step of the table, and what a run of steps can reach.\<close>

inductive status_step :: "job_status \<Rightarrow> job_status \<Rightarrow> bool" where
  move: "canTransitionJob s t \<Longrightarrow> s \<noteq> t \<Longrightarrow> status_step s t"

inductive_cases status_stepE: "status_step s t"
inductive_simps status_step_iff: "status_step s t"

lemma status_step_terminal: "status_step s t \<Longrightarrow> \<not> isTerminalJobStatus s"
  by (auto elim!: status_stepE simp: canTransitionJob_terminal)

lemma status_run_terminal:
  assumes "status_step\<^sup>*\<^sup>* s t" and "isTerminalJobStatus s"
  shows "t = s"
  using assms by (induction rule: rtranclp_induct) (auto dest: status_step_terminal)

lemma status_run_not_queued:
  assumes "status_step\<^sup>*\<^sup>* s t" and "s \<noteq> Queued"
  shows "t \<noteq> Queued"
  using assms
proof (induction rule: rtranclp_induct)
  case (step y z)
  then show ?case
    by (cases y) (auto simp: status_step_iff canTransitionJob_def)
qed simp

text \<open>
  The lifecycle as a whole: in the transition table a terminal status has no way out, no
  status returns to \<open>queued\<close> once it has left it, every status can still be cancelled or has
  ended, and \<open>completed\<close> is entered only by a job that has reached the agent's process
  (\<open>running\<close>, \<open>waiting_for_input\<close> or \<open>disconnected\<close>).
\<close>

theorem job_lifecycle:
  "(isTerminalJobStatus s \<and> status_step\<^sup>*\<^sup>* s t \<longrightarrow> t = s) \<and>
   (s \<noteq> Queued \<and> status_step\<^sup>*\<^sup>* s t \<longrightarrow> t \<noteq> Queued) \<and>
   (isTerminalJobStatus s \<or> status_step s Cancelled) \<and>
   (status_step s Completed \<longrightarrow> s \<in> {Running, WaitingForInput, Disconnected})"
proof (intro conjI impI)
  show "t = s" if "isTerminalJobStatus s \<and> status_step\<^sup>*\<^sup>* s t"
    using that by (blast dest: status_run_terminal)
  show "t \<noteq> Queued" if "s \<noteq> Queued \<and> status_step\<^sup>*\<^sup>* s t"
    using that by (blast dest: status_run_not_queued)
  show "isTerminalJobStatus s \<or> status_step s Cancelled"
    by (cases s) (simp_all add: status_step_iff canTransitionJob_def)
  show "s \<in> {Running, WaitingForInput, Disconnected}" if "status_step s Completed"
    using that by - (cases s; simp add: status_step_iff canTransitionJob_def)
qed

theorem job_lifecycle_witness:
  "isTerminalJobStatus Failed \<and> status_step\<^sup>*\<^sup>* Failed Failed \<and>
   Running \<noteq> Queued \<and> status_step\<^sup>*\<^sup>* Running Disconnected \<and> Disconnected \<noteq> Queued \<and>
   status_step Running Completed"
proof -
  have run: "status_step\<^sup>*\<^sup>* Running Disconnected" and fin: "status_step Running Completed"
    by (auto simp: status_step_iff canTransitionJob_def)
  from run have "Disconnected \<noteq> Queued"
    using job_lifecycle [of Running Disconnected] by blast
  with run fin show ?thesis by simp
qed

end
