(* ===== verification/Protocol.thy ===== *)
theory Protocol
  imports JobStatus
begin

section \<open>Wire messages\<close>

text \<open>
  The four message unions of \<open>packages/protocol/src/index.ts\<close>, one constructor per message
  type in the order of the schemas, and for each union the field bounds its schema checks, as
  a bool-valued predicate. A message is its type and payload: the envelope's \<open>requestId\<close> and
  \<open>timestamp\<close> are written by \<open>createMessage\<close> and read by no code of the server or the client.
  The formats a schema delegates to the schema library (\<open>uuid\<close>, \<open>datetime\<close>) are parameters.
  An optional field is an \<open>option\<close>; an optional and nullable one a nested \<open>option\<close>, whose
  outer \<open>None\<close> is \<open>undefined\<close> and inner \<open>None\<close> is \<open>null\<close>.
\<close>

definition PROTOCOL_VERSION :: int where
  "PROTOCOL_VERSION = 1"

definition MAX_PROTOCOL_MESSAGE_BYTES :: nat where
  "MAX_PROTOCOL_MESSAGE_BYTES = 256 * 1024"

definition MAX_COMMAND_BYTES :: nat where
  "MAX_COMMAND_BYTES = 16 * 1024"

definition MAX_OUTPUT_CHUNK_BYTES :: nat where
  "MAX_OUTPUT_CHUNK_BYTES = 64 * 1024"

datatype output_stream = Stdout | Stderr | SystemStream

datatype device_status = Online | Offline | Revoked

text \<open>The strings of the enumerations.\<close>

fun status_name :: "job_status \<Rightarrow> string" where
  "status_name Queued = ''queued''"
| "status_name Dispatched = ''dispatched''"
| "status_name Running = ''running''"
| "status_name WaitingForInput = ''waiting_for_input''"
| "status_name Completed = ''completed''"
| "status_name Failed = ''failed''"
| "status_name Cancelled = ''cancelled''"
| "status_name Disconnected = ''disconnected''"

fun stream_name :: "output_stream \<Rightarrow> string" where
  "stream_name Stdout = ''stdout''"
| "stream_name Stderr = ''stderr''"
| "stream_name SystemStream = ''system''"

fun device_status_name :: "device_status \<Rightarrow> string" where
  "device_status_name Online = ''online''"
| "device_status_name Offline = ''offline''"
| "device_status_name Revoked = ''revoked''"

text \<open>One output chunk as it travels: its sequence number, stream and data.\<close>

record out_chunk =
  oc_sequence :: int
  oc_stream :: output_stream
  oc_data :: string

record validation_result =
  vr_repositoryId :: ident
  vr_valid :: bool
  vr_canonicalPath :: "string option"
  vr_repositoryRoot :: "string option"
  vr_isGitRepository :: bool
  vr_branch :: "string option"
  vr_error :: "string option"

record agent_hello =
  ah_deviceId :: ident
  ah_name :: string
  ah_platform :: string
  ah_architecture :: string
  ah_agentVersion :: string
  ah_protocolVersions :: "int list"
  ah_runningJobIds :: "ident list"

record job_start =
  js_jobId :: ident
  js_repositoryId :: ident
  js_repositoryPath :: string
  js_command :: string
  js_workingDirectory :: string
  js_interactive :: bool
  js_persistent :: bool
  js_shell :: string
  js_shellArgs :: "string list"
  js_inheritedEnvironment :: "string list"
  js_columns :: int
  js_rows :: int

datatype agent_to_server =
    AgentHello agent_hello
  | AgentHeartbeat ident
  | AgentStatus ident device_status "string option"
  | ValidationResult validation_result
  | JobAccepted ident
  | JobStarted ident "int option"
  | JobOutput ident out_chunk
  | JobStatusReport ident job_status "string option"
  | JobCompleted ident int
  | JobFailed ident string "int option"
  | JobCancelled ident
  | JobInputAcknowledged ident int
  | JobBufferSync ident "out_chunk list"

datatype server_to_agent =
    AgentWelcome ident int ms
  | RepositoryValidate ident string
  | JobStart job_start
  | JobInput ident int string
  | JobResize ident int int
  | JobCancel ident
  | JobBufferRequest ident int

datatype server_to_client =
    ClientDeviceStatus ident device_status ms
  | ClientJobStatus ident job_status "int option option"
  | ClientJobOutput ident out_chunk
  | ClientJobCompleted ident int
  | ClientJobFailed ident string "int option option"

datatype client_to_server =
    JobSubscribe ident int
  | JobUnsubscribe ident
  | ClientJobInput ident int string
  | ClientJobResize ident int int
  | ClientJobCancel ident

subsection \<open>The bounds of the schemas\<close>

definition z_string :: "nat \<Rightarrow> nat \<Rightarrow> string \<Rightarrow> bool" where
  "z_string lo hi s \<longleftrightarrow> lo \<le> length s \<and> length s \<le> hi"

fun z_optional :: "('a \<Rightarrow> bool) \<Rightarrow> 'a option \<Rightarrow> bool" where
  "z_optional P None = True"
| "z_optional P (Some x) = P x"

definition valid_chunk :: "out_chunk \<Rightarrow> bool" where
  "valid_chunk c \<longleftrightarrow>
     0 \<le> oc_sequence c \<and> z_string 0 MAX_OUTPUT_CHUNK_BYTES (oc_data c)"

definition valid_size :: "int \<Rightarrow> int \<Rightarrow> bool" where
  "valid_size columns rows \<longleftrightarrow>
     10 \<le> columns \<and> columns \<le> 1000 \<and> 2 \<le> rows \<and> rows \<le> 1000"

fun valid_agent_to_server :: "(ident \<Rightarrow> bool) \<Rightarrow> agent_to_server \<Rightarrow> bool" where
  "valid_agent_to_server uuid (AgentHello h) \<longleftrightarrow>
     uuid (ah_deviceId h) \<and> z_string 1 100 (ah_name h) \<and> z_string 1 50 (ah_platform h) \<and>
     z_string 1 50 (ah_architecture h) \<and> z_string 1 50 (ah_agentVersion h) \<and>
     list_all (\<lambda>v. v = PROTOCOL_VERSION) (ah_protocolVersions h) \<and>
     1 \<le> length (ah_protocolVersions h) \<and>
     list_all uuid (ah_runningJobIds h) \<and> length (ah_runningJobIds h) \<le> 100"
| "valid_agent_to_server uuid (AgentHeartbeat d) \<longleftrightarrow> uuid d"
| "valid_agent_to_server uuid (AgentStatus d st detail) \<longleftrightarrow>
     uuid d \<and> st \<noteq> Revoked \<and> z_optional (z_string 0 500) detail"
| "valid_agent_to_server uuid (ValidationResult r) \<longleftrightarrow>
     uuid (vr_repositoryId r) \<and> z_optional (z_string 0 4096) (vr_canonicalPath r) \<and>
     z_optional (z_string 0 4096) (vr_repositoryRoot r) \<and>
     z_optional (z_string 0 500) (vr_branch r) \<and> z_optional (z_string 0 1000) (vr_error r)"
| "valid_agent_to_server uuid (JobAccepted j) \<longleftrightarrow> uuid j"
| "valid_agent_to_server uuid (JobStarted j pid) \<longleftrightarrow> uuid j \<and> z_optional (\<lambda>p. 0 < p) pid"
| "valid_agent_to_server uuid (JobOutput j c) \<longleftrightarrow> uuid j \<and> valid_chunk c"
| "valid_agent_to_server uuid (JobStatusReport j st detail) \<longleftrightarrow>
     uuid j \<and> z_optional (z_string 0 1000) detail"
| "valid_agent_to_server uuid (JobCompleted j code) \<longleftrightarrow> uuid j"
| "valid_agent_to_server uuid (JobFailed j err code) \<longleftrightarrow> uuid j \<and> z_string 1 2000 err"
| "valid_agent_to_server uuid (JobCancelled j) \<longleftrightarrow> uuid j"
| "valid_agent_to_server uuid (JobInputAcknowledged j n) \<longleftrightarrow> uuid j \<and> 0 \<le> n"
| "valid_agent_to_server uuid (JobBufferSync j chunks) \<longleftrightarrow>
     uuid j \<and> list_all valid_chunk chunks \<and> length chunks \<le> 1000"

fun valid_server_to_agent :: "(ident \<Rightarrow> bool) \<Rightarrow> server_to_agent \<Rightarrow> bool" where
  "valid_server_to_agent uuid (AgentWelcome d interval serverTime) \<longleftrightarrow> uuid d \<and> 1000 \<le> interval"
| "valid_server_to_agent uuid (RepositoryValidate r p) \<longleftrightarrow> uuid r \<and> z_string 1 4096 p"
| "valid_server_to_agent uuid (JobStart s) \<longleftrightarrow>
     uuid (js_jobId s) \<and> uuid (js_repositoryId s) \<and> z_string 1 4096 (js_repositoryPath s) \<and>
     z_string 1 MAX_COMMAND_BYTES (js_command s) \<and> z_string 0 4096 (js_workingDirectory s) \<and>
     z_string 1 4096 (js_shell s) \<and>
     list_all (z_string 0 1000) (js_shellArgs s) \<and> length (js_shellArgs s) \<le> 20 \<and>
     list_all (z_string 0 200) (js_inheritedEnvironment s) \<and>
     length (js_inheritedEnvironment s) \<le> 100 \<and> valid_size (js_columns s) (js_rows s)"
| "valid_server_to_agent uuid (JobInput j n s) \<longleftrightarrow> uuid j \<and> 0 \<le> n \<and> z_string 0 (64 * 1024) s"
| "valid_server_to_agent uuid (JobResize j c r) \<longleftrightarrow> uuid j \<and> valid_size c r"
| "valid_server_to_agent uuid (JobCancel j) \<longleftrightarrow> uuid j"
| "valid_server_to_agent uuid (JobBufferRequest j after) \<longleftrightarrow> uuid j \<and> -1 \<le> after"

fun valid_server_to_client :: "(ident \<Rightarrow> bool) \<Rightarrow> server_to_client \<Rightarrow> bool" where
  "valid_server_to_client uuid (ClientDeviceStatus d st seen) \<longleftrightarrow> uuid d"
| "valid_server_to_client uuid (ClientJobStatus j st code) \<longleftrightarrow> uuid j"
| "valid_server_to_client uuid (ClientJobOutput j c) \<longleftrightarrow> uuid j \<and> valid_chunk c"
| "valid_server_to_client uuid (ClientJobCompleted j code) \<longleftrightarrow> uuid j"
| "valid_server_to_client uuid (ClientJobFailed j err code) \<longleftrightarrow> uuid j \<and> z_string 0 2000 err"

fun valid_client_to_server :: "(ident \<Rightarrow> bool) \<Rightarrow> client_to_server \<Rightarrow> bool" where
  "valid_client_to_server uuid (JobSubscribe j after) \<longleftrightarrow> uuid j \<and> -1 \<le> after"
| "valid_client_to_server uuid (JobUnsubscribe j) \<longleftrightarrow> uuid j"
| "valid_client_to_server uuid (ClientJobInput j n s) \<longleftrightarrow>
     uuid j \<and> 0 \<le> n \<and> z_string 0 (64 * 1024) s"
| "valid_client_to_server uuid (ClientJobResize j c r) \<longleftrightarrow> uuid j \<and> valid_size c r"
| "valid_client_to_server uuid (ClientJobCancel j) \<longleftrightarrow> uuid j"

text \<open>
  The byte length of a string in UTF-8 (\<open>Buffer.byteLength(data, 'utf8')\<close>): on 8-bit
  characters, one byte below 128 and two from there on.
\<close>

definition utf8_length :: "string \<Rightarrow> int" where
  "utf8_length s = (\<Sum>c \<leftarrow> s. if of_char c < (128::nat) then 1 else 2)"

lemma utf8_length_Nil [simp]: "utf8_length [] = 0"
  and utf8_length_Cons [simp]:
    "utf8_length (c # s) = (if of_char c < (128::nat) then 1 else 2) + utf8_length s"
  by (simp_all add: utf8_length_def)

lemma utf8_length_bounds: "int (length s) \<le> utf8_length s \<and> utf8_length s \<le> 2 * int (length s)"
  by (induction s) auto

lemma utf8_length_nonneg [simp]: "0 \<le> utf8_length s"
  using utf8_length_bounds [of s] by linarith

end
