(* ===== verification/Domain.thy ===== *)
theory Domain
  imports Protocol
begin

section \<open>Domain helpers of the server\<close>

text \<open>
  \<open>apps/server/src/lib/domain.ts\<close>: pairing codes, working directories, the reference
  computation of which retained chunks to remove. The functions of Node's standard library
  they call (\<open>trim\<close>, \<open>toUpperCase\<close>, \<open>path.posix\<close>, \<open>path.win32\<close>) are modelled on 8-bit
  characters.
\<close>

subsection \<open>Characters and strings\<close>

definition is_digit_char :: "char \<Rightarrow> bool" where
  "is_digit_char c \<longleftrightarrow> (let n = of_char c :: nat in 48 \<le> n \<and> n \<le> 57)"

definition is_upper_char :: "char \<Rightarrow> bool" where
  "is_upper_char c \<longleftrightarrow> (let n = of_char c :: nat in 65 \<le> n \<and> n \<le> 90)"

definition is_lower_char :: "char \<Rightarrow> bool" where
  "is_lower_char c \<longleftrightarrow> (let n = of_char c :: nat in 97 \<le> n \<and> n \<le> 122)"

text \<open>
  \<open>toUpperCase\<close> on one 8-bit character. The sharp s becomes two letters. The micro sign and
  the y with diaeresis leave the 8-bit range; they are kept as they are, which no caller can
  tell apart: the caller drops everything outside \<open>A-Z0-9\<close>.
\<close>

definition upper_char :: "char \<Rightarrow> string" where
  "upper_char c =
     (let n = of_char c :: nat in
      if 97 \<le> n \<and> n \<le> 122 then [char_of (n - 32)]
      else if n = 223 then ''SS''
      else if 224 \<le> n \<and> n \<le> 254 \<and> n \<noteq> 247 then [char_of (n - 32)]
      else [c])"

definition toUpperCase :: "string \<Rightarrow> string" where
  "toUpperCase s = concat (map upper_char s)"

definition is_space_char :: "char \<Rightarrow> bool" where
  "is_space_char c \<longleftrightarrow> (let n = of_char c :: nat in 9 \<le> n \<and> n \<le> 13 \<or> n = 32 \<or> n = 160)"

definition js_trim :: "string \<Rightarrow> string" where
  "js_trim s = rev (dropWhile is_space_char (rev (dropWhile is_space_char s)))"

text \<open>\<open>split\<close> on one character and \<open>join\<close> with it.\<close>

fun split_on :: "char \<Rightarrow> string \<Rightarrow> string list" where
  "split_on d [] = [[]]"
| "split_on d (c # s) =
     (if c = d then [] # split_on d s
      else (case split_on d s of [] \<Rightarrow> [[c]] | w # ws \<Rightarrow> (c # w) # ws))"

fun join_with :: "char \<Rightarrow> string list \<Rightarrow> string" where
  "join_with d [] = []"
| "join_with d [w] = w"
| "join_with d (w # ws) = w @ d # join_with d ws"

definition slash :: char where "slash = CHR ''/''"
definition backslash :: char where "backslash = CHR 0x5C"

subsection \<open>Pairing codes\<close>

definition normalizePairingCode :: "string \<Rightarrow> string" where
  "normalizePairingCode code =
     (let compact = filter (\<lambda>c. is_upper_char c \<or> is_digit_char c) (toUpperCase code) in
      if length compact \<noteq> 8 then ''''
      else take 4 compact @ ''-'' @ drop 4 compact)"

definition isPairingCodeUsable :: "ms \<Rightarrow> ms option \<Rightarrow> ms \<Rightarrow> bool" where
  "isPairingCodeUsable expiresAt usedAt now \<longleftrightarrow> usedAt = None \<and> expiresAt > now"

subsection \<open>Paths\<close>

definition posix_isAbsolute :: "string \<Rightarrow> bool" where
  "posix_isAbsolute p \<longleftrightarrow> (case p of [] \<Rightarrow> False | c # _ \<Rightarrow> c = slash)"

fun win32_isAbsolute :: "string \<Rightarrow> bool" where
  "win32_isAbsolute [] = False"
| "win32_isAbsolute (c # p) \<longleftrightarrow>
     c = slash \<or> c = backslash \<or>
     (is_upper_char c \<or> is_lower_char c) \<and>
     (case p of d # e # _ \<Rightarrow> d = CHR '':'' \<and> (e = slash \<or> e = backslash) | _ \<Rightarrow> False)"

text \<open>
  \<open>path.posix.normalize\<close>: empty and \<open>.\<close> segments disappear, a \<open>..\<close> removes the segment
  before it, or stays when there is none and the path is relative; a leading and a trailing
  separator are kept. The accumulator holds the kept segments, last first.
\<close>

fun normalize_segments :: "bool \<Rightarrow> string list \<Rightarrow> string list \<Rightarrow> string list" where
  "normalize_segments allowAboveRoot acc [] = rev acc"
| "normalize_segments allowAboveRoot acc (w # ws) =
     (if w = '''' \<or> w = ''.'' then normalize_segments allowAboveRoot acc ws
      else if w = ''..'' then
        (case acc of
           [] \<Rightarrow> normalize_segments allowAboveRoot (if allowAboveRoot then [''..''] else []) ws
         | a # acc' \<Rightarrow>
             if a = ''..'' then
               normalize_segments allowAboveRoot (if allowAboveRoot then ''..'' # acc else acc) ws
             else normalize_segments allowAboveRoot acc' ws)
      else normalize_segments allowAboveRoot (w # acc) ws)"

definition posix_normalize :: "string \<Rightarrow> string" where
  "posix_normalize p =
     (if p = '''' then ''.''
      else let absolute = posix_isAbsolute p;
               trailing = (last p = slash);
               body = join_with slash (normalize_segments (\<not> absolute) [] (split_on slash p))
           in if body = '''' then (if absolute then ''/'' else if trailing then ''./'' else ''.'')
              else (if absolute then [slash] else []) @ body @ (if trailing then [slash] else []))"

text \<open>The NUL character that a path may not contain.\<close>

definition nul :: char where "nul = CHR 0x00"

definition replaceBackslashes :: "string \<Rightarrow> string" where
  "replaceBackslashes s = map (\<lambda>c. if c = backslash then slash else c) s"

definition normalizeWorkingDirectory :: "string option \<Rightarrow> string + string" where
  "normalizeWorkingDirectory value =
     (let directory = (case value of None \<Rightarrow> '''' | Some v \<Rightarrow> js_trim v) in
      if directory = '''' \<or> directory = ''.'' then Inr ''''
      else if nul \<in> set directory \<or> posix_isAbsolute directory \<or> win32_isAbsolute directory
      then Inl ''Working directory must be relative to the repository.''
      else let segments = split_on slash (replaceBackslashes directory) in
           if ''..'' \<in> set segments
           then Inl ''Working directory cannot leave the repository.''
           else let normalized = posix_normalize (join_with slash segments) in
                Inr (if normalized = ''.'' then '''' else normalized))"

subsection \<open>Environment variable names\<close>

text \<open>\<open>/^[A-Za-z_][A-Za-z0-9_]*$/\<close> and length 1 to 200.\<close>

fun environmentName :: "string \<Rightarrow> bool" where
  "environmentName [] = False"
| "environmentName (c # s) \<longleftrightarrow>
     length s < 200 \<and> (is_upper_char c \<or> is_lower_char c \<or> c = CHR ''_'') \<and>
     list_all (\<lambda>d. is_upper_char d \<or> is_lower_char d \<or> is_digit_char d \<or> d = CHR ''_'') s"

subsection \<open>Chunks to remove\<close>

text \<open>The loop of \<open>chunkIdsToRemove\<close> on the retained chunks, oldest first.\<close>

fun remove_until :: "int \<Rightarrow> ('i \<times> int) list \<Rightarrow> 'i list" where
  "remove_until bytesToRemove [] = []"
| "remove_until bytesToRemove ((i, byteLength) # rest) =
     (if bytesToRemove \<le> 0 then [] else i # remove_until (bytesToRemove - byteLength) rest)"

definition chunkIdsToRemove :: "('i \<times> int) list \<Rightarrow> int \<Rightarrow> 'i list" where
  "chunkIdsToRemove oldestFirst maximumBytes =
     remove_until (max 0 (sum_list (map snd oldestFirst) - maximumBytes)) oldestFirst"

subsection \<open>Lemmas on splitting and joining\<close>

lemma split_on_nonempty [simp]: "split_on d s \<noteq> []"
  by (induction s) (auto split: list.splits)

lemma join_with_Cons: "join_with d (w # ws) = (if ws = [] then w else w @ d # join_with d ws)"
  by (cases ws) auto

lemma join_split_on [simp]: "join_with d (split_on d s) = s"
  by (induction s) (auto simp: join_with_Cons split: list.splits)

lemma split_on_segment_no_sep: "w \<in> set (split_on d s) \<Longrightarrow> d \<notin> set w"
  by (induction s arbitrary: w) (auto split: list.splits if_splits)

lemma split_on_plain: "d \<notin> set w \<Longrightarrow> split_on d w = [w]"
  by (induction w) auto

lemma split_on_append_sep: "d \<notin> set w \<Longrightarrow> split_on d (w @ d # s) = w # split_on d s"
  by (induction w) auto

lemma split_on_join_with:
  "ws \<noteq> [] \<Longrightarrow> \<forall>w \<in> set ws. d \<notin> set w \<Longrightarrow> split_on d (join_with d ws) = ws"
  by (induction d ws rule: join_with.induct) (auto simp: split_on_plain split_on_append_sep)

lemma set_join_with: "set (join_with d ws) \<subseteq> insert d (\<Union> (set ` set ws))"
  by (induction d ws rule: join_with.induct) auto

lemma split_on_set: "w \<in> set (split_on d s) \<Longrightarrow> set w \<subseteq> set s"
  by (induction s arbitrary: w) (fastforce split: list.splits if_splits)+

lemma split_on_snoc_sep: "split_on d (s @ [d]) = split_on d s @ [[]]"
  by (induction s) (auto split: list.splits)

subsection \<open>Pairing codes have one form\<close>

lemma code_char_upper_char:
  assumes "is_upper_char c \<or> is_digit_char c"
  shows "upper_char c = [c]"
  using assms by (auto simp: upper_char_def is_upper_char_def is_digit_char_def Let_def)

lemma toUpperCase_code_chars:
  "list_all (\<lambda>c. is_upper_char c \<or> is_digit_char c \<or> c = CHR ''-'') s \<Longrightarrow> toUpperCase s = s"
proof (induction s)
  case (Cons c s)
  have "upper_char (CHR ''-'') = ''-''"
    by (simp add: upper_char_def)
  with Cons show ?case
    by (auto simp: toUpperCase_def code_char_upper_char)
qed (simp add: toUpperCase_def)

definition pairing_code_form :: "string \<Rightarrow> bool" where
  "pairing_code_form s \<longleftrightarrow>
     length s = 9 \<and> s ! 4 = CHR ''-'' \<and>
     list_all (\<lambda>c. is_upper_char c \<or> is_digit_char c) (take 4 s @ drop 5 s)"

lemma hyphen_not_code_char: "\<not> is_upper_char (CHR ''-'')" "\<not> is_digit_char (CHR ''-'')"
  by (simp_all add: is_upper_char_def is_digit_char_def)

lemma normalizePairingCode_form:
  assumes "normalizePairingCode code \<noteq> ''''"
  shows "pairing_code_form (normalizePairingCode code)"
proof -
  define compact where
    "compact = filter (\<lambda>c. is_upper_char c \<or> is_digit_char c) (toUpperCase code)"
  have all: "list_all (\<lambda>c. is_upper_char c \<or> is_digit_char c) compact"
    by (simp add: compact_def list_all_iff)
  have len: "length compact = 8"
    and eq: "normalizePairingCode code = take 4 compact @ ''-'' @ drop 4 compact"
    using assms by (auto simp: normalizePairingCode_def compact_def Let_def split: if_splits)
  have "take 4 (normalizePairingCode code) @ drop 5 (normalizePairingCode code) = compact"
    using len by (simp add: eq)
  with all len show ?thesis
    by (simp add: pairing_code_form_def eq nth_append)
qed

lemma normalizePairingCode_fixed:
  assumes "pairing_code_form s"
  shows "normalizePairingCode s = s"
proof -
  have len: "length s = 9" and hyphen: "s ! 4 = CHR ''-''"
    and all: "list_all (\<lambda>c. is_upper_char c \<or> is_digit_char c) (take 4 s @ drop 5 s)"
    using assms by (auto simp: pairing_code_form_def)
  have s: "s = take 4 s @ CHR ''-'' # drop 5 s"
    using id_take_nth_drop [of 4 s] len hyphen by simp
  have "list_all (\<lambda>c. is_upper_char c \<or> is_digit_char c \<or> c = CHR ''-'') s"
    using all by (subst s) (auto simp: list_all_iff)
  then have up: "toUpperCase s = s"
    by (rule toUpperCase_code_chars)
  have "filter (\<lambda>c. is_upper_char c \<or> is_digit_char c) s = take 4 s @ drop 5 s"
    using all by (subst s) (auto simp: list_all_iff filter_id_conv hyphen_not_code_char)
  with up s len show ?thesis
    by (simp add: normalizePairingCode_def Let_def)
qed

text \<open>
  A pairing code has one normal form: whatever a person types, \<open>normalizePairingCode\<close>
  returns either the empty string (which the pairing route rejects) or four and four characters
  of \<open>A-Z0-9\<close> around a hyphen, and a code in that form, such as the one the server printed, is
  returned unchanged, so normalising twice is normalising once.
\<close>

lemma pairing_code_normal_form:
  "(normalizePairingCode code = '''' \<or> pairing_code_form (normalizePairingCode code)) \<and>
   (pairing_code_form code \<longrightarrow> normalizePairingCode code = code) \<and>
   normalizePairingCode (normalizePairingCode code) = normalizePairingCode code"
proof -
  have "normalizePairingCode '''' = ''''"
    by (simp add: normalizePairingCode_def toUpperCase_def)
  then show ?thesis
    using normalizePairingCode_form [of code] normalizePairingCode_fixed
    by (metis normalizePairingCode_fixed)
qed

subsection \<open>Working directories stay inside the repository\<close>

lemma normalize_segments_no_dotdot:
  "''..'' \<notin> set ws \<Longrightarrow>
   normalize_segments up acc ws = rev acc @ filter (\<lambda>w. w \<noteq> '''' \<and> w \<noteq> ''.'') ws"
  by (induction ws arbitrary: acc) auto

lemma replaceBackslashes_chars:
  "c \<in> set (replaceBackslashes s) \<Longrightarrow> c = slash \<or> c \<in> set s \<and> c \<noteq> backslash"
  by (auto simp: replaceBackslashes_def split: if_splits)

lemma hd_join_with: "ws \<noteq> [] \<Longrightarrow> hd ws \<noteq> [] \<Longrightarrow> join_with d ws \<noteq> [] \<and> hd (join_with d ws) = hd (hd ws)"
  by (induction d ws rule: join_with.induct) auto

text \<open>What \<open>normalize\<close> returns on a relative path without \<open>..\<close> segments.\<close>

lemma posix_normalize_relative:
  assumes "\<not> posix_isAbsolute p" and "''..'' \<notin> set (split_on slash p)"
  shows "posix_normalize p = ''.'' \<or> posix_normalize p = ''./'' \<or>
    (\<exists>ws. ws \<noteq> [] \<and> (\<forall>w \<in> set ws. w \<noteq> '''' \<and> w \<in> set (split_on slash p)) \<and>
      (posix_normalize p = join_with slash ws \<or> posix_normalize p = join_with slash ws @ [slash]))"
proof -
  define ws where "ws = filter (\<lambda>w. w \<noteq> '''' \<and> w \<noteq> ''.'') (split_on slash p)"
  have seg: "normalize_segments (\<not> posix_isAbsolute p) [] (split_on slash p) = ws"
    using assms(2) by (simp add: normalize_segments_no_dotdot ws_def)
  have el: "\<forall>w \<in> set ws. w \<noteq> '''' \<and> w \<in> set (split_on slash p)"
    by (auto simp: ws_def)
  show ?thesis
  proof (cases "join_with slash ws = ''''")
    case True
    then show ?thesis
      using assms(1) seg by (auto simp: posix_normalize_def Let_def)
  next
    case False
    then have "ws \<noteq> []" by auto
    moreover have "posix_normalize p = join_with slash ws \<or>
        posix_normalize p = join_with slash ws @ [slash]"
      using assms(1) seg False by (auto simp: posix_normalize_def Let_def)
    ultimately show ?thesis using el by blast
  qed
qed

lemma segments_of_normalized:
  assumes "ws \<noteq> []" and "\<forall>w \<in> set ws. w \<noteq> '''' \<and> w \<in> set (split_on slash p)"
  shows "split_on slash (join_with slash ws) = ws"
    and "split_on slash (join_with slash ws @ [slash]) = ws @ ['''']"
    and "\<not> posix_isAbsolute (join_with slash ws @ t)"
    and "set (join_with slash ws) \<subseteq> insert slash (set p)"
proof -
  have no: "\<forall>w \<in> set ws. slash \<notin> set w"
    using assms(2) by (auto dest: split_on_segment_no_sep)
  show 1: "split_on slash (join_with slash ws) = ws"
    using assms(1) no by (rule split_on_join_with)
  then show "split_on slash (join_with slash ws @ [slash]) = ws @ ['''']"
    by (simp add: split_on_snoc_sep)
  have h: "hd ws \<noteq> []" "slash \<notin> set (hd ws)"
    using assms no by (cases ws; auto)+
  then have "hd (hd ws) \<noteq> slash"
    by (cases "hd ws") auto
  with h hd_join_with [OF assms(1), of slash] show "\<not> posix_isAbsolute (join_with slash ws @ t)"
    by (cases "join_with slash ws") (auto simp: posix_isAbsolute_def)
  show "set (join_with slash ws) \<subseteq> insert slash (set p)"
  proof -
    have "\<Union> (set ` set ws) \<subseteq> set p"
      using assms(2) split_on_set [of _ slash p] by (intro UN_least) blast
    with set_join_with [of slash ws] show ?thesis by blast
  qed
qed

definition stays_inside :: "string \<Rightarrow> bool" where
  "stays_inside r \<longleftrightarrow>
     \<not> posix_isAbsolute r \<and> ''..'' \<notin> set (split_on slash r) \<and> nul \<notin> set r \<and> backslash \<notin> set r"

lemma normalize_stays_inside:
  assumes "\<not> posix_isAbsolute p" and "''..'' \<notin> set (split_on slash p)"
    and "nul \<notin> set p" and "backslash \<notin> set p"
  shows "stays_inside (posix_normalize p)"
proof -
  have chars: "slash \<noteq> nul" "slash \<noteq> backslash"
    by (simp_all add: slash_def nul_def backslash_def)
  have dots: "stays_inside ''.''" "stays_inside ''./''"
    by (simp_all add: stays_inside_def posix_isAbsolute_def slash_def nul_def backslash_def)
  from posix_normalize_relative [OF assms(1,2)] show ?thesis
  proof (elim disjE exE conjE)
    fix ws
    assume ws: "ws \<noteq> []" "\<forall>w \<in> set ws. w \<noteq> '''' \<and> w \<in> set (split_on slash p)"
      and eq: "posix_normalize p = join_with slash ws"
    note segs = segments_of_normalized [OF ws]
    have "''..'' \<notin> set ws" "\<not> posix_isAbsolute (join_with slash ws)"
      using ws(2) assms(2) segs(3) [of "[]"] by auto
    moreover have "nul \<notin> set (join_with slash ws)" "backslash \<notin> set (join_with slash ws)"
      using segs(4) assms(3,4) chars by auto
    ultimately show ?thesis
      by (simp add: stays_inside_def eq segs(1))
  next
    fix ws
    assume ws: "ws \<noteq> []" "\<forall>w \<in> set ws. w \<noteq> '''' \<and> w \<in> set (split_on slash p)"
      and eq: "posix_normalize p = join_with slash ws @ [slash]"
    note segs = segments_of_normalized [OF ws]
    have "''..'' \<notin> set ws" "\<not> posix_isAbsolute (join_with slash ws @ [slash])"
      using ws(2) assms(2) segs(3) [of "[slash]"] by auto
    moreover have "nul \<notin> set (join_with slash ws)" "backslash \<notin> set (join_with slash ws)"
      using segs(4) assms(3,4) chars by auto
    ultimately show ?thesis
      using chars by (simp add: stays_inside_def eq segs(2))
  qed (simp_all add: dots)
qed

lemma replaceBackslashes_relative:
  assumes "\<not> win32_isAbsolute d"
  shows "\<not> posix_isAbsolute (replaceBackslashes d)"
  using assms by (cases d) (auto simp: posix_isAbsolute_def replaceBackslashes_def)

text \<open>
  Whatever working directory a request carries, \<open>normalizeWorkingDirectory\<close> either throws or
  returns a path that stays below the directory it is joined to: it does not start with a
  separator, has no \<open>..\<close> segment, no backslash and no NUL character.
\<close>

theorem working_directory_stays_inside:
  assumes "normalizeWorkingDirectory value = Inr r"
  shows "stays_inside r"
proof -
  have empty: "stays_inside ''''"
    by (simp add: stays_inside_def posix_isAbsolute_def)
  define d where "d = (case value of None \<Rightarrow> '''' | Some v \<Rightarrow> js_trim v)"
  define p where "p = replaceBackslashes d"
  show ?thesis
  proof (cases "d = '''' \<or> d = ''.''")
    case True
    with assms empty show ?thesis
      by (auto simp: normalizeWorkingDirectory_def d_def [symmetric] Let_def)
  next
    case False
    with assms have rel: "nul \<notin> set d" "\<not> win32_isAbsolute d"
      and seg: "''..'' \<notin> set (split_on slash p)"
      and r: "r = (if posix_normalize p = ''.'' then '''' else posix_normalize p)"
      by (auto simp: normalizeWorkingDirectory_def d_def [symmetric] p_def Let_def split: if_splits)
    have "nul \<noteq> slash" "backslash \<noteq> slash"
      by (simp_all add: nul_def slash_def backslash_def)
    with rel have "nul \<notin> set p" "backslash \<notin> set p"
      by (auto simp: p_def dest: replaceBackslashes_chars)
    with rel seg have "stays_inside (posix_normalize p)"
      by (intro normalize_stays_inside) (auto simp: p_def replaceBackslashes_relative)
    with r empty show ?thesis by simp
  qed
qed

theorem working_directory_stays_inside_witness:
  "normalizeWorkingDirectory (Some ''packages/./web'') = Inr ''packages/web'' \<and>
   stays_inside ''packages/web''"
proof -
  have run: "normalizeWorkingDirectory (Some ''packages/./web'') = Inr ''packages/web''"
    by code_simp
  with working_directory_stays_inside [OF run] show ?thesis by simp
qed

text \<open>
  The test for Windows paths runs before the path is normalised, so a drive path behind a
  \<open>./\<close> passes it: the accepted working directory \<open>C:/x\<close> is one the same function rejects when
  it is given directly.
\<close>

theorem working_directory_drive_path:
  "normalizeWorkingDirectory (Some ''./C:/x'') = Inr ''C:/x'' \<and> win32_isAbsolute ''C:/x'' \<and>
   normalizeWorkingDirectory (Some ''C:/x'') =
     Inl ''Working directory must be relative to the repository.''"
proof (intro conjI)
  show "normalizeWorkingDirectory (Some ''./C:/x'') = Inr ''C:/x''"
    by code_simp
  show "win32_isAbsolute ''C:/x''"
    by code_simp
  show "normalizeWorkingDirectory (Some ''C:/x'') =
     Inl ''Working directory must be relative to the repository.''"
    by code_simp
qed

subsection \<open>The chunks to remove are the shortest oldest prefix that is enough\<close>

lemma remove_until_prefix:
  "\<exists>k \<le> length xs. remove_until b xs = map fst (take k xs) \<and>
     (b \<le> sum_list (map snd (take k xs)) \<or> k = length xs) \<and>
     (\<forall>j < k. sum_list (map snd (take j xs)) < b)"
proof (induction b xs rule: remove_until.induct)
  case (1 b)
  then show ?case by simp
next
  case (2 b i n rest)
  show ?case
  proof (cases "b \<le> 0")
    case True
    then show ?thesis by (intro exI [of _ 0]) simp
  next
    case False
    then obtain k where k: "k \<le> length rest" "remove_until (b - n) rest = map fst (take k rest)"
      "b - n \<le> sum_list (map snd (take k rest)) \<or> k = length rest"
      "\<forall>j < k. sum_list (map snd (take j rest)) < b - n"
      using 2 by blast
    have "\<forall>j < Suc k. sum_list (map snd (take j ((i, n) # rest))) < b"
      using k(4) False by (auto simp: less_Suc_eq_0_disj)
    with k False show ?thesis
      by (intro exI [of _ "Suc k"]) auto
  qed
qed

lemma sum_list_map_take_drop:
  "sum_list (map f (take k xs)) + sum_list (map f (drop k xs)) = (sum_list (map f xs) :: int)"
  by (metis append_take_drop_id map_append sum_list_append)

lemma remove_until_nonpos [simp]: "b \<le> 0 \<Longrightarrow> remove_until b xs = []"
  by (cases xs) auto

lemma sum_snd_nonneg: "\<forall>x \<in> set xs. (0::int) \<le> snd x \<Longrightarrow> 0 \<le> sum_list (map snd xs)"
  by (induction xs) auto

lemma remove_until_append:
  "\<forall>x \<in> set xs. 0 \<le> snd x \<Longrightarrow>
   remove_until b (xs @ ys) = remove_until b xs @ remove_until (b - sum_list (map snd xs)) ys"
proof (induction b xs rule: remove_until.induct)
  case (2 b i n rest)
  show ?case
  proof (cases "b \<le> 0")
    case True
    moreover have "0 \<le> n + sum_list (map snd rest)"
      using 2(2) sum_snd_nonneg [of "(i, n) # rest"] by simp
    ultimately show ?thesis by simp
  next
    case False
    with 2 show ?thesis by (simp add: algebra_simps)
  qed
qed simp

text \<open>
  \<open>chunkIdsToRemove\<close> takes the shortest prefix of the oldest chunks that brings the rest under
  the limit.
\<close>

lemma chunkIdsToRemove_prefix:
  assumes "0 \<le> maximumBytes"
  shows "\<exists>k \<le> length xs. chunkIdsToRemove xs maximumBytes = map fst (take k xs) \<and>
     sum_list (map snd (drop k xs)) \<le> maximumBytes \<and>
     (\<forall>j < k. maximumBytes < sum_list (map snd (drop j xs)))"
proof -
  define b where "b = max 0 (sum_list (map snd xs) - maximumBytes)"
  obtain k where k: "k \<le> length xs" "remove_until b xs = map fst (take k xs)"
    "b \<le> sum_list (map snd (take k xs)) \<or> k = length xs"
    "\<forall>j < k. sum_list (map snd (take j xs)) < b"
    using remove_until_prefix by blast
  have "sum_list (map snd (drop k xs)) \<le> maximumBytes"
    using k(3) assms sum_list_map_take_drop [of snd k xs] by (auto simp: b_def)
  moreover have "maximumBytes < sum_list (map snd (drop j xs))" if j: "j < k" for j
  proof -
    have "0 < b"
    proof (rule ccontr)
      assume "\<not> 0 < b"
      then have "remove_until b xs = []" by simp
      with k(1,2) j show False by auto
    qed
    then show ?thesis
      using k(4) j sum_list_map_take_drop [of snd j xs] by (fastforce simp: b_def)
  qed
  ultimately show ?thesis
    using k(1,2) by (auto simp: chunkIdsToRemove_def b_def)
qed

end
