(* ===== verification/Database.thy ===== *)
theory Database
  imports Domain
begin

section \<open>The database\<close>

text \<open>
  The tables of \<open>apps/server/prisma/schema.prisma\<close>, a record per model, a list of rows per
  table. Column defaults that the database draws at random (\<open>uuid()\<close>) are arguments of the
  operation that creates the row, but for output chunks: nothing outside the table reads a
  chunk's identifier, so it is drawn from the counter \<open>db_nextId\<close>, which keeps it fresh. The
  column \<open>updatedAt\<close> is written by the client on every update of a row.
\<close>

record user =
  usr_id :: ident
  usr_email :: string
  usr_passwordHash :: "string option"
  usr_googleSub :: "string option"
  usr_createdAt :: ms
  usr_updatedAt :: ms

record session =
  ses_id :: ident
  ses_userId :: ident
  ses_tokenHash :: string
  ses_csrfTokenHash :: string
  ses_expiresAt :: ms
  ses_lastUsedAt :: ms
  ses_createdAt :: ms
  ses_revokedAt :: "ms option"

record device =
  dev_id :: ident
  dev_userId :: ident
  dev_name :: string
  dev_platform :: string
  dev_architecture :: string
  dev_agentVersion :: string
  dev_status :: device_status
  dev_lastSeenAt :: "ms option"
  dev_createdAt :: ms
  dev_updatedAt :: ms

record credential =
  cred_id :: ident
  cred_deviceId :: ident
  cred_credentialHash :: string
  cred_createdAt :: ms
  cred_lastUsedAt :: "ms option"
  cred_revokedAt :: "ms option"

record pairing_code =
  pc_id :: ident
  pc_userId :: ident
  pc_codeHash :: string
  pc_expiresAt :: ms
  pc_usedAt :: "ms option"
  pc_createdAt :: ms

record repository =
  repo_id :: ident
  repo_deviceId :: ident
  repo_name :: string
  repo_absolutePath :: string
  repo_description :: "string option"
  repo_enabled :: bool
  repo_allowCustomCommands :: bool
  repo_shell :: string
  repo_shellArgs :: "string list"
  repo_inheritedEnvironment :: "string list"
  repo_isGitRepository :: "bool option"
  repo_branch :: "string option"
  repo_repositoryRoot :: "string option"
  repo_createdAt :: ms
  repo_updatedAt :: ms

record action =
  act_id :: ident
  act_repositoryId :: ident
  act_name :: string
  act_command :: string
  act_workingDirectory :: string
  act_interactive :: bool
  act_persistent :: bool
  act_confirmationRequired :: bool
  act_createdAt :: ms
  act_updatedAt :: ms

record job =
  job_id :: ident
  job_userId :: ident
  job_deviceId :: ident
  job_repositoryId :: ident
  job_actionId :: "ident option"
  job_command :: string
  job_workingDirectory :: string
  job_status :: job_status
  job_interactive :: bool
  job_persistent :: bool
  job_exitCode :: "int option"
  job_statusDetail :: "string option"
  job_retainedOutputBytes :: int
  job_outputTruncated :: bool
  job_startedAt :: "ms option"
  job_finishedAt :: "ms option"
  job_createdAt :: ms
  job_updatedAt :: ms

record chunk =
  ch_id :: nat
  ch_jobId :: ident
  ch_sequence :: int
  ch_stream :: output_stream
  ch_data :: string
  ch_byteLength :: int
  ch_timestamp :: ms

record audit_event =
  aud_id :: ident
  aud_userId :: "ident option"
  aud_deviceId :: "ident option"
  aud_action :: string
  aud_ipAddress :: "string option"
  aud_userAgent :: "string option"
  aud_metadata :: "json option"
  aud_createdAt :: ms

record push_subscription =
  ps_id :: ident
  ps_userId :: ident
  ps_endpoint :: string
  ps_p256dh :: string
  ps_auth :: string
  ps_userAgent :: "string option"
  ps_createdAt :: ms
  ps_lastNotifiedAt :: "ms option"

record db =
  db_users :: "user list"
  db_sessions :: "session list"
  db_devices :: "device list"
  db_credentials :: "credential list"
  db_pairingCodes :: "pairing_code list"
  db_repositories :: "repository list"
  db_actions :: "action list"
  db_jobs :: "job list"
  db_chunks :: "chunk list"
  db_audit :: "audit_event list"
  db_push :: "push_subscription list"
  db_nextId :: nat

subsection \<open>Lookups\<close>

definition findJob :: "ident \<Rightarrow> db \<Rightarrow> job option" where
  "findJob j d = List.find (\<lambda>r. job_id r = j) (db_jobs d)"

definition findDevice :: "ident \<Rightarrow> db \<Rightarrow> device option" where
  "findDevice i d = List.find (\<lambda>r. dev_id r = i) (db_devices d)"

definition findRepository :: "ident \<Rightarrow> db \<Rightarrow> repository option" where
  "findRepository i d = List.find (\<lambda>r. repo_id r = i) (db_repositories d)"

text \<open>The update of one job by its identifier, which also writes \<open>updatedAt\<close>.\<close>

definition updateJob :: "ms \<Rightarrow> ident \<Rightarrow> (job \<Rightarrow> job) \<Rightarrow> db \<Rightarrow> (js_error + job) \<times> db" where
  "updateJob now j f d =
     (case updateUnique (\<lambda>r. job_id r = j) (\<lambda>r. (f r)\<lparr>job_updatedAt := now\<rparr>) (db_jobs d) of
        (res, rows) \<Rightarrow> (res, d\<lparr>db_jobs := rows\<rparr>))"

definition job_status_of :: "ident \<Rightarrow> db \<Rightarrow> job_status option" where
  "job_status_of j d = map_option job_status (findJob j d)"

subsection \<open>Unique keys and references of the schema\<close>

text \<open>
  The constraints the schema declares on the tables the job components write: identifiers and
  \<open>(jobId, sequence)\<close> are unique, and every chunk belongs to a job.
\<close>

definition jobs_keyed :: "db \<Rightarrow> bool" where
  "jobs_keyed d \<longleftrightarrow> distinct (map job_id (db_jobs d))"

definition chunks_keyed :: "db \<Rightarrow> bool" where
  "chunks_keyed d \<longleftrightarrow>
     distinct (map ch_id (db_chunks d)) \<and> (\<forall>c \<in> set (db_chunks d). ch_id c < db_nextId d) \<and>
     distinct (map (\<lambda>c. (ch_jobId c, ch_sequence c)) (db_chunks d))"

lemma findJob_SomeD: "findJob j d = Some r \<Longrightarrow> r \<in> set (db_jobs d) \<and> job_id r = j"
  by (auto simp: findJob_def dest: find_SomeD)

lemma findJob_unique:
  "jobs_keyed d \<Longrightarrow> r \<in> set (db_jobs d) \<Longrightarrow> findJob (job_id r) d = Some r"
  unfolding jobs_keyed_def findJob_def by (rule find_unique_key)

lemma updateJob_snd:
  assumes "findJob j d = Some r"
  shows "updateJob now j f d =
    (Inr ((f r)\<lparr>job_updatedAt := now\<rparr>),
     d\<lparr>db_jobs := updateMany (\<lambda>r. job_id r = j) (\<lambda>r. (f r)\<lparr>job_updatedAt := now\<rparr>) (db_jobs d)\<rparr>)"
  using assms by (simp add: updateJob_def updateUnique_def findJob_def)

lemma updateJob_missing: "findJob j d = None \<Longrightarrow> updateJob now j f d = (Inl (PrismaError ''P2025''), d)"
  by (simp add: updateJob_def updateUnique_def findJob_def)

lemma findJob_updateMany:
  assumes "\<And>r. job_id (f r) = job_id r"
  shows "findJob j (d\<lparr>db_jobs := updateMany P f (db_jobs d)\<rparr>) =
    map_option (\<lambda>r. if P r then f r else r) (findJob j d)"
  using assms by (simp add: findJob_def find_updateMany)

lemma findJob_updateJob:
  assumes "\<And>r. job_id (f r) = job_id r"
  shows "findJob j (snd (updateJob now k f d)) =
    map_option (\<lambda>r. if job_id r = k then (f r)\<lparr>job_updatedAt := now\<rparr> else r) (findJob j d)"
proof (cases "findJob k d")
  case None
  then have "\<forall>r \<in> set (db_jobs d). job_id r \<noteq> k"
    by (simp add: findJob_def find_None_iff_all)
  then show ?thesis
    using None by (cases "findJob j d") (auto simp: updateJob_missing dest: findJob_SomeD)
next
  case (Some r)
  with assms show ?thesis
    by (simp add: updateJob_snd findJob_updateMany)
qed

lemma updateJob_frame [frame_simps]:
  "db_chunks (snd (updateJob now j f d)) = db_chunks d"
  "db_nextId (snd (updateJob now j f d)) = db_nextId d"
  "db_devices (snd (updateJob now j f d)) = db_devices d"
  "db_repositories (snd (updateJob now j f d)) = db_repositories d"
  by (auto simp: updateJob_def split: prod.splits)

lemma jobs_keyed_updateJob:
  assumes "jobs_keyed d" and "\<And>r. job_id (f r) = job_id r"
  shows "jobs_keyed (snd (updateJob now j f d))"
proof (cases "findJob j d")
  case None
  with assms(1) show ?thesis by (simp add: updateJob_missing)
next
  case (Some r)
  with assms show ?thesis
    by (simp add: updateJob_snd jobs_keyed_def)
qed

subsection \<open>Rows for examples\<close>

definition example_job :: "ident \<Rightarrow> ident \<Rightarrow> ident \<Rightarrow> job_status \<Rightarrow> job" where
  "example_job i u dv st = \<lparr>job_id = i, job_userId = u, job_deviceId = dv, job_repositoryId = ''r'',
     job_actionId = None, job_command = ''ls'', job_workingDirectory = ''.'', job_status = st,
     job_interactive = True, job_persistent = False, job_exitCode = None, job_statusDetail = None,
     job_retainedOutputBytes = 0, job_outputTruncated = False, job_startedAt = None,
     job_finishedAt = None, job_createdAt = 0, job_updatedAt = 0\<rparr>"

definition empty_db :: db where
  "empty_db = \<lparr>db_users = [], db_sessions = [], db_devices = [], db_credentials = [],
     db_pairingCodes = [], db_repositories = [], db_actions = [], db_jobs = [], db_chunks = [],
     db_audit = [], db_push = [], db_nextId = 0\<rparr>"

definition example_device :: "ident \<Rightarrow> ident \<Rightarrow> device" where
  "example_device i u = \<lparr>dev_id = i, dev_userId = u, dev_name = ''laptop'', dev_platform = ''linux'',
     dev_architecture = ''x64'', dev_agentVersion = ''1'', dev_status = Offline, dev_lastSeenAt = None,
     dev_createdAt = 0, dev_updatedAt = 0\<rparr>"

definition example_db :: "job list \<Rightarrow> db" where
  "example_db js = empty_db\<lparr>db_jobs := js\<rparr>"

lemmas example_defs = example_job_def empty_db_def example_db_def

end
