(* ===== verification/Hub.thy ===== *)
theory Hub
  imports Database
begin

section \<open>The connection hub of one server instance\<close>

text \<open>
  \<open>ConnectionHub\<close> of \<open>services/connections.ts\<close>: the agents and viewers connected to this instance,
  the subscriptions of the viewers, and the routing of messages to them. A function that awaits
  Redis is cut at its awaits: each segment runs alone on the state of the moment, and the replies
  of Redis are arguments of the segment they resume (\<open>Presence\<close> runs the segments against a
  store, interleaved). Without Redis no function of the hub awaits, and the segments compose to
  one step.

  A \<open>WebSocket\<close> is what the hub reads of it and calls on it: its \<open>readyState\<close> (1 is open), its
  \<open>bufferedAmount\<close>, which only the network changes, the frames given to \<open>send\<close> and the calls of
  \<open>close\<close>, which make an open socket leave the open state.
\<close>

type_synonym sock = nat

datatype frame = ToAgent server_to_agent | ToClient server_to_client

record socket =
  sk_readyState :: nat
  sk_bufferedAmount :: int
  sk_sent :: "frame list"
  sk_closes :: "(int \<times> string) list"

definition OPEN_STATE :: nat where
  "OPEN_STATE = 1"

definition MAX_CLIENT_SEND_BACKLOG_BYTES :: int where
  "MAX_CLIENT_SEND_BACKLOG_BYTES = 8 * 1024 * 1024"

definition CLOSE_REASON_MAX_BYTES :: nat where
  "CLOSE_REASON_MAX_BYTES = 123"

record agent_owner =
  ow_instanceId :: ident
  ow_connectionId :: ident
  ow_userId :: ident

record agent_connection =
  ac_owner :: agent_owner
  ac_socket :: sock
  ac_deviceId :: ident
  ac_lastHeartbeatAt :: ms

record subscription =
  sub_replaying :: bool
  sub_queuedMessages :: "server_to_client list"

record client_connection =
  cc_userId :: ident
  cc_subscriptions :: "(ident \<times> subscription) list"

text \<open>
  The envelopes instances exchange. \<open>env_target\<close> is \<open>None\<close> for \<open>null\<close>, a message for everyone.
\<close>

record envelope_base =
  env_id :: ident
  env_source :: ident
  env_target :: "ident option"
  env_createdAt :: ms
  env_expiresAt :: ms

datatype envelope_body =
    AgentSend ident ident ident server_to_agent
  | AgentClose ident ident int string
  | RelayAck ident bool
  | ClientJob ident ident server_to_client
  | ClientDevice ident server_to_client
  | ValidationResultEnv ident validation_result
  | ValidationCancelEnv ident

type_synonym envelope = "envelope_base \<times> envelope_body"

record hub =
  hub_instanceId :: ident
  hub_distributed :: bool
  hub_requestTimeoutMs :: ms
  hub_agents :: "(ident \<times> agent_connection) list"
  hub_clients :: "(sock \<times> client_connection) list"
  hub_pendingAcks :: "ident list"
  hub_ackResults :: "(ident \<times> bool) list"
  hub_sockets :: "sock \<Rightarrow> socket"
  hub_published :: "envelope list"
  hub_shuttingDown :: bool

definition agent_of :: "ident \<Rightarrow> hub \<Rightarrow> agent_connection option" where
  "agent_of deviceId h = map_of (hub_agents h) deviceId"

subsection \<open>Sockets\<close>

definition send_on :: "sock \<Rightarrow> frame \<Rightarrow> (sock \<Rightarrow> socket) \<Rightarrow> bool \<times> (sock \<Rightarrow> socket)" where
  "send_on s message socks =
     (if sk_readyState (socks s) \<noteq> OPEN_STATE then (False, socks)
      else (True, socks(s := (socks s)\<lparr>sk_sent := sk_sent (socks s) @ [message]\<rparr>)))"

definition close_on :: "sock \<Rightarrow> int \<Rightarrow> string \<Rightarrow> (sock \<Rightarrow> socket) \<Rightarrow> (sock \<Rightarrow> socket)" where
  "close_on s code reason socks =
     socks(s := (socks s)\<lparr>sk_readyState := (if sk_readyState (socks s) = OPEN_STATE then 2 else sk_readyState (socks s)),
                         sk_closes := sk_closes (socks s) @ [(code, reason)]\<rparr>)"

definition send :: "sock \<Rightarrow> frame \<Rightarrow> hub \<Rightarrow> bool \<times> hub" where
  "send s message h = (case send_on s message (hub_sockets h) of (ok, socks) \<Rightarrow> (ok, h\<lparr>hub_sockets := socks\<rparr>))"

definition close_socket :: "sock \<Rightarrow> int \<Rightarrow> string \<Rightarrow> hub \<Rightarrow> hub" where
  "close_socket s code reason h = h\<lparr>hub_sockets := close_on s code reason (hub_sockets h)\<rparr>"

subsection \<open>Envelopes\<close>

definition envelopeBase :: "hub \<Rightarrow> ident \<Rightarrow> ms \<Rightarrow> ident option \<Rightarrow> ms \<Rightarrow> envelope_base" where
  "envelopeBase h uuid now target ttlMs =
     \<lparr>env_id = uuid, env_source = hub_instanceId h, env_target = target,
      env_createdAt = now, env_expiresAt = now + ttlMs\<rparr>"

text \<open>
  \<open>publishBestEffort\<close>, with the outcome of the Redis command: nothing without Redis, and \<open>False\<close>
  when the connection or the command failed.
\<close>

definition publishBestEffort :: "bool \<Rightarrow> envelope \<Rightarrow> hub \<Rightarrow> bool \<times> hub" where
  "publishBestEffort accepted e h =
     (if \<not> hub_distributed h then (False, h)
      else if accepted then (True, h\<lparr>hub_published := hub_published h @ [e]\<rparr>)
      else (False, h))"

subsection \<open>Agents\<close>

text \<open>
  \<open>attachAgent\<close>: the connection it remembers as \<open>existing\<close> and the owner it is about to claim for,
  before the await of the claim; then the rest, with the owner the claim replaced.
\<close>

definition attachAgent_begin ::
  "ident \<Rightarrow> ident \<Rightarrow> ident \<Rightarrow> hub \<Rightarrow> agent_connection option \<times> agent_owner" where
  "attachAgent_begin deviceId userId connectionId h =
     (agent_of deviceId h,
      \<lparr>ow_instanceId = hub_instanceId h, ow_connectionId = connectionId, ow_userId = userId\<rparr>)"

definition attachAgent_finish ::
  "agent_connection option \<Rightarrow> agent_owner \<Rightarrow> agent_owner option \<Rightarrow> ident \<Rightarrow> sock \<Rightarrow> ms \<Rightarrow> ident \<Rightarrow> bool \<Rightarrow> hub \<Rightarrow> hub" where
  "attachAgent_finish existing owner previousOwner deviceId socket now uuid accepted h =
     (let connection = \<lparr>ac_owner = owner, ac_socket = socket, ac_deviceId = deviceId,
                        ac_lastHeartbeatAt = now\<rparr>;
          h = h\<lparr>hub_agents := AList.update deviceId connection (hub_agents h)\<rparr>;
          h = (case existing of
                 None \<Rightarrow> h
               | Some e \<Rightarrow> if ac_socket e \<noteq> socket
                          then close_socket (ac_socket e) 4001 ''replaced by a newer connection'' h else h)
      in case previousOwner of
           None \<Rightarrow> h
         | Some p \<Rightarrow>
             if ow_connectionId p \<noteq> ow_connectionId owner \<and> ow_instanceId p \<noteq> hub_instanceId h
             then snd (publishBestEffort accepted
                    (envelopeBase h uuid now (Some (ow_instanceId p)) 10000,
                     AgentClose deviceId (ow_connectionId p) 4001 ''replaced by a newer connection'') h)
             else h)"

definition attachAgent :: "ident \<Rightarrow> ident \<Rightarrow> sock \<Rightarrow> ident \<Rightarrow> ms \<Rightarrow> hub \<Rightarrow> hub" where
  "attachAgent deviceId userId socket connectionId now h =
     (case attachAgent_begin deviceId userId connectionId h of
        (existing, owner) \<Rightarrow> attachAgent_finish existing owner None deviceId socket now '''' False h)"

text \<open>
  \<open>detachAgent\<close>: \<open>None\<close> when it returns \<open>false\<close> before any await, the connection to release otherwise;
  then the rest with the reply of the release script: \<open>None\<close> when the command threw.
\<close>

definition detachAgent_begin :: "ident \<Rightarrow> sock \<Rightarrow> hub \<Rightarrow> agent_connection option" where
  "detachAgent_begin deviceId socket h =
     (case agent_of deviceId h of
        None \<Rightarrow> None
      | Some existing \<Rightarrow> if ac_socket existing \<noteq> socket then None else Some existing)"

definition detachAgent_finish :: "ident \<Rightarrow> bool option \<Rightarrow> hub \<Rightarrow> bool \<times> hub" where
  "detachAgent_finish deviceId released h =
     (case released of
        None \<Rightarrow> (False, h)
      | Some ok \<Rightarrow> (ok, h\<lparr>hub_agents := AList.delete deviceId (hub_agents h)\<rparr>))"

definition detachAgent :: "ident \<Rightarrow> sock \<Rightarrow> hub \<Rightarrow> bool \<times> hub" where
  "detachAgent deviceId socket h =
     (case detachAgent_begin deviceId socket h of
        None \<Rightarrow> (False, h)
      | Some existing \<Rightarrow> detachAgent_finish deviceId (Some True) h)"

text \<open>
  \<open>heartbeat\<close>: the connection whose presence it touches, then the rest with the outcome of the
  touch. The object \<open>connection\<close> is the one read at the start: the new heartbeat time is visible in
  the map as long as the map still holds that connection.
\<close>

definition heartbeat_begin :: "ident \<Rightarrow> sock \<Rightarrow> hub \<Rightarrow> agent_connection option" where
  "heartbeat_begin deviceId socket h =
     (case agent_of deviceId h of
        None \<Rightarrow> None
      | Some connection \<Rightarrow> if ac_socket connection \<noteq> socket then None else Some connection)"

definition same_connection :: "agent_connection \<Rightarrow> agent_connection \<Rightarrow> bool" where
  "same_connection c c' \<longleftrightarrow> ow_connectionId (ac_owner c) = ow_connectionId (ac_owner c')"

definition touch_heartbeat :: "ident \<Rightarrow> agent_connection \<Rightarrow> ms \<Rightarrow> hub \<Rightarrow> hub" where
  "touch_heartbeat deviceId connection now h =
     (case agent_of deviceId h of
        None \<Rightarrow> h
      | Some c \<Rightarrow> if same_connection c connection
                 then h\<lparr>hub_agents := AList.update deviceId (c\<lparr>ac_lastHeartbeatAt := now\<rparr>) (hub_agents h)\<rparr>
                 else h)"

definition heartbeat_finish ::
  "ident \<Rightarrow> agent_connection \<Rightarrow> bool \<Rightarrow> ms \<Rightarrow> hub \<Rightarrow> bool \<times> hub" where
  "heartbeat_finish deviceId connection touched now h =
     (if hub_distributed h \<and> \<not> touched then
        (False, close_socket (ac_socket connection) 4001 ''replaced by a newer connection''
                  (h\<lparr>hub_agents := AList.delete deviceId (hub_agents h)\<rparr>))
      else (True, touch_heartbeat deviceId connection now h))"

definition heartbeat :: "ident \<Rightarrow> sock \<Rightarrow> ms \<Rightarrow> hub \<Rightarrow> bool \<times> hub" where
  "heartbeat deviceId socket now h =
     (case heartbeat_begin deviceId socket h of
        None \<Rightarrow> (False, h)
      | Some connection \<Rightarrow> heartbeat_finish deviceId connection True now h)"

definition isLocalAgentOnline :: "ident \<Rightarrow> hub \<Rightarrow> bool" where
  "isLocalAgentOnline deviceId h =
     (case agent_of deviceId h of
        None \<Rightarrow> False | Some c \<Rightarrow> sk_readyState (hub_sockets h (ac_socket c)) = OPEN_STATE)"

definition sendToLocalAgent :: "ident \<Rightarrow> ident option \<Rightarrow> server_to_agent \<Rightarrow> hub \<Rightarrow> bool \<times> hub" where
  "sendToLocalAgent deviceId expectedConnectionId message h =
     (case agent_of deviceId h of
        None \<Rightarrow> (False, h)
      | Some connection \<Rightarrow>
          if expectedConnectionId \<noteq> None \<and>
             Some (ow_connectionId (ac_owner connection)) \<noteq> expectedConnectionId
          then (False, h)
          else send (ac_socket connection) (ToAgent message) h)"

text \<open>\<open>closeDevice\<close> without Redis; the reason is cut to what a close frame carries.\<close>

definition closeDevice :: "ident \<Rightarrow> string \<Rightarrow> hub \<Rightarrow> hub" where
  "closeDevice deviceId reason h =
     (case agent_of deviceId h of
        None \<Rightarrow> h
      | Some c \<Rightarrow> close_socket (ac_socket c) 4003 (take CLOSE_REASON_MAX_BYTES reason) h)"

definition staleAgents :: "ms \<Rightarrow> ms \<Rightarrow> hub \<Rightarrow> agent_connection list" where
  "staleAgents maximumIdleMs now h =
     filter (\<lambda>c. now - ac_lastHeartbeatAt c > maximumIdleMs) (map snd (hub_agents h))"

text \<open>With Redis the owner is the one read from the store; \<open>None\<close> also stands for a failed read.\<close>

definition closeDevice_routed ::
  "ident \<Rightarrow> string \<Rightarrow> agent_owner option \<Rightarrow> ms \<Rightarrow> ident \<Rightarrow> bool \<Rightarrow> hub \<Rightarrow> hub" where
  "closeDevice_routed deviceId reason owner now uuid accepted h =
     (case owner of
        None \<Rightarrow> h
      | Some ow \<Rightarrow>
          if ow_instanceId ow = hub_instanceId h then
            (case agent_of deviceId h of
               None \<Rightarrow> h
             | Some local \<Rightarrow>
                 if ow_connectionId (ac_owner local) = ow_connectionId ow
                 then close_socket (ac_socket local) 4003 (take CLOSE_REASON_MAX_BYTES reason) h
                 else h)
          else snd (publishBestEffort accepted
                 (envelopeBase h uuid now (Some (ow_instanceId ow)) 10000,
                  AgentClose deviceId (ow_connectionId ow) 4003 (take CLOSE_REASON_MAX_BYTES reason)) h))"

subsection \<open>Viewers and their subscriptions\<close>

definition attachClient :: "ident \<Rightarrow> sock \<Rightarrow> hub \<Rightarrow> hub" where
  "attachClient userId socket h =
     h\<lparr>hub_clients := AList.update socket \<lparr>cc_userId = userId, cc_subscriptions = []\<rparr> (hub_clients h)\<rparr>"

definition detachClient :: "sock \<Rightarrow> hub \<Rightarrow> hub" where
  "detachClient socket h = h\<lparr>hub_clients := AList.delete socket (hub_clients h)\<rparr>"

definition subscription_of :: "sock \<Rightarrow> ident \<Rightarrow> hub \<Rightarrow> subscription option" where
  "subscription_of socket jobId h =
     Option.bind (map_of (hub_clients h) socket) (\<lambda>c. map_of (cc_subscriptions c) jobId)"

definition set_subscription :: "sock \<Rightarrow> ident \<Rightarrow> subscription \<Rightarrow> hub \<Rightarrow> hub" where
  "set_subscription socket jobId sub h =
     (case map_of (hub_clients h) socket of
        None \<Rightarrow> h
      | Some c \<Rightarrow> h\<lparr>hub_clients := AList.update socket
          (c\<lparr>cc_subscriptions := AList.update jobId sub (cc_subscriptions c)\<rparr>) (hub_clients h)\<rparr>)"

definition beginSubscription :: "sock \<Rightarrow> ident \<Rightarrow> hub \<Rightarrow> hub" where
  "beginSubscription socket jobId h =
     set_subscription socket jobId \<lparr>sub_replaying = True, sub_queuedMessages = []\<rparr> h"

fun send_each :: "sock \<Rightarrow> server_to_client list \<Rightarrow> hub \<Rightarrow> hub" where
  "send_each s [] h = h"
| "send_each s (m # ms) h = send_each s ms (snd (send s (ToClient m) h))"

definition finishSubscription :: "sock \<Rightarrow> ident \<Rightarrow> hub \<Rightarrow> hub" where
  "finishSubscription socket jobId h =
     (case subscription_of socket jobId h of
        None \<Rightarrow> h
      | Some sub \<Rightarrow>
          set_subscription socket jobId \<lparr>sub_replaying = False, sub_queuedMessages = []\<rparr>
            (send_each socket (sub_queuedMessages sub) h))"

definition unsubscribe :: "sock \<Rightarrow> ident \<Rightarrow> hub \<Rightarrow> hub" where
  "unsubscribe socket jobId h =
     (case map_of (hub_clients h) socket of
        None \<Rightarrow> h
      | Some c \<Rightarrow> h\<lparr>hub_clients := AList.update socket
          (c\<lparr>cc_subscriptions := AList.delete jobId (cc_subscriptions c)\<rparr>) (hub_clients h)\<rparr>)"

subsection \<open>Fan-out\<close>

text \<open>What \<open>broadcastJobLocally\<close> does for one viewer.\<close>

definition deliver_job ::
  "ident \<Rightarrow> ident \<Rightarrow> server_to_client \<Rightarrow> sock \<Rightarrow> client_connection \<Rightarrow> (sock \<Rightarrow> socket) \<Rightarrow>
   client_connection \<times> (sock \<Rightarrow> socket)" where
  "deliver_job userId jobId message s c socks =
     (if cc_userId c \<noteq> userId then (c, socks)
      else (case map_of (cc_subscriptions c) jobId of
        None \<Rightarrow> (c, socks)
      | Some sub \<Rightarrow>
          if \<not> sub_replaying sub then
            (if sk_bufferedAmount (socks s) > MAX_CLIENT_SEND_BACKLOG_BYTES
             then (c, if sk_readyState (socks s) = OPEN_STATE
                      then close_on s 1013 ''viewer fell behind; reconnect to catch up'' socks else socks)
             else (c, snd (send_on s (ToClient message) socks)))
          else if length (sub_queuedMessages sub) \<ge> 1000
          then (c, close_on s 1013 ''output arrived faster than replay'' socks)
          else (c\<lparr>cc_subscriptions := AList.update jobId
                    (sub\<lparr>sub_queuedMessages := sub_queuedMessages sub @ [message]\<rparr>) (cc_subscriptions c)\<rparr>,
                socks)))"

fun deliver_job_all ::
  "ident \<Rightarrow> ident \<Rightarrow> server_to_client \<Rightarrow> (sock \<times> client_connection) list \<Rightarrow> (sock \<Rightarrow> socket) \<Rightarrow>
   (sock \<times> client_connection) list \<times> (sock \<Rightarrow> socket)" where
  "deliver_job_all userId jobId message [] socks = ([], socks)"
| "deliver_job_all userId jobId message ((s, c) # clients) socks =
     (case deliver_job userId jobId message s c socks of
        (c', socks') \<Rightarrow>
          (case deliver_job_all userId jobId message clients socks' of
             (clients', socks'') \<Rightarrow> ((s, c') # clients', socks'')))"

definition broadcastJobLocally :: "ident \<Rightarrow> ident \<Rightarrow> server_to_client \<Rightarrow> hub \<Rightarrow> hub" where
  "broadcastJobLocally userId jobId message h =
     (case deliver_job_all userId jobId message (hub_clients h) (hub_sockets h) of
        (clients, socks) \<Rightarrow> h\<lparr>hub_clients := clients, hub_sockets := socks\<rparr>)"

fun deliver_device_all ::
  "ident \<Rightarrow> server_to_client \<Rightarrow> (sock \<times> client_connection) list \<Rightarrow> (sock \<Rightarrow> socket) \<Rightarrow> (sock \<Rightarrow> socket)" where
  "deliver_device_all userId message [] socks = socks"
| "deliver_device_all userId message ((s, c) # clients) socks =
     deliver_device_all userId message clients
       (if cc_userId c = userId then snd (send_on s (ToClient message) socks) else socks)"

definition broadcastDeviceLocally :: "ident \<Rightarrow> server_to_client \<Rightarrow> hub \<Rightarrow> hub" where
  "broadcastDeviceLocally userId message h =
     h\<lparr>hub_sockets := deliver_device_all userId message (hub_clients h) (hub_sockets h)\<rparr>"

definition broadcastJob ::
  "bool \<Rightarrow> ms \<Rightarrow> ident \<Rightarrow> ident \<Rightarrow> ident \<Rightarrow> server_to_client \<Rightarrow> hub \<Rightarrow> hub" where
  "broadcastJob accepted now uuid userId jobId message h =
     snd (publishBestEffort accepted
       (envelopeBase h uuid now None 30000, ClientJob userId jobId message)
       (broadcastJobLocally userId jobId message h))"

definition broadcastDevice ::
  "bool \<Rightarrow> ms \<Rightarrow> ident \<Rightarrow> ident \<Rightarrow> server_to_client \<Rightarrow> hub \<Rightarrow> hub" where
  "broadcastDevice accepted now uuid userId message h =
     snd (publishBestEffort accepted
       (envelopeBase h uuid now None 30000, ClientDevice userId message)
       (broadcastDeviceLocally userId message h))"

subsection \<open>Listeners\<close>

text \<open>
  The listeners for validation results and cancellations work on a state of their owner, here \<open>'b\<close>.
  A listener that throws answers \<open>None\<close>.
\<close>

fun emitValidationResult ::
  "(ident \<Rightarrow> validation_result \<Rightarrow> 'b \<Rightarrow> bool option \<times> 'b) list \<Rightarrow> ident \<Rightarrow> validation_result \<Rightarrow> 'b \<Rightarrow>
   bool \<times> 'b" where
  "emitValidationResult [] deviceId result b = (False, b)"
| "emitValidationResult (l # ls) deviceId result b =
     (case l deviceId result b of
        (r, b') \<Rightarrow> (case emitValidationResult ls deviceId result b' of
                    (handled, b'') \<Rightarrow> (r = Some True \<or> handled, b'')))"

fun emitValidationCancel :: "(ident \<Rightarrow> 'b \<Rightarrow> 'b) list \<Rightarrow> ident \<Rightarrow> 'b \<Rightarrow> 'b" where
  "emitValidationCancel [] deviceId b = b"
| "emitValidationCancel (l # ls) deviceId b = emitValidationCancel ls deviceId (l deviceId b)"

definition publishValidationResult ::
  "(ident \<Rightarrow> validation_result \<Rightarrow> 'b \<Rightarrow> bool option \<times> 'b) list \<Rightarrow> bool \<Rightarrow> ms \<Rightarrow> ident \<Rightarrow> ident \<Rightarrow>
   validation_result \<Rightarrow> 'b \<times> hub \<Rightarrow> bool \<times> 'b \<times> hub" where
  "publishValidationResult ls accepted now uuid deviceId result s =
     (case s of (b, h) \<Rightarrow>
        (case emitValidationResult ls deviceId result b of
           (handledLocally, b') \<Rightarrow>
             (if \<not> hub_distributed h then (handledLocally, b', h)
              else (case publishBestEffort accepted
                      (envelopeBase h uuid now None 30000, ValidationResultEnv deviceId result) h of
                      (published, h') \<Rightarrow> (handledLocally \<or> published, b', h')))))"

definition publishValidationCancel ::
  "(ident \<Rightarrow> 'b \<Rightarrow> 'b) list \<Rightarrow> bool \<Rightarrow> ms \<Rightarrow> ident \<Rightarrow> ident \<Rightarrow> 'b \<times> hub \<Rightarrow> 'b \<times> hub" where
  "publishValidationCancel ls accepted now uuid deviceId s =
     (case s of (b, h) \<Rightarrow>
        (emitValidationCancel ls deviceId b,
         snd (publishBestEffort accepted
           (envelopeBase h uuid now None 30000, ValidationCancelEnv deviceId) h)))"

subsection \<open>Routing a message to an agent that another instance may hold\<close>

text \<open>The attempt on this instance: which connection to touch, and the rest after the touch.\<close>

definition sendToOwnedLocalAgent_begin :: "ident \<Rightarrow> ident \<Rightarrow> hub \<Rightarrow> agent_connection option" where
  "sendToOwnedLocalAgent_begin deviceId expectedConnectionId h =
     (case agent_of deviceId h of
        None \<Rightarrow> None
      | Some c \<Rightarrow> if ow_connectionId (ac_owner c) \<noteq> expectedConnectionId then None else Some c)"

definition sendToOwnedLocalAgent_finish ::
  "ident \<Rightarrow> agent_connection \<Rightarrow> bool \<Rightarrow> server_to_agent \<Rightarrow> hub \<Rightarrow> bool \<times> hub" where
  "sendToOwnedLocalAgent_finish deviceId connection touched message h =
     (if hub_distributed h \<and> \<not> touched then
        (False, close_socket (ac_socket connection) 4001 ''replaced by a newer connection''
                  (h\<lparr>hub_agents := AList.delete deviceId (hub_agents h)\<rparr>))
      else send (ac_socket connection) (ToAgent message) h)"

text \<open>
  A promise is settled once: \<open>resolve_ack\<close> drops the pending entry and keeps the first outcome.
\<close>

definition resolve_ack :: "ident \<Rightarrow> bool \<Rightarrow> hub \<Rightarrow> hub" where
  "resolve_ack corr sent h =
     h\<lparr>hub_pendingAcks := removeAll corr (hub_pendingAcks h),
       hub_ackResults := (if map_of (hub_ackResults h) corr = None
                          then (corr, sent) # hub_ackResults h else hub_ackResults h)\<rparr>"

text \<open>The timer of \<open>sendToRemoteAgent\<close>.\<close>

definition ack_timeout :: "ident \<Rightarrow> hub \<Rightarrow> hub" where
  "ack_timeout corr h = (if corr \<in> set (hub_pendingAcks h) then resolve_ack corr False h else h)"

definition sendToRemoteAgent_begin :: "ident \<Rightarrow> hub \<Rightarrow> hub" where
  "sendToRemoteAgent_begin corr h = h\<lparr>hub_pendingAcks := hub_pendingAcks h @ [corr]\<rparr>"

definition sendToRemoteAgent_publish ::
  "ident \<Rightarrow> agent_owner \<Rightarrow> server_to_agent \<Rightarrow> ident \<Rightarrow> ms \<Rightarrow> ident \<Rightarrow> bool \<Rightarrow> hub \<Rightarrow> hub" where
  "sendToRemoteAgent_publish deviceId owner message corr now uuid accepted h =
     (case publishBestEffort accepted
        (envelopeBase h uuid now (Some (ow_instanceId owner)) (hub_requestTimeoutMs h),
         AgentSend corr deviceId (ow_connectionId owner) message) h of
        (published, h') \<Rightarrow> if published then h' else resolve_ack corr False h')"

text \<open>
  \<open>sendToAgent\<close> with Redis, as a machine that advances at each reply. The number in a state is the
  attempt; a reply that does not belong to the state leaves it, but for a thrown error, which
  the outer \<open>catch\<close> turns into \<open>false\<close>.
\<close>

datatype send_state =
    ReadOwner
  | Touching agent_owner nat agent_connection
  | Publishing agent_owner nat ident
  | AwaitingAck agent_owner nat ident
  | ReadNext agent_owner nat
  | SendDone bool

datatype redis_reply =
    OwnerReply "agent_owner option"
  | TouchReply bool
  | PublishReply bool
  | AckSettled
  | CommandThrew

definition send_attempt :: "ident \<Rightarrow> ident \<Rightarrow> agent_owner \<Rightarrow> nat \<Rightarrow> hub \<Rightarrow> send_state \<times> hub" where
  "send_attempt deviceId corr owner attempt h =
     (if attempt \<ge> 2 then (SendDone False, h)
      else if ow_instanceId owner = hub_instanceId h then
        (case sendToOwnedLocalAgent_begin deviceId (ow_connectionId owner) h of
           None \<Rightarrow> (ReadNext owner attempt, h)
         | Some c \<Rightarrow> (Touching owner attempt c, h))
      else (Publishing owner attempt corr, sendToRemoteAgent_begin corr h))"

fun sendToAgent_step ::
  "ident \<Rightarrow> server_to_agent \<Rightarrow> ident \<Rightarrow> ms \<Rightarrow> ident \<Rightarrow> redis_reply \<Rightarrow> send_state \<times> hub \<Rightarrow> send_state \<times> hub" where
  "sendToAgent_step deviceId message corr now uuid (OwnerReply owner) (ReadOwner, h) =
     (case owner of None \<Rightarrow> (SendDone False, h) | Some ow \<Rightarrow> send_attempt deviceId corr ow 0 h)"
| "sendToAgent_step deviceId message corr now uuid (TouchReply touched) (Touching ow n c, h) =
     (case sendToOwnedLocalAgent_finish deviceId c touched message h of
        (sent, h') \<Rightarrow> (if sent then SendDone True else ReadNext ow n, h'))"
| "sendToAgent_step deviceId message corr now uuid (PublishReply accepted) (Publishing ow n k, h) =
     (AwaitingAck ow n k, sendToRemoteAgent_publish deviceId ow message k now uuid accepted h)"
| "sendToAgent_step deviceId message corr now uuid AckSettled (AwaitingAck ow n k, h) =
     (case map_of (hub_ackResults h) k of
        None \<Rightarrow> (AwaitingAck ow n k, h)
      | Some sent \<Rightarrow> (if sent then SendDone True else ReadNext ow n, h))"
| "sendToAgent_step deviceId message corr now uuid (OwnerReply nextOwner) (ReadNext ow n, h) =
     (case nextOwner of
        None \<Rightarrow> (SendDone False, h)
      | Some next \<Rightarrow>
          if ow_instanceId next = ow_instanceId ow \<and> ow_connectionId next = ow_connectionId ow
          then (SendDone False, h)
          else send_attempt deviceId corr next (Suc n) h)"
| "sendToAgent_step deviceId message corr now uuid CommandThrew (ReadOwner, h) = (SendDone False, h)"
| "sendToAgent_step deviceId message corr now uuid CommandThrew (ReadNext ow n, h) = (SendDone False, h)"
| "sendToAgent_step deviceId message corr now uuid r s = s"

subsection \<open>Messages from other instances\<close>

text \<open>
  \<open>handleRelayMessage\<close> on a parsed envelope. An \<open>agent.send\<close> for a connection held here awaits the
  touch of its presence: the first component says with what it resumes.
\<close>

datatype relay_resume = RelayResume ident agent_connection server_to_agent ident ident

definition relay_ack ::
  "ident \<Rightarrow> ident \<Rightarrow> bool \<Rightarrow> ms \<Rightarrow> ident \<Rightarrow> bool \<Rightarrow> hub \<Rightarrow> hub" where
  "relay_ack source corr sent now uuid accepted h =
     snd (publishBestEffort accepted
       (envelopeBase h uuid now (Some source) 5000, RelayAck corr sent) h)"

fun is_relay_ack :: "envelope_body \<Rightarrow> bool" where
  "is_relay_ack (RelayAck corr sent) = True"
| "is_relay_ack _ = False"

definition relay_ignored :: "envelope \<Rightarrow> ms \<Rightarrow> hub \<Rightarrow> bool" where
  "relay_ignored e now h \<longleftrightarrow>
     hub_shuttingDown h \<or> env_expiresAt (fst e) \<le> now \<or>
     (env_target (fst e) \<noteq> None \<and> env_target (fst e) \<noteq> Some (hub_instanceId h)) \<or>
     (env_source (fst e) = hub_instanceId h \<and> \<not> is_relay_ack (snd e))"

definition handleRelayMessage ::
  "(ident \<Rightarrow> validation_result \<Rightarrow> 'b \<Rightarrow> bool option \<times> 'b) list \<Rightarrow> (ident \<Rightarrow> 'b \<Rightarrow> 'b) list \<Rightarrow>
   envelope \<Rightarrow> ms \<Rightarrow> ident \<Rightarrow> bool \<Rightarrow> 'b \<times> hub \<Rightarrow> relay_resume option \<times> 'b \<times> hub" where
  "handleRelayMessage results cancels e now uuid accepted s =
     (case s of (b, h) \<Rightarrow>
        if relay_ignored e now h then (None, b, h)
        else (case snd e of
          AgentSend corr deviceId expected message \<Rightarrow>
            (case sendToOwnedLocalAgent_begin deviceId expected h of
               None \<Rightarrow> (None, b, relay_ack (env_source (fst e)) corr False now uuid accepted h)
             | Some c \<Rightarrow> (Some (RelayResume deviceId c message corr (env_source (fst e))), b, h))
        | AgentClose deviceId expected code reason \<Rightarrow>
            (case agent_of deviceId h of
               None \<Rightarrow> (None, b, h)
             | Some c \<Rightarrow>
                 (None, b, if ow_connectionId (ac_owner c) = expected
                           then close_socket (ac_socket c) code (take CLOSE_REASON_MAX_BYTES reason) h else h))
        | RelayAck corr sent \<Rightarrow>
            (None, b, if corr \<in> set (hub_pendingAcks h) then resolve_ack corr sent h else h)
        | ClientJob userId jobId message \<Rightarrow> (None, b, broadcastJobLocally userId jobId message h)
        | ClientDevice userId message \<Rightarrow> (None, b, broadcastDeviceLocally userId message h)
        | ValidationResultEnv deviceId result \<Rightarrow> (None, snd (emitValidationResult results deviceId result b), h)
        | ValidationCancelEnv deviceId \<Rightarrow> (None, emitValidationCancel cancels deviceId b, h)))"

fun handleRelay_resume :: "relay_resume \<Rightarrow> bool \<Rightarrow> ms \<Rightarrow> ident \<Rightarrow> bool \<Rightarrow> hub \<Rightarrow> hub" where
  "handleRelay_resume (RelayResume deviceId c message corr source) touched now uuid accepted h =
     (case sendToOwnedLocalAgent_finish deviceId c touched message h of
        (sent, h') \<Rightarrow> relay_ack source corr sent now uuid accepted h')"

subsection \<open>Shutdown\<close>

definition resolve_all :: "hub \<Rightarrow> hub" where
  "resolve_all h = fold (\<lambda>corr. resolve_ack corr False) (hub_pendingAcks h) h"

definition shutdown_begin :: "hub \<Rightarrow> (ident \<times> agent_owner) list \<times> hub" where
  "shutdown_begin h =
     (map (\<lambda>(i, c). (ac_deviceId c, ac_owner c)) (hub_agents h),
      (resolve_all (h\<lparr>hub_shuttingDown := True\<rparr>))\<lparr>hub_pendingAcks := []\<rparr>)"

definition close_all :: "sock list \<Rightarrow> int \<Rightarrow> string \<Rightarrow> hub \<Rightarrow> hub" where
  "close_all ss code reason h = fold (\<lambda>s. close_socket s code reason) ss h"

definition shutdown_finish :: "hub \<Rightarrow> hub" where
  "shutdown_finish h =
     (close_all (map fst (hub_clients h)) 1001 ''server shutdown''
       (close_all (map (\<lambda>(i, c). ac_socket c) (hub_agents h)) 1001 ''server shutdown'' h))
     \<lparr>hub_agents := [], hub_clients := []\<rparr>"

subsection \<open>Fan-out, viewer by viewer\<close>

lemma send_on_frame [simp]: "s' \<noteq> s \<Longrightarrow> snd (send_on s m socks) s' = socks s'"
  by (simp add: send_on_def)

lemma close_on_frame [simp]: "s' \<noteq> s \<Longrightarrow> close_on s code reason socks s' = socks s'"
  by (simp add: close_on_def)

lemma deliver_job_frame: "s' \<noteq> s \<Longrightarrow> snd (deliver_job u j m s c socks) s' = socks s'"
  by (auto simp: deliver_job_def split: option.splits)

lemma deliver_job_local:
  assumes "socks s = socks' s"
  shows "fst (deliver_job u j m s c socks) = fst (deliver_job u j m s c socks')"
    and "snd (deliver_job u j m s c socks) s = snd (deliver_job u j m s c socks') s"
  using assms by (auto simp: deliver_job_def send_on_def close_on_def split: option.splits)

lemma deliver_job_all_keys [simp]:
  "map fst (fst (deliver_job_all u j m clients socks)) = map fst clients"
  by (induction u j m clients socks rule: deliver_job_all.induct) (auto split: prod.splits)

lemma deliver_job_all_other:
  "s \<notin> fst ` set clients \<Longrightarrow> snd (deliver_job_all u j m clients socks) s = socks s"
proof (induction clients arbitrary: socks)
  case (Cons p clients)
  then show ?case
    using deliver_job_frame [of s "fst p" u j m "snd p" socks]
    by (cases p) (auto split: prod.splits, metis snd_conv)
qed simp

lemma deliver_job_all_lookup:
  assumes "distinct (map fst clients)" and "map_of clients s = Some c"
  shows "map_of (fst (deliver_job_all u j m clients socks)) s = Some (fst (deliver_job u j m s c socks)) \<and>
    snd (deliver_job_all u j m clients socks) s = snd (deliver_job u j m s c socks) s"
  using assms
proof (induction clients arbitrary: socks)
  case (Cons p clients)
  obtain k d where p: "p = (k, d)" by force
  obtain d' socks' where d: "deliver_job u j m k d socks = (d', socks')" by force
  obtain clients' socks'' where r: "deliver_job_all u j m clients socks' = (clients', socks'')" by force
  show ?case
  proof (cases "k = s")
    case True
    with Cons.prems p have "c = d" and "s \<notin> fst ` set clients" by auto
    with True p d r deliver_job_all_other [of s clients u j m socks'] show ?thesis by simp
  next
    case False
    with Cons.prems p have "distinct (map fst clients)" and "map_of clients s = Some c" by auto
    with Cons.IH [of socks'] have "map_of clients' s = Some (fst (deliver_job u j m s c socks'))"
      "socks'' s = snd (deliver_job u j m s c socks') s"
      by (simp_all add: r)
    moreover have "socks' s = socks s"
      using deliver_job_frame [of s k u j m d socks] False d by simp
    ultimately show ?thesis
      using deliver_job_local [of socks' s socks u j m c] False p d r by simp
  qed
qed simp

lemma broadcast_client:
  assumes "distinct (map fst (hub_clients h))" and "map_of (hub_clients h) s = Some c"
  shows "map_of (hub_clients (broadcastJobLocally u j m h)) s = Some (fst (deliver_job u j m s c (hub_sockets h)))"
    and "hub_sockets (broadcastJobLocally u j m h) s = snd (deliver_job u j m s c (hub_sockets h)) s"
  using deliver_job_all_lookup [OF assms, of u j m "hub_sockets h"]
  by (auto simp: broadcastJobLocally_def split: prod.splits)

lemma broadcast_no_client:
  assumes "map_of (hub_clients h) s = None"
  shows "hub_sockets (broadcastJobLocally u j m h) s = hub_sockets h s"
  using assms deliver_job_all_other [of s "hub_clients h" u j m "hub_sockets h"]
  by (auto simp: broadcastJobLocally_def map_of_eq_None_iff split: prod.splits)

lemma broadcast_frame [simp]:
  "hub_agents (broadcastJobLocally u j m h) = hub_agents h"
  "hub_instanceId (broadcastJobLocally u j m h) = hub_instanceId h"
  "hub_distributed (broadcastJobLocally u j m h) = hub_distributed h"
  "map fst (hub_clients (broadcastJobLocally u j m h)) = map fst (hub_clients h)"
  using deliver_job_all_keys [of u j m "hub_clients h" "hub_sockets h"]
  by (auto simp: broadcastJobLocally_def split: prod.splits simp del: deliver_job_all_keys)

lemma deliver_device_other:
  "s \<notin> fst ` set clients \<Longrightarrow> deliver_device_all u m clients socks s = socks s"
  by (induction u m clients socks rule: deliver_device_all.induct) auto

lemma deliver_device_lookup:
  assumes "distinct (map fst clients)"
  shows "deliver_device_all u m clients socks s =
    (case map_of clients s of
       None \<Rightarrow> socks s
     | Some c \<Rightarrow> if cc_userId c = u then snd (send_on s (ToClient m) socks) s else socks s)"
  using assms
proof (induction clients arbitrary: socks)
  case (Cons p clients)
  obtain k d where p: "p = (k, d)" by force
  show ?case
  proof (cases "k = s")
    case True
    with Cons.prems p have "s \<notin> fst ` set clients" by auto
    with True p show ?thesis by (simp add: deliver_device_other)
  next
    case False
    with Cons p show ?thesis
      by (simp add: send_on_def split: option.split)
  qed
qed simp

lemma unsubscribed_unchanged:
  assumes "distinct (map fst (hub_clients h))"
    and "\<forall>c. map_of (hub_clients h) s = Some c \<longrightarrow> cc_userId c \<noteq> u \<or> map_of (cc_subscriptions c) j = None"
  shows "hub_sockets (broadcastJobLocally u j m h) s = hub_sockets h s"
proof (cases "map_of (hub_clients h) s")
  case None
  then show ?thesis by (rule broadcast_no_client)
next
  case (Some c)
  with assms(2) have "deliver_job u j m s c (hub_sockets h) = (c, hub_sockets h)"
    by (auto simp: deliver_job_def)
  with broadcast_client(2) [OF assms(1) Some, of u j m] show ?thesis by simp
qed

subsection \<open>Runs of one instance\<close>

text \<open>
  The operations of the hub as the server calls them on an instance without Redis, and what the
  network does to a socket: it closes, or its send buffer fills and drains.
\<close>

datatype hub_event =
    AttachAgent ident ident sock ident ms
  | DetachAgent ident sock
  | HeartbeatFrom ident sock ms
  | SendToAgent ident server_to_agent
  | CloseDevice ident string
  | AttachClient ident sock
  | DetachClient sock
  | BeginSubscription sock ident
  | FinishSubscription sock ident
  | Unsubscribe sock ident
  | BroadcastJob ident ident server_to_client
  | BroadcastDevice ident server_to_client
  | NetworkClosed sock
  | NetworkBuffer sock int

fun hub_step :: "hub_event \<Rightarrow> hub \<Rightarrow> hub" where
  "hub_step (AttachAgent d u s conn now) h = attachAgent d u s conn now h"
| "hub_step (DetachAgent d s) h = snd (detachAgent d s h)"
| "hub_step (HeartbeatFrom d s now) h = snd (heartbeat d s now h)"
| "hub_step (SendToAgent d m) h = snd (sendToLocalAgent d None m h)"
| "hub_step (CloseDevice d reason) h = closeDevice d reason h"
| "hub_step (AttachClient u s) h = attachClient u s h"
| "hub_step (DetachClient s) h = detachClient s h"
| "hub_step (BeginSubscription s j) h = beginSubscription s j h"
| "hub_step (FinishSubscription s j) h = finishSubscription s j h"
| "hub_step (Unsubscribe s j) h = unsubscribe s j h"
| "hub_step (BroadcastJob u j m) h = broadcastJobLocally u j m h"
| "hub_step (BroadcastDevice u m) h = broadcastDeviceLocally u m h"
| "hub_step (NetworkClosed s) h = h\<lparr>hub_sockets := (hub_sockets h)(s := (hub_sockets h s)\<lparr>sk_readyState := 3\<rparr>)\<rparr>"
| "hub_step (NetworkBuffer s n) h = h\<lparr>hub_sockets := (hub_sockets h)(s := (hub_sockets h s)\<lparr>sk_bufferedAmount := n\<rparr>)\<rparr>"

definition hub_run :: "hub_event list \<Rightarrow> hub \<Rightarrow> hub" where
  "hub_run evs h = fold hub_step evs h"

lemma hub_run_simps [simp]:
  "hub_run [] h = h" "hub_run (ev # evs) h = hub_run evs (hub_step ev h)"
  "hub_run (evs @ evs') h = hub_run evs' (hub_run evs h)"
  by (simp_all add: hub_run_def)

subsection \<open>The shape of the hub\<close>

text \<open>
  Keys of the maps are unique, an agent entry carries its key and this instance as owner, and a
  subscription holds at most 1000 messages back, none unless it is replaying.
\<close>

definition sub_ok :: "subscription \<Rightarrow> bool" where
  "sub_ok sub \<longleftrightarrow> length (sub_queuedMessages sub) \<le> 1000 \<and>
     (sub_replaying sub \<or> sub_queuedMessages sub = [])"

definition client_ok :: "client_connection \<Rightarrow> bool" where
  "client_ok c \<longleftrightarrow> distinct (map fst (cc_subscriptions c)) \<and>
     (\<forall>j sub. map_of (cc_subscriptions c) j = Some sub \<longrightarrow> sub_ok sub)"

definition hub_ok :: "hub \<Rightarrow> bool" where
  "hub_ok h \<longleftrightarrow>
     distinct (map fst (hub_agents h)) \<and> distinct (map fst (hub_clients h)) \<and>
     (\<forall>d c. map_of (hub_agents h) d = Some c \<longrightarrow>
        ac_deviceId c = d \<and> ow_instanceId (ac_owner c) = hub_instanceId h) \<and>
     (\<forall>s c. map_of (hub_clients h) s = Some c \<longrightarrow> client_ok c)"

lemma hub_ok_sockets [simp]: "hub_ok (h\<lparr>hub_sockets := socks\<rparr>) = hub_ok h"
  by (simp add: hub_ok_def)

lemma send_ok [simp]: "hub_ok (snd (send s m h)) = hub_ok h"
  by (simp add: send_def split: prod.split)

lemma send_fields [simp]:
  "hub_agents (snd (send s m h)) = hub_agents h" "hub_clients (snd (send s m h)) = hub_clients h"
  "hub_instanceId (snd (send s m h)) = hub_instanceId h"
  "hub_distributed (snd (send s m h)) = hub_distributed h"
  "hub_sockets (snd (send s m h)) = snd (send_on s m (hub_sockets h))"
  by (simp_all add: send_def split: prod.split)

lemma close_socket_fields [simp]:
  "hub_agents (close_socket s c r h) = hub_agents h" "hub_clients (close_socket s c r h) = hub_clients h"
  "hub_instanceId (close_socket s c r h) = hub_instanceId h"
  "hub_distributed (close_socket s c r h) = hub_distributed h"
  "hub_sockets (close_socket s c r h) = close_on s c r (hub_sockets h)"
  "hub_ok (close_socket s c r h) = hub_ok h"
  by (simp_all add: close_socket_def)

lemma send_each_fields [simp]:
  "hub_agents (send_each s ms h) = hub_agents h" "hub_clients (send_each s ms h) = hub_clients h"
  "hub_instanceId (send_each s ms h) = hub_instanceId h"
  "hub_ok (send_each s ms h) = hub_ok h"
  by (induction s ms h rule: send_each.induct) simp_all

lemma hub_ok_agents:
  assumes "hub_ok h" and "distinct (map fst al)"
    and "\<And>d c. map_of al d = Some c \<Longrightarrow> ac_deviceId c = d \<and> ow_instanceId (ac_owner c) = hub_instanceId h"
  shows "hub_ok (h\<lparr>hub_agents := al\<rparr>)"
  using assms by (simp add: hub_ok_def)

lemma hub_ok_clients:
  assumes "hub_ok h" and "distinct (map fst al)" and "\<And>s c. map_of al s = Some c \<Longrightarrow> client_ok c"
  shows "hub_ok (h\<lparr>hub_clients := al\<rparr>)"
  using assms by (simp add: hub_ok_def)

lemma hub_ok_delete_agent: "hub_ok h \<Longrightarrow> hub_ok (h\<lparr>hub_agents := AList.delete d (hub_agents h)\<rparr>)"
  by (rule hub_ok_agents) (auto simp: hub_ok_def distinct_keys_delete split: if_splits)

lemma hub_ok_update_agent:
  "hub_ok h \<Longrightarrow> ac_deviceId c = d \<Longrightarrow> ow_instanceId (ac_owner c) = hub_instanceId h \<Longrightarrow>
   hub_ok (h\<lparr>hub_agents := AList.update d c (hub_agents h)\<rparr>)"
  by (rule hub_ok_agents) (auto simp: hub_ok_def distinct_keys_update split: if_splits)

lemma hub_ok_update_client:
  "hub_ok h \<Longrightarrow> client_ok c \<Longrightarrow> hub_ok (h\<lparr>hub_clients := AList.update s c (hub_clients h)\<rparr>)"
  by (rule hub_ok_clients) (auto simp: hub_ok_def distinct_keys_update split: if_splits)

lemma hub_ok_delete_client: "hub_ok h \<Longrightarrow> hub_ok (h\<lparr>hub_clients := AList.delete s (hub_clients h)\<rparr>)"
  by (rule hub_ok_clients) (auto simp: hub_ok_def distinct_keys_delete split: if_splits)

lemma client_ok_update:
  "client_ok c \<Longrightarrow> sub_ok sub \<Longrightarrow> client_ok (c\<lparr>cc_subscriptions := AList.update j sub (cc_subscriptions c)\<rparr>)"
  by (auto simp: client_ok_def distinct_keys_update)

lemma client_ok_delete:
  "client_ok c \<Longrightarrow> client_ok (c\<lparr>cc_subscriptions := AList.delete j (cc_subscriptions c)\<rparr>)"
  by (auto simp: client_ok_def distinct_keys_delete)

lemma hub_ok_client: "hub_ok h \<Longrightarrow> map_of (hub_clients h) s = Some c \<Longrightarrow> client_ok c"
  by (simp add: hub_ok_def)

lemma hub_ok_set_subscription: "hub_ok h \<Longrightarrow> sub_ok sub \<Longrightarrow> hub_ok (set_subscription s j sub h)"
  by (auto simp: set_subscription_def split: option.split
      intro!: hub_ok_update_client client_ok_update dest: hub_ok_client)

lemma deliver_job_ok: "client_ok c \<Longrightarrow> client_ok (fst (deliver_job u j m s c socks))"
  by (auto simp: deliver_job_def split: option.split intro!: client_ok_update)
    (auto simp: client_ok_def sub_ok_def)

lemma hub_ok_broadcast:
  assumes "hub_ok h"
  shows "hub_ok (broadcastJobLocally u j m h)"
proof -
  have d: "distinct (map fst (hub_clients h))"
    using assms by (simp add: hub_ok_def)
  have "client_ok c'" if c': "map_of (hub_clients (broadcastJobLocally u j m h)) s = Some c'" for s c'
  proof (cases "map_of (hub_clients h) s")
    case None
    then have "map_of (hub_clients (broadcastJobLocally u j m h)) s = None"
      by (metis broadcast_frame(4) map_of_eq_None_iff set_map)
    with c' show ?thesis by simp
  next
    case (Some c)
    with broadcast_client(1) [OF d Some, of u j m] c' assms show ?thesis
      by (auto simp: hub_ok_def intro: deliver_job_ok)
  qed
  with assms d show ?thesis
    by (simp add: hub_ok_def)
qed

lemma hub_ok_step: "hub_ok h \<Longrightarrow> hub_ok (hub_step ev h)"
proof (cases ev)
  case (AttachAgent d u s conn now)
  assume "hub_ok h"
  then show ?thesis
    by (auto simp: AttachAgent attachAgent_def attachAgent_begin_def attachAgent_finish_def Let_def
        intro!: hub_ok_update_agent split: option.split)
next
  case (DetachAgent d s)
  assume "hub_ok h"
  then show ?thesis
    by (auto simp: DetachAgent detachAgent_def detachAgent_finish_def
        intro: hub_ok_delete_agent split: option.split)
next
  case (HeartbeatFrom d s now)
  assume "hub_ok h"
  then show ?thesis
    by (auto simp: HeartbeatFrom heartbeat_def heartbeat_finish_def touch_heartbeat_def agent_of_def
        intro!: hub_ok_update_agent hub_ok_delete_agent split: option.split) (auto simp: hub_ok_def)
next
  case (Unsubscribe s j)
  assume "hub_ok h"
  then show ?thesis
    by (auto simp: Unsubscribe unsubscribe_def
        intro!: hub_ok_update_client client_ok_delete split: option.split dest: hub_ok_client)
qed (auto simp: sendToLocalAgent_def closeDevice_def attachClient_def detachClient_def
    beginSubscription_def finishSubscription_def broadcastDeviceLocally_def sub_ok_def
    intro!: hub_ok_update_client hub_ok_delete_client hub_ok_set_subscription hub_ok_broadcast
    split: option.split, simp_all add: client_ok_def)

lemma hub_ok_run: "hub_ok h \<Longrightarrow> hub_ok (hub_run evs h)"
  by (induction evs arbitrary: h) (auto intro: hub_ok_step)

subsection \<open>What a viewer gets\<close>

definition fresh_hub :: "ident \<Rightarrow> (sock \<Rightarrow> socket) \<Rightarrow> hub" where
  "fresh_hub i socks = \<lparr>hub_instanceId = i, hub_distributed = False, hub_requestTimeoutMs = 2000,
     hub_agents = [], hub_clients = [], hub_pendingAcks = [], hub_ackResults = [], hub_sockets = socks,
     hub_published = [], hub_shuttingDown = False\<rparr>"

lemma fresh_hub_ok: "hub_ok (fresh_hub i socks)"
  by (simp add: fresh_hub_def hub_ok_def)

text \<open>The job a message is about, and the messages about a job a socket was given, in order.\<close>

fun message_job :: "server_to_client \<Rightarrow> ident option" where
  "message_job (ClientDeviceStatus d st seen) = None"
| "message_job (ClientJobStatus j st code) = Some j"
| "message_job (ClientJobOutput j c) = Some j"
| "message_job (ClientJobCompleted j code) = Some j"
| "message_job (ClientJobFailed j err code) = Some j"

fun frame_of_job :: "ident \<Rightarrow> frame \<Rightarrow> server_to_client list" where
  "frame_of_job j (ToAgent m) = []"
| "frame_of_job j (ToClient m) = (if message_job m = Some j then [m] else [])"

definition job_frames :: "ident \<Rightarrow> socket \<Rightarrow> server_to_client list" where
  "job_frames j sk = concat (map (frame_of_job j) (sk_sent sk))"

text \<open>What a viewer has been given of a job or will be given when its replay ends.\<close>

definition viewer_stream :: "sock \<Rightarrow> ident \<Rightarrow> hub \<Rightarrow> server_to_client list" where
  "viewer_stream s j h = job_frames j (hub_sockets h s) @
     (case subscription_of s j h of None \<Rightarrow> [] | Some sub \<Rightarrow> sub_queuedMessages sub)"

text \<open>The broadcasts of a run for a user's job.\<close>

fun broadcast_of :: "ident \<Rightarrow> ident \<Rightarrow> hub_event \<Rightarrow> server_to_client list" where
  "broadcast_of u j (BroadcastJob u' j' m) = (if u' = u \<and> j' = j then [m] else [])"
| "broadcast_of u j ev = []"

text \<open>
  The events of the run of one subscription: none that replaces or ends it, and messages broadcast
  for a job are about it.
\<close>

fun keeps_subscription :: "sock \<Rightarrow> ident \<Rightarrow> hub_event \<Rightarrow> bool" where
  "keeps_subscription s j (AttachClient u s') = (s' \<noteq> s)"
| "keeps_subscription s j (DetachClient s') = (s' \<noteq> s)"
| "keeps_subscription s j (BeginSubscription s' j') = (s' \<noteq> s \<or> j' \<noteq> j)"
| "keeps_subscription s j (Unsubscribe s' j') = (s' \<noteq> s \<or> j' \<noteq> j)"
| "keeps_subscription s j (BroadcastJob u' j' m) = (message_job m = Some j')"
| "keeps_subscription s j (BroadcastDevice u' m) = (message_job m = None)"
| "keeps_subscription s j ev = True"

lemma job_frames_send_on:
  "job_frames j (snd (send_on s m socks) s') =
     job_frames j (socks s') @
     (if s' = s \<and> sk_readyState (socks s) = OPEN_STATE then frame_of_job j m else [])"
  by (auto simp: job_frames_def send_on_def)

lemma job_frames_close_on [simp]: "job_frames j (close_on s code reason socks s') = job_frames j (socks s')"
  by (auto simp: job_frames_def close_on_def)

lemma readyState_send_on [simp]: "sk_readyState (snd (send_on s m socks) s') = sk_readyState (socks s')"
  by (auto simp: send_on_def)

lemma readyState_close_on:
  "sk_readyState (close_on s code reason socks s') = OPEN_STATE \<longleftrightarrow>
     s' \<noteq> s \<and> sk_readyState (socks s') = OPEN_STATE"
  by (auto simp: close_on_def OPEN_STATE_def)

lemma closed_not_open [simp]: "3 \<noteq> OPEN_STATE"
  by (simp add: OPEN_STATE_def)

lemma send_each_socket:
  "sk_readyState (hub_sockets h s) = OPEN_STATE \<Longrightarrow>
   job_frames j (hub_sockets (send_each s ms h) s) =
     job_frames j (hub_sockets h s) @ concat (map (\<lambda>m. frame_of_job j (ToClient m)) ms)"
  by (induction s ms h rule: send_each.induct) (simp_all add: job_frames_send_on)

lemma send_each_other: "s' \<noteq> s \<Longrightarrow> hub_sockets (send_each s ms h) s' = hub_sockets h s'"
  by (induction s ms h rule: send_each.induct) simp_all

lemma send_each_ready: "sk_readyState (hub_sockets (send_each s ms h) s') = sk_readyState (hub_sockets h s')"
  by (induction s ms h rule: send_each.induct) simp_all

lemma subscription_of_clients: "hub_clients h = hub_clients h' \<Longrightarrow> subscription_of s j h = subscription_of s j h'"
  by (simp add: subscription_of_def)

lemma subscription_set:
  "subscription_of s j (set_subscription s' j' sub h) =
     (if s' = s \<and> j' = j \<and> map_of (hub_clients h) s \<noteq> None then Some sub else subscription_of s j h)"
  by (auto simp: subscription_of_def set_subscription_def split: option.splits)

lemma set_subscription_fields [simp]:
  "hub_sockets (set_subscription s j sub h) = hub_sockets h"
  "hub_agents (set_subscription s j sub h) = hub_agents h"
  "hub_instanceId (set_subscription s j sub h) = hub_instanceId h"
  by (simp_all add: set_subscription_def split: option.split)

text \<open>A socket that is open after a step was open before it.\<close>

lemma open_before_deliver:
  "sk_readyState (snd (deliver_job u j m s c socks) s) = OPEN_STATE \<Longrightarrow> sk_readyState (socks s) = OPEN_STATE"
  by (auto simp: deliver_job_def readyState_close_on split: option.splits if_splits)

lemma open_before_step:
  assumes "hub_ok h" and "sk_readyState (hub_sockets (hub_step ev h) s) = OPEN_STATE"
  shows "sk_readyState (hub_sockets h s) = OPEN_STATE"
proof -
  have d: "distinct (map fst (hub_clients h))" using assms(1) by (simp add: hub_ok_def)
  show ?thesis
  proof (cases ev)
    case (BroadcastJob u j m)
    show ?thesis
    proof (cases "map_of (hub_clients h) s")
      case None
      with assms(2) BroadcastJob show ?thesis by (simp add: broadcast_no_client)
    next
      case (Some c)
      with assms(2) BroadcastJob broadcast_client(2) [OF d Some] show ?thesis
        by (auto intro: open_before_deliver)
    qed
  next
    case (BroadcastDevice u m)
    with assms(2) show ?thesis
      by (simp add: broadcastDeviceLocally_def deliver_device_lookup [OF d] split: option.splits if_splits)
  qed (use assms(2) in \<open>auto simp: attachAgent_def attachAgent_begin_def attachAgent_finish_def detachAgent_def
      detachAgent_finish_def heartbeat_def heartbeat_finish_def touch_heartbeat_def sendToLocalAgent_def
      closeDevice_def attachClient_def detachClient_def beginSubscription_def finishSubscription_def
      unsubscribe_def readyState_close_on send_each_ready Let_def split: option.splits if_splits\<close>)
qed

definition viewer_of :: "ident \<Rightarrow> sock \<Rightarrow> ident \<Rightarrow> hub \<Rightarrow> bool" where
  "viewer_of u s j h \<longleftrightarrow>
     map_option cc_userId (map_of (hub_clients h) s) = Some u \<and> subscription_of s j h \<noteq> None"

text \<open>Messages held back for a job are about that job.\<close>

definition queues_typed :: "hub \<Rightarrow> bool" where
  "queues_typed h \<longleftrightarrow>
     (\<forall>s j sub. subscription_of s j h = Some sub \<longrightarrow> (\<forall>m \<in> set (sub_queuedMessages sub). message_job m = Some j))"

fun typed_event :: "hub_event \<Rightarrow> bool" where
  "typed_event (BroadcastJob u j m) = (message_job m = Some j)"
| "typed_event (BroadcastDevice u m) = (message_job m = None)"
| "typed_event ev = True"

lemma keeps_typed: "keeps_subscription s j ev \<Longrightarrow> typed_event ev"
  by (cases ev) auto

lemma subscription_attachClient:
  "subscription_of s j (attachClient u s' h) = (if s' = s then None else subscription_of s j h)"
  by (simp add: subscription_of_def attachClient_def)

lemma subscription_detachClient:
  "subscription_of s j (detachClient s' h) = (if s' = s then None else subscription_of s j h)"
  by (simp add: subscription_of_def detachClient_def)

lemma subscription_unsubscribe:
  "subscription_of s j (unsubscribe s' j' h) = (if s' = s \<and> j' = j then None else subscription_of s j h)"
  by (auto simp: subscription_of_def unsubscribe_def split: option.splits)

lemma subscription_begin:
  "subscription_of s j (beginSubscription s' j' h) =
     (if s' = s \<and> j' = j \<and> map_of (hub_clients h) s \<noteq> None
      then Some \<lparr>sub_replaying = True, sub_queuedMessages = []\<rparr> else subscription_of s j h)"
  by (simp add: beginSubscription_def subscription_set)

lemma subscription_send_each [simp]: "subscription_of s j (send_each s' ms h) = subscription_of s j h"
  by (rule subscription_of_clients) simp

lemma subscription_finish:
  "subscription_of s j (finishSubscription s' j' h) =
     (if s' = s \<and> j' = j then map_option (\<lambda>sub. \<lparr>sub_replaying = False, sub_queuedMessages = []\<rparr>) (subscription_of s j h)
      else subscription_of s j h)"
  by (auto simp: finishSubscription_def subscription_set split: option.splits)
    (auto simp: subscription_of_def)

lemma subscription_broadcast:
  assumes "distinct (map fst (hub_clients h))"
  shows "subscription_of s j (broadcastJobLocally u' j' m h) =
    (case map_of (hub_clients h) s of
       None \<Rightarrow> None
     | Some c \<Rightarrow> map_of (cc_subscriptions (fst (deliver_job u' j' m s c (hub_sockets h)))) j)"
proof (cases "map_of (hub_clients h) s")
  case None
  then have "map_of (hub_clients (broadcastJobLocally u' j' m h)) s = None"
    by (metis broadcast_frame(4) map_of_eq_None_iff set_map)
  with None show ?thesis by (simp add: subscription_of_def)
next
  case (Some c)
  with broadcast_client(1) [OF assms Some, of u' j' m] show ?thesis by (simp add: subscription_of_def)
qed

lemma clients_unchanged:
  "hub_clients (attachAgent d u s conn now h) = hub_clients h"
  "hub_clients (snd (detachAgent d s h)) = hub_clients h"
  "hub_clients (snd (heartbeat d s now h)) = hub_clients h"
  "hub_clients (snd (sendToLocalAgent d k m h)) = hub_clients h"
  "hub_clients (closeDevice d reason h) = hub_clients h"
  "hub_clients (broadcastDeviceLocally u m' h) = hub_clients h"
  by (auto simp: attachAgent_def attachAgent_begin_def attachAgent_finish_def detachAgent_def
      detachAgent_finish_def heartbeat_def heartbeat_finish_def touch_heartbeat_def sendToLocalAgent_def
      closeDevice_def broadcastDeviceLocally_def Let_def split: option.split)

lemmas subscription_ops = subscription_attachClient subscription_detachClient subscription_unsubscribe
  subscription_begin subscription_finish

lemma queues_typed_broadcast:
  assumes "hub_ok h" and "queues_typed h" and "message_job m = Some j'"
  shows "queues_typed (broadcastJobLocally u' j' m h)"
  unfolding queues_typed_def
proof (intro allI impI)
  fix s j sub assume sub: "subscription_of s j (broadcastJobLocally u' j' m h) = Some sub"
  have d: "distinct (map fst (hub_clients h))" using assms(1) by (simp add: hub_ok_def)
  obtain c where c: "map_of (hub_clients h) s = Some c"
    using sub by (auto simp: subscription_broadcast [OF d] split: option.splits)
  have old: "\<forall>m \<in> set (sub_queuedMessages sub0). message_job m = Some k"
    if "map_of (cc_subscriptions c) k = Some sub0" for k sub0
    using assms(2) [unfolded queues_typed_def, rule_format, of s k sub0] c that
    by (simp add: subscription_of_def)
  from sub c have "map_of (cc_subscriptions (fst (deliver_job u' j' m s c (hub_sockets h)))) j = Some sub"
    by (simp add: subscription_broadcast [OF d])
  then show "\<forall>m \<in> set (sub_queuedMessages sub). message_job m = Some j"
    using old [of j] assms(3) by (auto simp: deliver_job_def split: option.splits if_splits)
qed

lemma queues_typed_step:
  assumes "hub_ok h" and q: "queues_typed h" and "typed_event ev"
  shows "queues_typed (hub_step ev h)"
proof -
  have same: "queues_typed h'" if "hub_clients h' = hub_clients h" for h'
    using q subscription_of_clients [OF that] by (simp add: queues_typed_def)
  show ?thesis
  proof (cases ev)
    case (BroadcastJob u' j' m)
    with assms show ?thesis by (simp add: queues_typed_broadcast)
  qed (simp_all add: same clients_unchanged,
      use q in \<open>auto simp: queues_typed_def subscription_ops split: if_splits\<close>)
qed

lemma concat_job_messages:
  "\<forall>m \<in> set ms. message_job m = Some k \<Longrightarrow>
   concat (map (\<lambda>m. if message_job m = Some j then [m] else []) ms) = (if k = j then ms else [])"
  by (induction ms) auto

lemma frames_unchanged:
  "job_frames j (hub_sockets (attachAgent d u s conn now h) s') = job_frames j (hub_sockets h s')"
  "job_frames j (hub_sockets (snd (detachAgent d s h)) s') = job_frames j (hub_sockets h s')"
  "job_frames j (hub_sockets (snd (heartbeat d s now h)) s') = job_frames j (hub_sockets h s')"
  "job_frames j (hub_sockets (snd (sendToLocalAgent d k m h)) s') = job_frames j (hub_sockets h s')"
  "job_frames j (hub_sockets (closeDevice d reason h) s') = job_frames j (hub_sockets h s')"
  by (auto simp: attachAgent_def attachAgent_begin_def attachAgent_finish_def detachAgent_def
      detachAgent_finish_def heartbeat_def heartbeat_finish_def touch_heartbeat_def sendToLocalAgent_def
      closeDevice_def job_frames_send_on Let_def split: option.split)

lemma sockets_unchanged:
  "hub_sockets (attachClient u s h) = hub_sockets h"
  "hub_sockets (detachClient s h) = hub_sockets h"
  "hub_sockets (beginSubscription s j h) = hub_sockets h"
  "hub_sockets (unsubscribe s j h) = hub_sockets h"
  by (auto simp: attachClient_def detachClient_def beginSubscription_def unsubscribe_def split: option.split)

lemma users_unchanged:
  "s' \<noteq> s \<Longrightarrow> map_of (hub_clients (attachClient u s' h)) s = map_of (hub_clients h) s"
  "s' \<noteq> s \<Longrightarrow> map_of (hub_clients (detachClient s' h)) s = map_of (hub_clients h) s"
  "map_option cc_userId (map_of (hub_clients (set_subscription s' j sub h)) s) =
     map_option cc_userId (map_of (hub_clients h) s)"
  "map_option cc_userId (map_of (hub_clients (unsubscribe s' j h)) s) =
     map_option cc_userId (map_of (hub_clients h) s)"
  by (auto simp: attachClient_def detachClient_def set_subscription_def unsubscribe_def split: option.split)

lemma users_begin:
  "map_option cc_userId (map_of (hub_clients (beginSubscription s' j h)) s) =
     map_option cc_userId (map_of (hub_clients h) s)"
  by (simp add: beginSubscription_def users_unchanged)

text \<open>A step that leaves the viewers and the messages on this socket alone.\<close>

lemma viewer_unchanged:
  assumes "hub_clients h' = hub_clients h" and "job_frames j (hub_sockets h' s) = job_frames j (hub_sockets h s)"
  shows "viewer_of u s j h' = viewer_of u s j h" and "viewer_stream s j h' = viewer_stream s j h"
  using assms subscription_of_clients [OF assms(1), of s j] by (simp_all add: viewer_of_def viewer_stream_def)

lemma viewer_broadcast:
  assumes ok: "hub_ok h" and v: "viewer_of u s j h" and msg: "message_job m = Some j'"
    and o: "sk_readyState (hub_sockets (broadcastJobLocally u' j' m h) s) = OPEN_STATE"
  shows "viewer_of u s j (broadcastJobLocally u' j' m h) \<and>
    viewer_stream s j (broadcastJobLocally u' j' m h) = viewer_stream s j h @ broadcast_of u j (BroadcastJob u' j' m)"
proof -
  obtain c sub where c: "map_of (hub_clients h) s = Some c" "cc_userId c = u"
    and sub: "map_of (cc_subscriptions c) j = Some sub" "subscription_of s j h = Some sub"
    using v by (auto simp: viewer_of_def subscription_of_def)
  have d: "distinct (map fst (hub_clients h))" using ok by (simp add: hub_ok_def)
  have subok: "sub_ok sub" using ok c(1) sub(1) by (auto simp: hub_ok_def client_ok_def)
  note b = broadcast_client [OF d c(1), of u' j' m]
  have o': "sk_readyState (snd (deliver_job u' j' m s c (hub_sockets h)) s) = OPEN_STATE"
    using o b(2) by simp
  then have ready: "sk_readyState (hub_sockets h s) = OPEN_STATE"
    by (rule open_before_deliver)
  have sub': "subscription_of s j (broadcastJobLocally u' j' m h) =
      map_of (cc_subscriptions (fst (deliver_job u' j' m s c (hub_sockets h)))) j"
    using c by (simp add: subscription_broadcast [OF d])
  show ?thesis
    using b c sub subok o' ready msg unfolding viewer_of_def viewer_stream_def sub'
    by (auto simp: deliver_job_def job_frames_send_on sub_ok_def readyState_close_on split: option.splits if_splits)
qed

lemma viewer_step:
  assumes ok: "hub_ok h" and q: "queues_typed h" and v: "viewer_of u s j h" and keep: "keeps_subscription s j ev"
    and o: "sk_readyState (hub_sockets (hub_step ev h) s) = OPEN_STATE"
  shows "viewer_of u s j (hub_step ev h) \<and> viewer_stream s j (hub_step ev h) = viewer_stream s j h @ broadcast_of u j ev"
proof -
  have d: "distinct (map fst (hub_clients h))" using ok by (simp add: hub_ok_def)
  have ready: "sk_readyState (hub_sockets h s) = OPEN_STATE"
    using open_before_step [OF ok o] .
  show ?thesis
  proof (cases ev)
    case (BroadcastJob u' j' m)
    with viewer_broadcast [OF ok v, of m j' u'] keep o show ?thesis by simp
  next
    case (BroadcastDevice u' m)
    with keep have "job_frames j (hub_sockets (hub_step ev h) s) = job_frames j (hub_sockets h s)"
      by (simp add: broadcastDeviceLocally_def deliver_device_lookup [OF d] job_frames_send_on split: option.split)
    with BroadcastDevice v viewer_unchanged [of "hub_step ev h" h j s] show ?thesis
      by (simp add: broadcastDeviceLocally_def)
  next
    case (FinishSubscription s' j')
    show ?thesis
    proof (cases "subscription_of s' j' h")
      case None
      with FinishSubscription v show ?thesis by (simp add: finishSubscription_def)
    next
      case (Some sub)
      then have t: "\<forall>m \<in> set (sub_queuedMessages sub). message_job m = Some j'"
        using q by (auto simp: queues_typed_def)
      have frames: "job_frames j (hub_sockets (finishSubscription s' j' h) s) =
          job_frames j (hub_sockets h s) @ (if s' = s \<and> j' = j then sub_queuedMessages sub else [])"
        using Some ready send_each_socket [of h s j "sub_queuedMessages sub"]
        by (cases "s' = s") (auto simp: finishSubscription_def send_each_other concat_job_messages [OF t])
      have "map_option cc_userId (map_of (hub_clients (finishSubscription s' j' h)) s) =
          map_option cc_userId (map_of (hub_clients h) s)"
        using Some by (auto simp: finishSubscription_def set_subscription_def split: option.splits)
      with FinishSubscription v frames Some show ?thesis
        by (auto simp: viewer_of_def viewer_stream_def subscription_finish)
    qed
  next
    case (NetworkClosed s')
    with v show ?thesis by (auto simp: viewer_of_def viewer_stream_def subscription_of_def job_frames_def)
  next
    case (NetworkBuffer s' n)
    with v show ?thesis by (auto simp: viewer_of_def viewer_stream_def subscription_of_def job_frames_def)
  next
    case (AttachAgent d u0 s0 conn now)
    with v show ?thesis
      by (simp add: viewer_unchanged [OF clients_unchanged(1) frames_unchanged(1)])
  next
    case (DetachAgent d s0)
    with v show ?thesis
      by (simp add: viewer_unchanged [OF clients_unchanged(2) frames_unchanged(2)])
  next
    case (HeartbeatFrom d s0 now)
    with v show ?thesis
      by (simp add: viewer_unchanged [OF clients_unchanged(3) frames_unchanged(3)])
  next
    case (SendToAgent d m)
    with v show ?thesis
      by (simp add: viewer_unchanged [OF clients_unchanged(4) frames_unchanged(4)])
  next
    case (CloseDevice d reason)
    with v show ?thesis
      by (simp add: viewer_unchanged [OF clients_unchanged(5) frames_unchanged(5)])
  qed (use v keep in \<open>auto simp: viewer_of_def viewer_stream_def subscription_ops users_unchanged users_begin
        sockets_unchanged\<close>)
qed

lemma viewer_run:
  assumes "hub_ok h" and "queues_typed h" and "viewer_of u s j h"
    and "list_all (keeps_subscription s j) evs"
    and "sk_readyState (hub_sockets (hub_run evs h) s) = OPEN_STATE"
  shows "viewer_of u s j (hub_run evs h) \<and>
    viewer_stream s j (hub_run evs h) = viewer_stream s j h @ concat (map (broadcast_of u j) evs)"
  using assms
proof (induction evs arbitrary: h)
  case (Cons ev evs)
  have ready: "sk_readyState (hub_sockets (hub_step ev h) s) = OPEN_STATE"
  proof -
    have "hub_ok g \<Longrightarrow> sk_readyState (hub_sockets (hub_run es g) s) = OPEN_STATE \<Longrightarrow>
        sk_readyState (hub_sockets g s) = OPEN_STATE" for es g
      by (induction es arbitrary: g) (auto dest: open_before_step hub_ok_step)
    then show ?thesis
      using Cons.prems(1,5) hub_ok_step by auto
  qed
  have step: "viewer_of u s j (hub_step ev h) \<and> viewer_stream s j (hub_step ev h) = viewer_stream s j h @ broadcast_of u j ev"
    using Cons.prems ready by (intro viewer_step) auto
  moreover have "queues_typed (hub_step ev h)"
    using Cons.prems keeps_typed by (intro queues_typed_step) auto
  ultimately show ?case
    using Cons.IH [of "hub_step ev h"] Cons.prems hub_ok_step by simp
qed simp

lemma queues_typed_run: "hub_ok h \<Longrightarrow> queues_typed h \<Longrightarrow> list_all typed_event evs \<Longrightarrow> queues_typed (hub_run evs h)"
  by (induction evs arbitrary: h) (auto intro: queues_typed_step hub_ok_step)

text \<open>
  C2. A viewer gets every message of a job exactly once and in order across the end of its replay:
  when it connects, subscribes, and later its replay is finished, then, as long as its socket is
  still open, what it was sent about the job since it subscribed is the list of all messages
  broadcast for it in between, whatever else happens on the instance short of ending that
  subscription.
\<close>

theorem viewer_gets_all_in_order:
  assumes "list_all typed_event pre" and "list_all (keeps_subscription s j) evs"
    and run: "h = hub_run (pre @ [AttachClient u s, BeginSubscription s j] @ evs @ [FinishSubscription s j]) (fresh_hub i socks)"
    and opened: "sk_readyState (hub_sockets h s) = OPEN_STATE"
  shows "job_frames j (hub_sockets h s) =
    job_frames j (hub_sockets (hub_run pre (fresh_hub i socks)) s) @ concat (map (broadcast_of u j) evs)"
proof -
  define h0 where "h0 = hub_run pre (fresh_hub i socks)"
  define h1 where "h1 = beginSubscription s j (attachClient u s h0)"
  have h: "h = hub_run (evs @ [FinishSubscription s j]) h1"
    unfolding run h0_def h1_def by simp
  have "hub_ok h0" and t0: "queues_typed h0"
    unfolding h0_def using fresh_hub_ok assms(1)
    by (auto intro!: hub_ok_run queues_typed_run) (simp add: queues_typed_def fresh_hub_def subscription_of_def)
  then have ok: "hub_ok h1" and t: "queues_typed h1"
    using hub_ok_step [of _ "BeginSubscription s j"] hub_ok_step [of h0 "AttachClient u s"]
      queues_typed_step [of _ "BeginSubscription s j"] queues_typed_step [of h0 "AttachClient u s"]
    by (simp_all add: h1_def)
  have client: "map_of (hub_clients (attachClient u s h0)) s = Some \<lparr>cc_userId = u, cc_subscriptions = []\<rparr>"
    by (simp add: attachClient_def)
  then have v: "viewer_of u s j h1"
    by (simp add: viewer_of_def h1_def users_begin subscription_begin)
  have start: "viewer_stream s j h1 = job_frames j (hub_sockets h0 s)"
    using client by (simp add: viewer_stream_def h1_def subscription_begin sockets_unchanged)
  have "viewer_of u s j h \<and> viewer_stream s j h =
      job_frames j (hub_sockets h0 s) @ concat (map (broadcast_of u j) (evs @ [FinishSubscription s j]))"
    unfolding h start [symmetric] using viewer_run [OF ok t v, of "evs @ [FinishSubscription s j]"] assms(2) opened
    by (simp only: h list_all_append list.pred_inject keeps_subscription.simps simp_thms)
  moreover have "subscription_of s j h = Some sub \<Longrightarrow> sub_queuedMessages sub = []" for sub
    by (auto simp: h subscription_finish)
  ultimately show ?thesis
    by (auto simp: viewer_of_def viewer_stream_def h0_def [symmetric])
qed

definition open_socket :: socket where
  "open_socket = \<lparr>sk_readyState = 1, sk_bufferedAmount = 0, sk_sent = [], sk_closes = []\<rparr>"

theorem viewer_gets_all_in_order_witness:
  "let m = ClientJobStatus ''j'' Running None in
   job_frames ''j'' (hub_sockets (hub_run ([] @ [AttachClient ''u'' 1, BeginSubscription 1 ''j''] @
     [BroadcastJob ''u'' ''j'' m, BroadcastJob ''v'' ''j'' m] @ [FinishSubscription 1 ''j''])
     (fresh_hub ''i'' (\<lambda>s. open_socket))) 1) = [m]"
proof -
  let ?m = "ClientJobStatus ''j'' Running None"
  let ?evs = "[BroadcastJob ''u'' ''j'' ?m, BroadcastJob ''v'' ''j'' ?m]"
  let ?h = "hub_run ([] @ [AttachClient ''u'' 1, BeginSubscription 1 ''j''] @ ?evs @
     [FinishSubscription 1 ''j'']) (fresh_hub ''i'' (\<lambda>s. open_socket))"
  have "sk_readyState (hub_sockets ?h 1) = OPEN_STATE"
    by (simp add: fresh_hub_def attachClient_def beginSubscription_def set_subscription_def
        broadcastJobLocally_def deliver_job_def finishSubscription_def subscription_of_def open_socket_def
        send_def send_on_def OPEN_STATE_def)
  then show ?thesis
    using viewer_gets_all_in_order [of "[]" 1 "''j''" ?evs ?h "''u''" "''i''" "\<lambda>s. open_socket", OF _ _ refl]
    by (simp add: Let_def job_frames_def open_socket_def fresh_hub_def)
qed

text \<open>
  Nothing leaks and nothing grows without bound: in every state the hub can reach, a broadcast for
  a user's job changes no socket but those of that user's viewers of that job, and a viewer's
  replay holds back at most 1000 messages, and none once it is live.
\<close>

theorem broadcast_reaches_only_subscribers:
  "let h = hub_run evs (fresh_hub i socks) in
   (hub_sockets (broadcastJobLocally u j m h) s = hub_sockets h s \<or>
    (\<exists>c sub. map_of (hub_clients h) s = Some c \<and> cc_userId c = u \<and> map_of (cc_subscriptions c) j = Some sub)) \<and>
   (case subscription_of s j h of
      None \<Rightarrow> True
    | Some sub \<Rightarrow> length (sub_queuedMessages sub) \<le> 1000 \<and> (sub_replaying sub \<or> sub_queuedMessages sub = []))"
proof -
  let ?h = "hub_run evs (fresh_hub i socks)"
  have ok: "hub_ok ?h" by (intro hub_ok_run fresh_hub_ok)
  then have "hub_sockets (broadcastJobLocally u j m ?h) s = hub_sockets ?h s \<or>
    (\<exists>c sub. map_of (hub_clients ?h) s = Some c \<and> cc_userId c = u \<and> map_of (cc_subscriptions c) j = Some sub)"
    using unsubscribed_unchanged [of ?h s u j m] by (auto simp: hub_ok_def)
  moreover have "sub_ok sub" if "subscription_of s j ?h = Some sub" for sub
    using ok that by (cases "map_of (hub_clients ?h) s")
      (auto simp: hub_ok_def client_ok_def subscription_of_def)
  ultimately show ?thesis
    by (simp add: Let_def sub_ok_def split: option.split)
qed

end
