(* ===== verification/Presence.thy ===== *)
theory Presence
  imports Hub
begin

section \<open>Presence of agents across instances\<close>

text \<open>
  The presence of an agent is a key in Redis that every instance can claim, touch and release with
  the Lua scripts of \<open>services/connections.ts\<close>. Redis runs a script alone, so a script is a
  function on the store. The value under a key is the owner that \<open>attachAgent\<close> writes (its JSON
  text, the same for the same owner), with the time it expires. The second part runs the segments
  of \<open>attachAgent\<close>, \<open>detachAgent\<close> and \<open>heartbeat\<close> against the store in the order Redis and the event
  loop allow.
\<close>

type_synonym presence_store = "(ident \<times> agent_owner \<times> ms) list"

text \<open>\<open>GET\<close> on a key that has not expired.\<close>

definition holder :: "ms \<Rightarrow> ident \<Rightarrow> presence_store \<Rightarrow> agent_owner option" where
  "holder now deviceId st =
     (case map_of st deviceId of
        None \<Rightarrow> None | Some (ow, expires) \<Rightarrow> if now < expires then Some ow else None)"

definition claimPresence ::
  "ms \<Rightarrow> ms \<Rightarrow> ident \<Rightarrow> agent_owner \<Rightarrow> presence_store \<Rightarrow> agent_owner option \<times> presence_store" where
  "claimPresence ttl now deviceId owner st =
     (holder now deviceId st, AList.update deviceId (owner, now + ttl) st)"

definition touchPresence ::
  "ms \<Rightarrow> ms \<Rightarrow> ident \<Rightarrow> agent_owner \<Rightarrow> presence_store \<Rightarrow> bool \<times> presence_store" where
  "touchPresence ttl now deviceId owner st =
     (if holder now deviceId st = Some owner
      then (True, AList.update deviceId (owner, now + ttl) st) else (False, st))"

definition releasePresence :: "ms \<Rightarrow> ident \<Rightarrow> agent_owner \<Rightarrow> presence_store \<Rightarrow> bool \<times> presence_store" where
  "releasePresence now deviceId owner st =
     (if holder now deviceId st = Some owner then (True, AList.delete deviceId st) else (False, st))"

subsection \<open>The contract of a presence store\<close>

text \<open>
  What the hub relies on: the last claim of a key holds it until it expires or is released, and
  touch and release work for the holder alone.
\<close>

locale presence =
  fixes get :: "ms \<Rightarrow> ident \<Rightarrow> 's \<Rightarrow> 'o option"
    and claim :: "ms \<Rightarrow> ident \<Rightarrow> 'o \<Rightarrow> 's \<Rightarrow> 'o option \<times> 's"
    and touch :: "ms \<Rightarrow> ident \<Rightarrow> 'o \<Rightarrow> 's \<Rightarrow> bool \<times> 's"
    and release :: "ms \<Rightarrow> ident \<Rightarrow> 'o \<Rightarrow> 's \<Rightarrow> bool \<times> 's"
    and ttl :: ms
  assumes get_claim: "t \<le> t' \<Longrightarrow> get t' d' (snd (claim t d ow st)) =
      (if d' = d then (if t' < t + ttl then Some ow else None) else get t' d' st)"
    and claim_previous: "fst (claim t d ow st) = get t d st"
    and touch_holder: "fst (touch t d ow st) \<longleftrightarrow> get t d st = Some ow"
    and get_touch: "t \<le> t' \<Longrightarrow> get t' d' (snd (touch t d ow st)) =
      (if d' = d \<and> get t d st = Some ow then (if t' < t + ttl then Some ow else None) else get t' d' st)"
    and release_holder: "fst (release t d ow st) \<longleftrightarrow> get t d st = Some ow"
    and get_release: "get t' d' (snd (release t d ow st)) =
      (if d' = d \<and> get t d st = Some ow then None else get t' d' st)"
    and expiry: "t \<le> t' \<Longrightarrow> get t' d st = Some ow \<Longrightarrow> get t d st = Some ow"
begin

text \<open>The calls other connections can make on a key.\<close>

fun call :: "ident \<Rightarrow> ms \<times> bool \<times> 'o \<Rightarrow> 's \<Rightarrow> 's" where
  "call d (t, touching, ow) st = (if touching then snd (touch t d ow st) else snd (release t d ow st))"

lemma other_calls_keep:
  assumes "\<forall>c \<in> set cs. snd (snd c) \<noteq> ow" and "\<forall>c \<in> set cs. fst c \<le> t'"
    and "get t' d st = Some ow"
  shows "get t' d (fold (call d) cs st) = Some ow"
  using assms
proof (induction cs arbitrary: st)
  case (Cons c cs)
  obtain t b o' where c: "c = (t, b, o')" by (cases c)
  from Cons.prems c have "get t d st = Some ow" and "o' \<noteq> ow" and "t \<le> t'"
    using expiry [of t t' d st ow] by auto
  then have "get t' d (call d c st) = Some ow"
    using Cons.prems(3) c by (simp add: get_touch get_release)
  with Cons show ?case by simp
qed simp

text \<open>A replaced owner can neither refresh nor remove the presence of the one that replaced it.\<close>

lemma claim_excludes:
  assumes "t \<le> t'" and "o' \<noteq> ow"
  shows "\<not> fst (touch t' d o' (snd (claim t d ow st))) \<and> \<not> fst (release t' d o' (snd (claim t d ow st)))"
  using assms by (simp add: touch_holder release_holder get_claim)

lemma claim_survives:
  assumes "\<forall>c \<in> set cs. snd (snd c) \<noteq> ow" and "\<forall>c \<in> set cs. fst c \<le> t'"
    and "t \<le> t'" and "t' < t + ttl"
  shows "get t' d (fold (call d) cs (snd (claim t d ow st))) = Some ow"
  by (rule other_calls_keep) (use assms in \<open>auto simp: get_claim\<close>)

end

interpretation redis: presence holder "claimPresence ttl" "touchPresence ttl" releasePresence ttl for ttl
  by unfold_locales
    (auto simp: holder_def claimPresence_def touchPresence_def releasePresence_def split: option.splits if_splits)

text \<open>
  The newest connection of a device keeps its presence: after its claim, whatever touches and
  releases older connections still send, \<open>GET\<close> returns the new owner until the key's lifetime is
  over, and each of those calls reports failure.
\<close>

theorem newest_claim_holds:
  assumes "\<forall>c \<in> set calls. snd (snd c) \<noteq> owner \<and> fst c \<le> t'" and "t \<le> t'" and "t' < t + ttl"
    and "st' = fold (\<lambda>(at, touching, ow) st.
        if touching then snd (touchPresence ttl at d ow st) else snd (releasePresence at d ow st))
      calls (snd (claimPresence ttl t d owner st))"
  shows "holder t' d st' = Some owner \<and>
    (\<forall>old. old = owner \<or> \<not> fst (touchPresence ttl t' d old st') \<and> \<not> fst (releasePresence t' d old st'))"
proof -
  have "(\<lambda>(at, touching, ow) st.
        if touching then snd (touchPresence ttl at d ow st) else snd (releasePresence at d ow st)) =
      redis.call ttl d"
    by (intro ext) (auto split: prod.split)
  then have "holder t' d st' = Some owner"
    using redis.claim_survives [of calls owner t' t ttl d st] assms by auto
  then show ?thesis
    by (auto simp: redis.touch_holder redis.release_holder)
qed

theorem newest_claim_holds_witness:
  "let new = \<lparr>ow_instanceId = ''i'', ow_connectionId = ''c2'', ow_userId = ''u''\<rparr>;
       old = \<lparr>ow_instanceId = ''i'', ow_connectionId = ''c1'', ow_userId = ''u''\<rparr> in
   holder 20 ''d'' (snd (touchPresence 45000 15 ''d'' old (snd (claimPresence 45000 10 ''d'' new [])))) = Some new"
  using newest_claim_holds [of "[(15, True, \<lparr>ow_instanceId = ''i'', ow_connectionId = ''c1'', ow_userId = ''u''\<rparr>)]"
      "\<lparr>ow_instanceId = ''i'', ow_connectionId = ''c2'', ow_userId = ''u''\<rparr>" 20 10 45000 _ "''d''" "[]", OF _ _ _ refl]
  by simp

subsection \<open>Commands in flight\<close>

text \<open>
  One instance with its Redis connection. An operation on an agent runs up to its command, which is
  sent; Redis executes sent commands in order, interleaved with those of other instances; the
  replies come back in order, and each resumes the operation that waits for it.
\<close>

datatype presence_op =
    OpAttach ident sock "agent_connection option" agent_owner
  | OpDetach ident agent_connection
  | OpHeartbeat ident agent_connection

datatype presence_reply = PreviousOwner "agent_owner option" | Succeeded bool

record node =
  nd_hub :: hub
  nd_store :: presence_store
  nd_sent :: "presence_op list"
  nd_replies :: "(presence_op \<times> presence_reply) list"

datatype node_event =
    StartAttach ident ident sock ident
  | StartDetach ident sock
  | StartHeartbeat ident sock
  | RedisRuns ms
  | ReplyArrives ms ident bool
  | ForeignClaim ms ident agent_owner

fun redis_exec :: "ms \<Rightarrow> ms \<Rightarrow> presence_op \<Rightarrow> presence_store \<Rightarrow> presence_reply \<times> presence_store" where
  "redis_exec ttl now (OpAttach d s existing ow) st =
     (case claimPresence ttl now d ow st of (p, st') \<Rightarrow> (PreviousOwner p, st'))"
| "redis_exec ttl now (OpDetach d c) st =
     (case releasePresence now d (ac_owner c) st of (ok, st') \<Rightarrow> (Succeeded ok, st'))"
| "redis_exec ttl now (OpHeartbeat d c) st =
     (case touchPresence ttl now d (ac_owner c) st of (ok, st') \<Rightarrow> (Succeeded ok, st'))"

fun resume :: "ms \<Rightarrow> ident \<Rightarrow> bool \<Rightarrow> presence_op \<Rightarrow> presence_reply \<Rightarrow> hub \<Rightarrow> hub" where
  "resume now uuid accepted (OpAttach d s existing ow) (PreviousOwner p) h =
     attachAgent_finish existing ow p d s now uuid accepted h"
| "resume now uuid accepted (OpDetach d c) (Succeeded ok) h = snd (detachAgent_finish d (Some ok) h)"
| "resume now uuid accepted (OpHeartbeat d c) (Succeeded ok) h = snd (heartbeat_finish d c ok now h)"
| "resume now uuid accepted op reply h = h"

fun node_step :: "ms \<Rightarrow> node_event \<Rightarrow> node \<Rightarrow> node" where
  "node_step ttl (StartAttach d u s conn) n =
     (case attachAgent_begin d u conn (nd_hub n) of
        (existing, ow) \<Rightarrow> n\<lparr>nd_sent := nd_sent n @ [OpAttach d s existing ow]\<rparr>)"
| "node_step ttl (StartDetach d s) n =
     (case detachAgent_begin d s (nd_hub n) of
        None \<Rightarrow> n | Some c \<Rightarrow> n\<lparr>nd_sent := nd_sent n @ [OpDetach d c]\<rparr>)"
| "node_step ttl (StartHeartbeat d s) n =
     (case heartbeat_begin d s (nd_hub n) of
        None \<Rightarrow> n | Some c \<Rightarrow> n\<lparr>nd_sent := nd_sent n @ [OpHeartbeat d c]\<rparr>)"
| "node_step ttl (RedisRuns now) n =
     (case nd_sent n of
        [] \<Rightarrow> n
      | op # ops \<Rightarrow> (case redis_exec ttl now op (nd_store n) of
          (reply, st') \<Rightarrow> n\<lparr>nd_store := st', nd_sent := ops, nd_replies := nd_replies n @ [(op, reply)]\<rparr>))"
| "node_step ttl (ReplyArrives now uuid accepted) n =
     (case nd_replies n of
        [] \<Rightarrow> n
      | (op, reply) # rs \<Rightarrow> n\<lparr>nd_hub := resume now uuid accepted op reply (nd_hub n), nd_replies := rs\<rparr>)"
| "node_step ttl (ForeignClaim now d ow) n = n\<lparr>nd_store := snd (claimPresence ttl now d ow (nd_store n))\<rparr>"

definition node_run :: "ms \<Rightarrow> node_event list \<Rightarrow> node \<Rightarrow> node" where
  "node_run ttl evs n = fold (node_step ttl) evs n"

subsection \<open>Operations that do not overlap\<close>

text \<open>
  The registry of the instance and the store agree: whenever the store says that this instance
  holds a device, the registry has that very connection.
\<close>

definition agree :: "ms \<Rightarrow> hub \<Rightarrow> presence_store \<Rightarrow> bool" where
  "agree now h st \<longleftrightarrow>
     (\<forall>t d ow. now \<le> t \<longrightarrow> holder t d st = Some ow \<longrightarrow> ow_instanceId ow = hub_instanceId h \<longrightarrow>
        (\<exists>c. agent_of d h = Some c \<and> ac_owner c = ow))"

text \<open>An operation with its command and its reply at one time, nothing in between.\<close>

fun alone :: "ms \<Rightarrow> ms \<times> node_event \<Rightarrow> hub \<times> presence_store \<Rightarrow> hub \<times> presence_store" where
  "alone ttl (now, ev) (h, st) =
     (let n = node_run ttl [ev, RedisRuns now, ReplyArrives now '''' True]
                \<lparr>nd_hub = h, nd_store = st, nd_sent = [], nd_replies = []\<rparr>
      in (nd_hub n, nd_store n))"

lemma attach_finish_agents [simp]:
  "hub_instanceId (attachAgent_finish e ow p d s now uuid acc h) = hub_instanceId h"
  "agent_of d' (attachAgent_finish e ow p d s now uuid acc h) =
     (if d' = d then Some \<lparr>ac_owner = ow, ac_socket = s, ac_deviceId = d, ac_lastHeartbeatAt = now\<rparr>
      else agent_of d' h)"
  by (auto simp: attachAgent_finish_def publishBestEffort_def agent_of_def Let_def split: option.split)

lemma agent_delete [simp]:
  "agent_of d' (h\<lparr>hub_agents := AList.delete d (hub_agents h)\<rparr>) = (if d' = d then None else agent_of d' h)"
  by (simp add: agent_of_def)

lemma agent_close [simp]: "agent_of d (close_socket s code reason h) = agent_of d h"
  by (simp add: agent_of_def)

lemma heartbeat_finish_fields [simp]: "hub_instanceId (snd (heartbeat_finish d c ok now h)) = hub_instanceId h"
  by (simp add: heartbeat_finish_def touch_heartbeat_def split: option.split)

lemma heartbeat_finish_owner:
  "ok \<or> \<not> hub_distributed h \<Longrightarrow>
   map_option ac_owner (agent_of d' (snd (heartbeat_finish d c ok now h))) = map_option ac_owner (agent_of d' h)"
  by (auto simp: heartbeat_finish_def touch_heartbeat_def agent_of_def split: option.split)

lemma agreeD:
  "agree now h st \<Longrightarrow> now \<le> t \<Longrightarrow> holder t d st = Some ow \<Longrightarrow> ow_instanceId ow = hub_instanceId h \<Longrightarrow>
   map_option ac_owner (agent_of d h) = Some ow"
  by (fastforce simp: agree_def)

lemma agreeI:
  "(\<And>t d ow. now \<le> t \<Longrightarrow> holder t d st = Some ow \<Longrightarrow> ow_instanceId ow = hub_instanceId h \<Longrightarrow>
      map_option ac_owner (agent_of d h) = Some ow) \<Longrightarrow> agree now h st"
  by (fastforce simp: agree_def)

lemma agree_attach:
  assumes "agree now h st" and "now \<le> t" and "ow_instanceId ow = hub_instanceId h"
  shows "agree t (attachAgent_finish e ow p d s t uuid acc h) (snd (claimPresence ttl t d ow st))"
proof (rule agreeI)
  fix t' d' ow' assume "t \<le> t'"
    and "holder t' d' (snd (claimPresence ttl t d ow st)) = Some ow'"
    and "ow_instanceId ow' = hub_instanceId (attachAgent_finish e ow p d s t uuid acc h)"
  then show "map_option ac_owner (agent_of d' (attachAgent_finish e ow p d s t uuid acc h)) = Some ow'"
    using assms agreeD [OF assms(1), of t' d' ow'] by (auto simp: redis.get_claim split: if_splits)
qed

lemma agree_detach:
  assumes "agree now h st" and "now \<le> t" and "agent_of d h = Some c"
  shows "agree t (snd (detachAgent_finish d (Some ok) h)) (snd (releasePresence t d (ac_owner c) st))"
proof (rule agreeI)
  fix t' d' ow' assume a: "t \<le> t'" "holder t' d' (snd (releasePresence t d (ac_owner c) st)) = Some ow'"
    "ow_instanceId ow' = hub_instanceId (snd (detachAgent_finish d (Some ok) h))"
  then have st: "holder t' d' st = Some ow'" and kept: "d' = d \<Longrightarrow> holder t d st \<noteq> Some (ac_owner c)"
    by (auto simp: redis.get_release split: if_splits)
  have owner: "map_option ac_owner (agent_of d' h) = Some ow'"
    using agreeD [OF assms(1) _ st] a assms(2) by (simp add: detachAgent_finish_def)
  moreover have "d' \<noteq> d"
    using owner kept redis.expiry [OF a(1) st] assms(3) by auto
  ultimately show "map_option ac_owner (agent_of d' (snd (detachAgent_finish d (Some ok) h))) = Some ow'"
    by (simp add: detachAgent_finish_def)
qed

lemma agree_heartbeat:
  assumes "agree now h st" and "now \<le> t" and "agent_of d h = Some c"
  shows "agree t (snd (heartbeat_finish d c (fst (touchPresence ttl t d (ac_owner c) st)) t h))
    (snd (touchPresence ttl t d (ac_owner c) st))"
proof (rule agreeI)
  let ?ok = "fst (touchPresence ttl t d (ac_owner c) st)"
  fix t' d' ow' assume a: "t \<le> t'" "holder t' d' (snd (touchPresence ttl t d (ac_owner c) st)) = Some ow'"
    "ow_instanceId ow' = hub_instanceId (snd (heartbeat_finish d c ?ok t h))"
  show "map_option ac_owner (agent_of d' (snd (heartbeat_finish d c ?ok t h))) = Some ow'"
  proof (cases "holder t d st = Some (ac_owner c)")
    case True
    then have "map_option ac_owner (agent_of d' h) = Some ow'"
      using a assms agreeD [OF assms(1), of t' d' ow'] agreeD [OF assms(1), of t d "ac_owner c"]
      by (auto simp: redis.get_touch split: if_splits)
    then show ?thesis
      using heartbeat_finish_owner [of ?ok h d' d c t] True by (simp add: redis.touch_holder)
  next
    case False
    then have st: "holder t' d' st = Some ow'"
      using a by (simp add: redis.get_touch)
    have owner: "map_option ac_owner (agent_of d' h) = Some ow'"
      using agreeD [OF assms(1) _ st] a assms(2) by simp
    then have "d' \<noteq> d"
      using False redis.expiry [OF a(1) st] assms(3) by auto
    then show ?thesis
      using owner by (auto simp: heartbeat_finish_def touch_heartbeat_def agent_of_def split: option.split)
  qed
qed

text \<open>What an operation does when nothing overlaps it.\<close>

lemma alone_attach:
  "alone ttl (t, StartAttach d u s conn) (h, st) =
     (let ow = \<lparr>ow_instanceId = hub_instanceId h, ow_connectionId = conn, ow_userId = u\<rparr> in
      (attachAgent_finish (agent_of d h) ow (holder t d st) d s t '''' True h, snd (claimPresence ttl t d ow st)))"
  by (simp add: node_run_def attachAgent_begin_def claimPresence_def Let_def)

lemma alone_detach:
  "alone ttl (t, StartDetach d s) (h, st) =
     (case detachAgent_begin d s h of
        None \<Rightarrow> (h, st)
      | Some c \<Rightarrow> (snd (detachAgent_finish d (Some (fst (releasePresence t d (ac_owner c) st))) h),
                  snd (releasePresence t d (ac_owner c) st)))"
  by (simp add: node_run_def split: option.split prod.split)

lemma alone_heartbeat:
  "alone ttl (t, StartHeartbeat d s) (h, st) =
     (case heartbeat_begin d s h of
        None \<Rightarrow> (h, st)
      | Some c \<Rightarrow> (snd (heartbeat_finish d c (fst (touchPresence ttl t d (ac_owner c) st)) t h),
                  snd (touchPresence ttl t d (ac_owner c) st)))"
  by (simp add: node_run_def split: option.split prod.split)

lemma alone_foreign: "alone ttl (t, ForeignClaim t' d ow) (h, st) = (h, snd (claimPresence ttl t' d ow st))"
  by (simp add: node_run_def)

fun operation_at :: "ident \<Rightarrow> ms \<times> node_event \<Rightarrow> bool" where
  "operation_at me (t, ForeignClaim t' d ow) = (t' = t \<and> ow_instanceId ow \<noteq> me)"
| "operation_at me (t, RedisRuns t') = False"
| "operation_at me (t, ReplyArrives t' uuid acc) = False"
| "operation_at me (t, ev) = True"

lemma alone_agree:
  assumes a: "agree now h st" "now \<le> t" and op: "operation_at (hub_instanceId h) (t, ev)"
    and r: "alone ttl (t, ev) (h, st) = (h', st')"
  shows "agree t h' st' \<and> hub_instanceId h' = hub_instanceId h"
proof -
  have later: "agree t h st"
    using a by (meson agreeD agreeI order_trans)
  show ?thesis
  proof (cases ev)
    case (StartAttach d u s conn)
    with r agree_attach [OF a] show ?thesis by (auto simp only: alone_attach Let_def prod.inject) simp_all
  next
    case (StartDetach d s)
    show ?thesis
    proof (cases "detachAgent_begin d s h")
      case None
      with StartDetach later r show ?thesis by (simp add: alone_detach del: alone.simps)
    next
      case (Some c)
      then have "agent_of d h = Some c"
        by (auto simp: detachAgent_begin_def split: option.splits if_splits)
      from agree_detach [OF a this] StartDetach Some r show ?thesis
        by (auto simp: alone_detach detachAgent_finish_def simp del: alone.simps)
    qed
  next
    case (StartHeartbeat d s)
    show ?thesis
    proof (cases "heartbeat_begin d s h")
      case None
      with StartHeartbeat later r show ?thesis by (simp add: alone_heartbeat del: alone.simps)
    next
      case (Some c)
      then have "agent_of d h = Some c"
        by (auto simp: heartbeat_begin_def split: option.splits if_splits)
      from agree_heartbeat [OF a this, of ttl] StartHeartbeat Some r show ?thesis
        by (auto simp: alone_heartbeat simp del: alone.simps)
    qed
  next
    case (ForeignClaim t' d ow)
    have "agree t h (snd (claimPresence ttl t d ow st))"
    proof (rule agreeI)
      fix t2 d2 ow2 assume "t \<le> t2" "holder t2 d2 (snd (claimPresence ttl t d ow st)) = Some ow2"
        "ow_instanceId ow2 = hub_instanceId h"
      then show "map_option ac_owner (agent_of d2 h) = Some ow2"
        using agreeD [OF later, of t2 d2 ow2] op ForeignClaim by (auto simp: redis.get_claim split: if_splits)
    qed
    with ForeignClaim r op show ?thesis by (auto simp: alone_foreign simp del: alone.simps)
  qed (use op in auto)
qed

lemma agree_later: "agree now h st \<Longrightarrow> now \<le> t \<Longrightarrow> agree t h st"
  by (meson agreeD agreeI order_trans)

lemma sequence_agree:
  assumes "agree now h st" and "sorted (map fst ops)" and "\<forall>op \<in> set ops. now \<le> fst op \<and> fst op \<le> t"
    and "now \<le> t" and "\<forall>op \<in> set ops. operation_at (hub_instanceId h) op"
    and "fold (alone ttl) ops (h, st) = (h', st')"
  shows "agree t h' st' \<and> hub_instanceId h' = hub_instanceId h"
  using assms
proof (induction ops arbitrary: now h st)
  case Nil
  then show ?case by (auto intro: agree_later)
next
  case (Cons op ops)
  obtain t1 ev where op: "op = (t1, ev)" by force
  obtain h1 st1 where r: "alone ttl (t1, ev) (h, st) = (h1, st1)" by force
  from Cons.prems op r have "agree t1 h1 st1 \<and> hub_instanceId h1 = hub_instanceId h"
    by (intro alone_agree [of now h st t1 ev ttl h1 st1]) auto
  with Cons.prems op r show ?case
    using Cons.IH [of t1 h1 st1] by auto
qed



text \<open>
  When they do overlap, a live agent can be lost. An agent reconnects to the instance that still
  has its old socket, and a heartbeat of the old socket is handled while the claim of the new one
  is in flight: the touch fails, as it must, but its continuation deletes the registry entry of the
  device, which by then is the new connection. In the end the store says that this instance holds
  the new connection, the registry has none, and nothing was done to the new socket.
\<close>

theorem overlapping_heartbeat_loses_agent:
  assumes "hub_distributed h" and "agent_of d h = Some old" and "0 < ttl"
    and "conn \<noteq> ow_connectionId (ac_owner old)" and "s \<noteq> ac_socket old"
    and "n = node_run ttl
      [StartAttach d u s conn, StartHeartbeat d (ac_socket old), RedisRuns t, RedisRuns t,
       ReplyArrives t uuid acc, ReplyArrives t uuid acc]
      \<lparr>nd_hub = h, nd_store = st, nd_sent = [], nd_replies = []\<rparr>"
  shows "holder t d (nd_store n) =
      Some \<lparr>ow_instanceId = hub_instanceId h, ow_connectionId = conn, ow_userId = u\<rparr> \<and>
    agent_of d (nd_hub n) = None \<and> hub_sockets (nd_hub n) s = hub_sockets h s"
proof -
  let ?ow = "\<lparr>ow_instanceId = hub_instanceId h, ow_connectionId = conn, ow_userId = u\<rparr>"
  obtain p st1 where c: "claimPresence ttl t d ?ow st = (p, st1)" by force
  have st1: "holder t d st1 = Some ?ow"
    using redis.get_claim [of t t d ttl d ?ow st] c assms(3) by simp
  have ne: "ac_owner old \<noteq> ?ow"
    using assms(4) by auto
  then have touch: "touchPresence ttl t d (ac_owner old) st1 = (False, st1)"
    using st1 by (simp add: touchPresence_def)
  let ?h1 = "attachAgent_finish (Some old) ?ow p d s t uuid acc h"
  have n: "n = \<lparr>nd_hub = snd (heartbeat_finish d old False t ?h1), nd_store = st1, nd_sent = [], nd_replies = []\<rparr>"
    using assms(2) unfolding assms(6)
    by (simp add: node_run_def attachAgent_begin_def heartbeat_begin_def c touch)
  have "hub_distributed ?h1" and "hub_sockets ?h1 s = hub_sockets h s"
    using assms(1,5) by (auto simp: attachAgent_finish_def publishBestEffort_def Let_def split: option.split)
  then show ?thesis
    using st1 assms(5) by (simp add: n heartbeat_finish_def)
qed

theorem overlapping_heartbeat_loses_agent_witness:
  "let old = \<lparr>ac_owner = \<lparr>ow_instanceId = ''i'', ow_connectionId = ''c1'', ow_userId = ''u''\<rparr>, ac_socket = 1,
              ac_deviceId = ''d'', ac_lastHeartbeatAt = 0\<rparr>;
       h = (fresh_hub ''i'' (\<lambda>s. open_socket))\<lparr>hub_distributed := True, hub_agents := [(''d'', old)]\<rparr>;
       n = node_run 45000 [StartAttach ''d'' ''u'' 2 ''c2'', StartHeartbeat ''d'' (ac_socket old), RedisRuns 5, RedisRuns 5,
         ReplyArrives 5 ''x'' True, ReplyArrives 5 ''x'' True]
         \<lparr>nd_hub = h, nd_store = [(''d'', ac_owner old, 100)], nd_sent = [], nd_replies = []\<rparr>
   in agent_of ''d'' (nd_hub n) = None \<and> hub_sockets (nd_hub n) 2 = open_socket"
proof -
  let ?old = "\<lparr>ac_owner = \<lparr>ow_instanceId = ''i'', ow_connectionId = ''c1'', ow_userId = ''u''\<rparr>, ac_socket = 1,
              ac_deviceId = ''d'', ac_lastHeartbeatAt = 0\<rparr> :: agent_connection"
  let ?h = "(fresh_hub ''i'' (\<lambda>s. open_socket))\<lparr>hub_distributed := True, hub_agents := [(''d'', ?old)]\<rparr>"
  have "hub_distributed ?h" "agent_of ''d'' ?h = Some ?old" "hub_sockets ?h 2 = open_socket"
    by (simp_all add: fresh_hub_def agent_of_def)
  then show ?thesis
    using overlapping_heartbeat_loses_agent [of ?h "''d''" ?old 45000 "''c2''" 2 _ "''u''" 5 "''x''" True
        "[(''d'', ac_owner ?old, 100)]", OF _ _ _ _ _ refl]
    unfolding Let_def by auto
qed

end
