(* ===== verification/Schema.thy ===== *)
theory Schema
  imports Domain "HOL-Library.Monad_Syntax"
begin

section \<open>Schemas of JSON values\<close>

text \<open>
  What the source uses of the schema library, as parsers: a schema reads a property that may be
  missing (\<open>None\<close> is JavaScript's \<open>undefined\<close>) and yields the parsed value, or \<open>None\<close> when the value
  does not match. An object schema reads the properties it names and drops the others; a strict one
  rejects them.
\<close>

type_synonym 'a schema = "json option \<Rightarrow> 'a option"
type_synonym properties = "(string \<times> json) list"

fun zs_string :: "string schema" where
  "zs_string (Some (JStr s)) = Some s"
| "zs_string _ = None"

fun zs_boolean :: "bool schema" where
  "zs_boolean (Some (JBool b)) = Some b"
| "zs_boolean _ = None"

fun zs_number :: "int schema" where
  "zs_number (Some (JNum n)) = Some n"
| "zs_number _ = None"

fun zs_array :: "'a schema \<Rightarrow> 'a list schema" where
  "zs_array s (Some (JArr js)) = those (map (\<lambda>j. s (Some j)) js)"
| "zs_array s _ = None"

fun zs_object :: "(properties \<Rightarrow> 'a option) \<Rightarrow> 'a schema" where
  "zs_object f (Some (JObj ps)) = f ps"
| "zs_object f _ = None"

definition zs_strict :: "string list \<Rightarrow> (properties \<Rightarrow> 'a option) \<Rightarrow> properties \<Rightarrow> 'a option" where
  "zs_strict names f ps = (if fst ` set ps \<subseteq> set names then f ps else None)"

definition zs_field :: "string \<Rightarrow> 'a schema \<Rightarrow> properties \<Rightarrow> 'a option" where
  "zs_field name s ps = s (map_of ps name)"

definition zs_refine :: "('a \<Rightarrow> bool) \<Rightarrow> 'a schema \<Rightarrow> 'a schema" where
  "zs_refine P s j = (case s j of None \<Rightarrow> None | Some x \<Rightarrow> if P x then Some x else None)"

definition zs_transform :: "('a \<Rightarrow> 'b) \<Rightarrow> 'a schema \<Rightarrow> 'b schema" where
  "zs_transform f s j = map_option f (s j)"

fun zs_optional :: "'a schema \<Rightarrow> 'a option schema" where
  "zs_optional s None = Some None"
| "zs_optional s (Some j) = map_option Some (s (Some j))"

fun zs_default :: "'a \<Rightarrow> 'a schema \<Rightarrow> 'a schema" where
  "zs_default d s None = Some d"
| "zs_default d s (Some j) = s (Some j)"

text \<open>A nullable value, read and written; the names of an enumeration; a time in its written form.\<close>

definition zs_nullable :: "'a schema \<Rightarrow> 'a option schema" where
  "zs_nullable s j = (if j = Some JNull then Some None else map_option Some (s j))"

fun nullable :: "('a \<Rightarrow> json) \<Rightarrow> 'a option \<Rightarrow> json" where
  "nullable f None = JNull"
| "nullable f (Some x) = f x"

definition zs_named :: "('a \<Rightarrow> string) \<Rightarrow> 'a list \<Rightarrow> 'a schema" where
  "zs_named name values j = (case zs_string j of None \<Rightarrow> None | Some s \<Rightarrow> List.find (\<lambda>v. name v = s) values)"

fun zs_datetime :: "ms schema" where
  "zs_datetime (Some (JDate t)) = Some t"
| "zs_datetime _ = None"

text \<open>The chains the source uses most: a length range, after trimming or not, and a number range.\<close>

definition zs_length :: "nat \<Rightarrow> nat \<Rightarrow> 'a list schema \<Rightarrow> 'a list schema" where
  "zs_length lo hi s = zs_refine (\<lambda>x. lo \<le> length x \<and> length x \<le> hi) s"

definition zs_trimmed :: "nat \<Rightarrow> nat \<Rightarrow> string schema" where
  "zs_trimmed lo hi = zs_length lo hi (zs_transform js_trim zs_string)"

definition zs_text :: "nat \<Rightarrow> nat \<Rightarrow> string schema" where
  "zs_text lo hi = zs_length lo hi zs_string"

definition zs_range :: "int \<Rightarrow> int \<Rightarrow> int schema \<Rightarrow> int schema" where
  "zs_range lo hi s = zs_refine (\<lambda>n. lo \<le> n \<and> n \<le> hi) s"

definition zs_enum :: "string list \<Rightarrow> string schema" where
  "zs_enum xs = zs_refine (\<lambda>s. s \<in> set xs) zs_string"

text \<open>
  \<open>z.coerce.number().int()\<close>: \<open>Number\<close> of the value, when that is integral. \<open>num\<close> is \<open>Number\<close> on strings.
\<close>

definition zs_coerce :: "(string \<Rightarrow> int option) \<Rightarrow> int schema" where
  "zs_coerce num j = (case j of Some (JStr s) \<Rightarrow> num s | Some (JNum n) \<Rightarrow> Some n
     | Some (JBool b) \<Rightarrow> Some (of_bool b) | Some JNull \<Rightarrow> Some 0 | _ \<Rightarrow> None)"

lemmas zs_defs = zs_field_def zs_refine_def zs_transform_def zs_length_def zs_trimmed_def zs_text_def
  zs_range_def zs_enum_def

subsection \<open>What a parsed value satisfies\<close>

lemma zs_refine_SomeD: "zs_refine P s j = Some x \<Longrightarrow> P x \<and> s j = Some x"
  by (auto simp: zs_refine_def split: option.splits if_splits)

lemma zs_length_SomeD: "zs_length lo hi s j = Some x \<Longrightarrow> lo \<le> length x \<and> length x \<le> hi"
  by (auto simp: zs_length_def dest: zs_refine_SomeD)

lemma zs_trimmed_SomeD: "zs_trimmed lo hi j = Some x \<Longrightarrow> lo \<le> length x \<and> length x \<le> hi"
  by (auto simp: zs_trimmed_def dest: zs_length_SomeD)

lemma zs_text_SomeD: "zs_text lo hi j = Some x \<Longrightarrow> lo \<le> length x \<and> length x \<le> hi"
  by (auto simp: zs_text_def dest: zs_length_SomeD)

lemma zs_range_SomeD: "zs_range lo hi s j = Some n \<Longrightarrow> lo \<le> n \<and> n \<le> hi"
  by (auto simp: zs_range_def dest: zs_refine_SomeD)

lemma zs_default_SomeD: "zs_default d s j = Some x \<Longrightarrow> x = d \<or> s j = Some x"
  by (cases j) auto

lemma zs_optional_SomeD: "zs_optional s j = Some (Some x) \<Longrightarrow> s j = Some x"
  by (cases j) auto

lemma zs_default_range: "zs_default d (zs_range lo hi s) j = Some n \<Longrightarrow> lo \<le> d \<Longrightarrow> d \<le> hi \<Longrightarrow> lo \<le> n \<and> n \<le> hi"
  by (auto dest!: zs_default_SomeD zs_range_SomeD)

end
