(* ===== verification/Wire.thy ===== *)
theory Wire
  imports Schema
begin

section \<open>The messages as JSON\<close>

text \<open>
  \<open>packages/protocol/src/index.ts\<close>: \<open>createMessage\<close>, the envelope around a payload, and the four schemas
  that read a message back. The payloads are written as the server and the browser write them.
\<close>

definition createMessage :: "ident \<Rightarrow> ms \<Rightarrow> string \<times> properties \<Rightarrow> json" where
  "createMessage requestId now message =
     JObj [(''version'', JNum PROTOCOL_VERSION), (''type'', JStr (fst message)), (''requestId'', JStr requestId),
       (''timestamp'', JDate now), (''payload'', JObj (snd message))]"

definition envelope_schema :: "(string \<Rightarrow> bool) \<Rightarrow> (properties \<Rightarrow> 'a option) \<Rightarrow> properties \<Rightarrow> 'a option" where
  "envelope_schema uuid payload ps = do {
     _ \<leftarrow> zs_field ''version'' (zs_refine (\<lambda>v. v = PROTOCOL_VERSION) zs_number) ps;
     _ \<leftarrow> zs_field ''requestId'' (zs_refine uuid zs_string) ps;
     _ \<leftarrow> zs_field ''timestamp'' zs_datetime ps;
     zs_field ''payload'' (zs_object payload) ps
   }"

definition discriminatedUnion :: "(string \<Rightarrow> bool) \<Rightarrow> (string \<times> (properties \<Rightarrow> 'a option)) list \<Rightarrow> 'a schema" where
  "discriminatedUnion uuid branches = zs_object (\<lambda>ps. do {
     tag \<leftarrow> zs_field ''type'' zs_string ps;
     payload \<leftarrow> map_of branches tag;
     envelope_schema uuid payload ps
   })"

definition optional_field :: "string \<Rightarrow> ('a \<Rightarrow> json) \<Rightarrow> 'a option \<Rightarrow> properties" where
  "optional_field name f x = (case x of None \<Rightarrow> [] | Some v \<Rightarrow> [(name, f v)])"

definition id_field :: "(string \<Rightarrow> bool) \<Rightarrow> string \<Rightarrow> properties \<Rightarrow> string option" where
  "id_field uuid name = zs_field name (zs_refine uuid zs_string)"

definition jobStatusSchema :: "job_status schema" where
  "jobStatusSchema = zs_named status_name [Queued, Dispatched, Running, WaitingForInput, Completed, Failed, Cancelled, Disconnected]"

definition outputStreamSchema :: "output_stream schema" where
  "outputStreamSchema = zs_named stream_name [Stdout, Stderr, SystemStream]"

definition minimum :: "int \<Rightarrow> int schema" where
  "minimum lo = zs_refine (\<lambda>n. lo \<le> n) zs_number"

definition chunk_payload :: "out_chunk \<Rightarrow> properties" where
  "chunk_payload c = [(''sequence'', JNum (oc_sequence c)), (''stream'', JStr (stream_name (oc_stream c))), (''data'', JStr (oc_data c))]"

definition chunk_schema :: "properties \<Rightarrow> out_chunk option" where
  "chunk_schema ps = do {
     sequence \<leftarrow> zs_field ''sequence'' (minimum 0) ps;
     stream \<leftarrow> zs_field ''stream'' outputStreamSchema ps;
     data \<leftarrow> zs_field ''data'' (zs_text 0 MAX_OUTPUT_CHUNK_BYTES) ps;
     Some \<lparr>oc_sequence = sequence, oc_stream = stream, oc_data = data\<rparr>
   }"

subsection \<open>From the agent\<close>

fun agent_message :: "agent_to_server \<Rightarrow> string \<times> properties" where
  "agent_message (AgentHello h) = (''agent.hello'', [(''deviceId'', JStr (ah_deviceId h)), (''name'', JStr (ah_name h)),
     (''platform'', JStr (ah_platform h)), (''architecture'', JStr (ah_architecture h)), (''agentVersion'', JStr (ah_agentVersion h)),
     (''protocolVersions'', JArr (map JNum (ah_protocolVersions h))), (''runningJobIds'', JArr (map JStr (ah_runningJobIds h)))])"
| "agent_message (AgentHeartbeat d) = (''agent.heartbeat'', [(''deviceId'', JStr d)])"
| "agent_message (AgentStatus d status detail) =
     (''agent.status'', [(''deviceId'', JStr d), (''status'', JStr (device_status_name status))] @ optional_field ''detail'' JStr detail)"
| "agent_message (ValidationResult r) = (''repository.validation.result'',
     [(''repositoryId'', JStr (vr_repositoryId r)), (''valid'', JBool (vr_valid r)), (''isGitRepository'', JBool (vr_isGitRepository r))] @
     optional_field ''canonicalPath'' JStr (vr_canonicalPath r) @ optional_field ''repositoryRoot'' JStr (vr_repositoryRoot r) @
     optional_field ''branch'' JStr (vr_branch r) @ optional_field ''error'' JStr (vr_error r))"
| "agent_message (JobAccepted j) = (''job.accepted'', [(''jobId'', JStr j)])"
| "agent_message (JobStarted j pid) = (''job.started'', [(''jobId'', JStr j)] @ optional_field ''pid'' JNum pid)"
| "agent_message (JobOutput j c) = (''job.output'', (''jobId'', JStr j) # chunk_payload c)"
| "agent_message (JobStatusReport j status detail) =
     (''job.status'', [(''jobId'', JStr j), (''status'', JStr (status_name status))] @ optional_field ''detail'' JStr detail)"
| "agent_message (JobCompleted j code) = (''job.completed'', [(''jobId'', JStr j), (''exitCode'', JNum code)])"
| "agent_message (JobFailed j e code) = (''job.failed'', [(''jobId'', JStr j), (''error'', JStr e)] @ optional_field ''exitCode'' JNum code)"
| "agent_message (JobCancelled j) = (''job.cancelled'', [(''jobId'', JStr j)])"
| "agent_message (JobInputAcknowledged j n) = (''job.input.acknowledged'', [(''jobId'', JStr j), (''inputSequence'', JNum n)])"
| "agent_message (JobBufferSync j chunks) =
     (''job.buffer.sync'', [(''jobId'', JStr j), (''chunks'', JArr (map (\<lambda>c. JObj (chunk_payload c)) chunks))])"

definition job_ref :: "(string \<Rightarrow> bool) \<Rightarrow> (string \<Rightarrow> properties \<Rightarrow> 'a option) \<Rightarrow> properties \<Rightarrow> 'a option" where
  "job_ref uuid others ps = do { jobId \<leftarrow> id_field uuid ''jobId'' ps; others jobId ps }"

definition hello_schema :: "(string \<Rightarrow> bool) \<Rightarrow> properties \<Rightarrow> agent_to_server option" where
  "hello_schema uuid ps = do {
     deviceId \<leftarrow> id_field uuid ''deviceId'' ps;
     name \<leftarrow> zs_field ''name'' (zs_text 1 100) ps;
     platform \<leftarrow> zs_field ''platform'' (zs_text 1 50) ps;
     architecture \<leftarrow> zs_field ''architecture'' (zs_text 1 50) ps;
     agentVersion \<leftarrow> zs_field ''agentVersion'' (zs_text 1 50) ps;
     protocolVersions \<leftarrow> zs_field ''protocolVersions''
       (zs_refine (\<lambda>xs. 1 \<le> length xs) (zs_array (zs_refine (\<lambda>v. v = PROTOCOL_VERSION) zs_number))) ps;
     runningJobIds \<leftarrow> zs_field ''runningJobIds'' (zs_length 0 100 (zs_array (zs_refine uuid zs_string))) ps;
     Some (AgentHello \<lparr>ah_deviceId = deviceId, ah_name = name, ah_platform = platform, ah_architecture = architecture,
       ah_agentVersion = agentVersion, ah_protocolVersions = protocolVersions, ah_runningJobIds = runningJobIds\<rparr>)
   }"

definition validation_schema :: "(string \<Rightarrow> bool) \<Rightarrow> properties \<Rightarrow> agent_to_server option" where
  "validation_schema uuid ps = do {
     repositoryId \<leftarrow> id_field uuid ''repositoryId'' ps;
     valid \<leftarrow> zs_field ''valid'' zs_boolean ps;
     canonicalPath \<leftarrow> zs_field ''canonicalPath'' (zs_optional (zs_text 0 4096)) ps;
     repositoryRoot \<leftarrow> zs_field ''repositoryRoot'' (zs_optional (zs_text 0 4096)) ps;
     isGitRepository \<leftarrow> zs_field ''isGitRepository'' zs_boolean ps;
     branch \<leftarrow> zs_field ''branch'' (zs_optional (zs_text 0 500)) ps;
     error \<leftarrow> zs_field ''error'' (zs_optional (zs_text 0 1000)) ps;
     Some (ValidationResult \<lparr>vr_repositoryId = repositoryId, vr_valid = valid, vr_canonicalPath = canonicalPath,
       vr_repositoryRoot = repositoryRoot, vr_isGitRepository = isGitRepository, vr_branch = branch, vr_error = error\<rparr>)
   }"

definition agentToServerMessageSchema :: "(string \<Rightarrow> bool) \<Rightarrow> agent_to_server schema" where
  "agentToServerMessageSchema uuid = discriminatedUnion uuid
     [(''agent.hello'', hello_schema uuid),
      (''agent.heartbeat'', \<lambda>ps. map_option AgentHeartbeat (id_field uuid ''deviceId'' ps)),
      (''agent.status'', \<lambda>ps. do {
         deviceId \<leftarrow> id_field uuid ''deviceId'' ps;
         status \<leftarrow> zs_field ''status'' (zs_named device_status_name [Online, Offline]) ps;
         detail \<leftarrow> zs_field ''detail'' (zs_optional (zs_text 0 500)) ps;
         Some (AgentStatus deviceId status detail) }),
      (''repository.validation.result'', validation_schema uuid),
      (''job.accepted'', job_ref uuid (\<lambda>j ps. Some (JobAccepted j))),
      (''job.started'', job_ref uuid (\<lambda>j ps. do {
         pid \<leftarrow> zs_field ''pid'' (zs_optional (minimum 1)) ps;
         Some (JobStarted j pid) })),
      (''job.output'', job_ref uuid (\<lambda>j ps. map_option (JobOutput j) (chunk_schema ps))),
      (''job.status'', job_ref uuid (\<lambda>j ps. do {
         status \<leftarrow> zs_field ''status'' jobStatusSchema ps;
         detail \<leftarrow> zs_field ''detail'' (zs_optional (zs_text 0 1000)) ps;
         Some (JobStatusReport j status detail) })),
      (''job.completed'', job_ref uuid (\<lambda>j ps. map_option (JobCompleted j) (zs_field ''exitCode'' zs_number ps))),
      (''job.failed'', job_ref uuid (\<lambda>j ps. do {
         error \<leftarrow> zs_field ''error'' (zs_text 1 2000) ps;
         exitCode \<leftarrow> zs_field ''exitCode'' (zs_optional zs_number) ps;
         Some (JobFailed j error exitCode) })),
      (''job.cancelled'', job_ref uuid (\<lambda>j ps. Some (JobCancelled j))),
      (''job.input.acknowledged'', job_ref uuid (\<lambda>j ps. map_option (JobInputAcknowledged j) (zs_field ''inputSequence'' (minimum 0) ps))),
      (''job.buffer.sync'', job_ref uuid (\<lambda>j ps. map_option (JobBufferSync j)
         (zs_field ''chunks'' (zs_length 0 1000 (zs_array (zs_object chunk_schema))) ps)))]"

subsection \<open>To the agent\<close>

fun server_message :: "server_to_agent \<Rightarrow> string \<times> properties" where
  "server_message (AgentWelcome d interval serverTime) =
     (''agent.welcome'', [(''deviceId'', JStr d), (''heartbeatIntervalMs'', JNum interval), (''serverTime'', JDate serverTime)])"
| "server_message (RepositoryValidate r path) = (''repository.validate'', [(''repositoryId'', JStr r), (''absolutePath'', JStr path)])"
| "server_message (JobStart s) = (''job.start'', [(''jobId'', JStr (js_jobId s)), (''repositoryId'', JStr (js_repositoryId s)),
     (''repositoryPath'', JStr (js_repositoryPath s)), (''command'', JStr (js_command s)),
     (''workingDirectory'', JStr (js_workingDirectory s)), (''interactive'', JBool (js_interactive s)),
     (''persistent'', JBool (js_persistent s)), (''shell'', JStr (js_shell s)), (''shellArgs'', JArr (map JStr (js_shellArgs s))),
     (''inheritedEnvironment'', JArr (map JStr (js_inheritedEnvironment s))), (''columns'', JNum (js_columns s)), (''rows'', JNum (js_rows s))])"
| "server_message (JobInput j n data) = (''job.input'', [(''jobId'', JStr j), (''inputSequence'', JNum n), (''data'', JStr data)])"
| "server_message (JobResize j columns rows) = (''job.resize'', [(''jobId'', JStr j), (''columns'', JNum columns), (''rows'', JNum rows)])"
| "server_message (JobCancel j) = (''job.cancel'', [(''jobId'', JStr j)])"
| "server_message (JobBufferRequest j after) = (''job.buffer.request'', [(''jobId'', JStr j), (''afterSequence'', JNum after)])"

definition size_schema :: "properties \<Rightarrow> (int \<times> int) option" where
  "size_schema ps = do {
     columns \<leftarrow> zs_field ''columns'' (zs_range 10 1000 zs_number) ps;
     rows \<leftarrow> zs_field ''rows'' (zs_range 2 1000 zs_number) ps;
     Some (columns, rows)
   }"

definition input_schema :: "properties \<Rightarrow> (int \<times> string) option" where
  "input_schema ps = do {
     inputSequence \<leftarrow> zs_field ''inputSequence'' (minimum 0) ps;
     data \<leftarrow> zs_field ''data'' (zs_text 0 (64 * 1024)) ps;
     Some (inputSequence, data)
   }"

definition start_schema :: "(string \<Rightarrow> bool) \<Rightarrow> properties \<Rightarrow> server_to_agent option" where
  "start_schema uuid ps = do {
     jobId \<leftarrow> id_field uuid ''jobId'' ps;
     repositoryId \<leftarrow> id_field uuid ''repositoryId'' ps;
     repositoryPath \<leftarrow> zs_field ''repositoryPath'' (zs_text 1 4096) ps;
     command \<leftarrow> zs_field ''command'' (zs_text 1 MAX_COMMAND_BYTES) ps;
     workingDirectory \<leftarrow> zs_field ''workingDirectory'' (zs_text 0 4096) ps;
     interactive \<leftarrow> zs_field ''interactive'' zs_boolean ps;
     persistent \<leftarrow> zs_field ''persistent'' zs_boolean ps;
     shell \<leftarrow> zs_field ''shell'' (zs_text 1 4096) ps;
     shellArgs \<leftarrow> zs_field ''shellArgs'' (zs_length 0 20 (zs_array (zs_text 0 1000))) ps;
     inheritedEnvironment \<leftarrow> zs_field ''inheritedEnvironment'' (zs_length 0 100 (zs_array (zs_text 0 200))) ps;
     (columns, rows) \<leftarrow> size_schema ps;
     Some (JobStart \<lparr>js_jobId = jobId, js_repositoryId = repositoryId, js_repositoryPath = repositoryPath, js_command = command,
       js_workingDirectory = workingDirectory, js_interactive = interactive, js_persistent = persistent, js_shell = shell,
       js_shellArgs = shellArgs, js_inheritedEnvironment = inheritedEnvironment, js_columns = columns, js_rows = rows\<rparr>)
   }"

definition serverToAgentMessageSchema :: "(string \<Rightarrow> bool) \<Rightarrow> server_to_agent schema" where
  "serverToAgentMessageSchema uuid = discriminatedUnion uuid
     [(''agent.welcome'', \<lambda>ps. do {
         deviceId \<leftarrow> id_field uuid ''deviceId'' ps;
         heartbeatIntervalMs \<leftarrow> zs_field ''heartbeatIntervalMs'' (minimum 1000) ps;
         serverTime \<leftarrow> zs_field ''serverTime'' zs_datetime ps;
         Some (AgentWelcome deviceId heartbeatIntervalMs serverTime) }),
      (''repository.validate'', \<lambda>ps. do {
         repositoryId \<leftarrow> id_field uuid ''repositoryId'' ps;
         absolutePath \<leftarrow> zs_field ''absolutePath'' (zs_text 1 4096) ps;
         Some (RepositoryValidate repositoryId absolutePath) }),
      (''job.start'', start_schema uuid),
      (''job.input'', job_ref uuid (\<lambda>j ps. map_option (\<lambda>(n, data). JobInput j n data) (input_schema ps))),
      (''job.resize'', job_ref uuid (\<lambda>j ps. map_option (\<lambda>(columns, rows). JobResize j columns rows) (size_schema ps))),
      (''job.cancel'', job_ref uuid (\<lambda>j ps. Some (JobCancel j))),
      (''job.buffer.request'', job_ref uuid (\<lambda>j ps. map_option (JobBufferRequest j) (zs_field ''afterSequence'' (minimum (- 1)) ps)))]"

subsection \<open>To and from the browser\<close>

fun client_message :: "server_to_client \<Rightarrow> string \<times> properties" where
  "client_message (ClientDeviceStatus d status lastSeenAt) =
     (''device.status'', [(''deviceId'', JStr d), (''status'', JStr (device_status_name status)), (''lastSeenAt'', JDate lastSeenAt)])"
| "client_message (ClientJobStatus j status code) =
     (''job.status'', [(''jobId'', JStr j), (''status'', JStr (status_name status))] @ optional_field ''exitCode'' (nullable JNum) code)"
| "client_message (ClientJobOutput j c) = (''job.output'', (''jobId'', JStr j) # chunk_payload c)"
| "client_message (ClientJobCompleted j code) = (''job.completed'', [(''jobId'', JStr j), (''exitCode'', JNum code)])"
| "client_message (ClientJobFailed j e code) =
     (''job.failed'', [(''jobId'', JStr j), (''error'', JStr e)] @ optional_field ''exitCode'' (nullable JNum) code)"

definition serverToClientMessageSchema :: "(string \<Rightarrow> bool) \<Rightarrow> server_to_client schema" where
  "serverToClientMessageSchema uuid = discriminatedUnion uuid
     [(''device.status'', \<lambda>ps. do {
         deviceId \<leftarrow> id_field uuid ''deviceId'' ps;
         status \<leftarrow> zs_field ''status'' (zs_named device_status_name [Online, Offline, Revoked]) ps;
         lastSeenAt \<leftarrow> zs_field ''lastSeenAt'' zs_datetime ps;
         Some (ClientDeviceStatus deviceId status lastSeenAt) }),
      (''job.status'', job_ref uuid (\<lambda>j ps. do {
         status \<leftarrow> zs_field ''status'' jobStatusSchema ps;
         exitCode \<leftarrow> zs_field ''exitCode'' (zs_optional (zs_nullable zs_number)) ps;
         Some (ClientJobStatus j status exitCode) })),
      (''job.output'', job_ref uuid (\<lambda>j ps. map_option (ClientJobOutput j) (chunk_schema ps))),
      (''job.completed'', job_ref uuid (\<lambda>j ps. map_option (ClientJobCompleted j) (zs_field ''exitCode'' zs_number ps))),
      (''job.failed'', job_ref uuid (\<lambda>j ps. do {
         error \<leftarrow> zs_field ''error'' (zs_text 0 2000) ps;
         exitCode \<leftarrow> zs_field ''exitCode'' (zs_optional (zs_nullable zs_number)) ps;
         Some (ClientJobFailed j error exitCode) }))]"

fun browser_message :: "client_to_server \<Rightarrow> string \<times> properties" where
  "browser_message (JobSubscribe j after) = (''job.subscribe'', [(''jobId'', JStr j), (''afterSequence'', JNum after)])"
| "browser_message (JobUnsubscribe j) = (''job.unsubscribe'', [(''jobId'', JStr j)])"
| "browser_message (ClientJobInput j n data) = (''job.input'', [(''jobId'', JStr j), (''inputSequence'', JNum n), (''data'', JStr data)])"
| "browser_message (ClientJobResize j columns rows) = (''job.resize'', [(''jobId'', JStr j), (''columns'', JNum columns), (''rows'', JNum rows)])"
| "browser_message (ClientJobCancel j) = (''job.cancel'', [(''jobId'', JStr j)])"

definition clientToServerMessageSchema :: "(string \<Rightarrow> bool) \<Rightarrow> client_to_server schema" where
  "clientToServerMessageSchema uuid = discriminatedUnion uuid
     [(''job.subscribe'', job_ref uuid (\<lambda>j ps. map_option (JobSubscribe j) (zs_field ''afterSequence'' (zs_default (- 1) (minimum (- 1))) ps))),
      (''job.unsubscribe'', job_ref uuid (\<lambda>j ps. Some (JobUnsubscribe j))),
      (''job.input'', job_ref uuid (\<lambda>j ps. map_option (\<lambda>(n, data). ClientJobInput j n data) (input_schema ps))),
      (''job.resize'', job_ref uuid (\<lambda>j ps. map_option (\<lambda>(columns, rows). ClientJobResize j columns rows) (size_schema ps))),
      (''job.cancel'', job_ref uuid (\<lambda>j ps. Some (ClientJobCancel j)))]"

subsection \<open>Round trips\<close>

lemma zs_array_map:
  assumes "\<And>x. s (Some (f x)) = (if P x then Some x else None)"
  shows "zs_array s (Some (JArr (map f xs))) = (if list_all P xs then Some xs else None)"
  using assms by (induction xs) (auto split: option.splits)

lemma chunk_round_trip:
  "chunk_schema (chunk_payload c) = (if valid_chunk c then Some c else None)"
  "chunk_schema ((''jobId'', x) # chunk_payload c) = (if valid_chunk c then Some c else None)"
  by (cases "oc_stream c"; simp add: chunk_schema_def chunk_payload_def minimum_def outputStreamSchema_def zs_named_def zs_defs
      valid_chunk_def z_string_def)+

lemma array_round_trips [simp]:
  "zs_array (zs_refine uuid zs_string) (Some (JArr (map JStr xs))) = (if list_all uuid xs then Some xs else None)"
  "zs_array (zs_refine (\<lambda>v. v = PROTOCOL_VERSION) zs_number) (Some (JArr (map JNum vs))) =
     (if list_all (\<lambda>v. v = PROTOCOL_VERSION) vs then Some vs else None)"
  "zs_array (zs_text lo hi) (Some (JArr (map JStr xs))) = (if list_all (z_string lo hi) xs then Some xs else None)"
  "zs_array (zs_object chunk_schema) (Some (JArr (map (\<lambda>c. JObj (chunk_payload c)) cs))) = (if list_all valid_chunk cs then Some cs else None)"
  by (rule zs_array_map; simp add: zs_refine_def zs_text_def zs_length_def z_string_def chunk_round_trip)+

lemma envelope_round_trip:
  assumes "uuid requestId"
  shows "discriminatedUnion uuid branches (Some (createMessage requestId now (tag, payload))) =
    Option.bind (map_of branches tag) (\<lambda>schema. schema payload)"
  using assms by (cases "map_of branches tag") (simp_all add: discriminatedUnion_def createMessage_def envelope_schema_def zs_defs)

lemmas payload_defs = job_ref_def id_field_def optional_field_def minimum_def zs_nullable_def zs_named_def zs_field_def
  zs_length_def zs_range_def

lemma scalar_reads [simp]:
  "zs_refine P zs_string (Some (JStr s)) = (if P s then Some s else None)"
  "zs_refine Q zs_number (Some (JNum n)) = (if Q n then Some n else None)"
  "zs_text lo hi (Some (JStr s)) = (if z_string lo hi s then Some s else None)"
  "jobStatusSchema (Some (JStr (status_name st))) = Some st"
  by (simp_all add: zs_refine_def zs_text_def zs_length_def z_string_def) (cases st; simp add: jobStatusSchema_def zs_named_def)

lemma zs_refine_array: "zs_refine P (zs_array s) j = (case zs_array s j of None \<Rightarrow> None | Some x \<Rightarrow> if P x then Some x else None)"
  by (simp add: zs_refine_def)

lemma agent_round_trip:
  assumes "uuid requestId"
  shows "agentToServerMessageSchema uuid (Some (createMessage requestId now (agent_message m))) =
    (if valid_agent_to_server uuid m then Some m else None)"
proof (cases m)
  case (AgentStatus d st detail)
  then show ?thesis
    using assms by (cases st; cases detail; simp add: agentToServerMessageSchema_def envelope_round_trip payload_defs)
next
  case (ValidationResult r)
  then show ?thesis
    using assms
    by (cases "vr_canonicalPath r"; cases "vr_repositoryRoot r"; cases "vr_branch r"; cases "vr_error r";
        simp add: agentToServerMessageSchema_def validation_schema_def envelope_round_trip payload_defs)
qed (use assms in \<open>auto simp: agentToServerMessageSchema_def hello_schema_def envelope_round_trip chunk_round_trip payload_defs
  zs_refine_array z_string_def split: option.splits simp del: zs_array.simps\<close>)

lemma server_round_trip:
  assumes "uuid requestId"
  shows "serverToAgentMessageSchema uuid (Some (createMessage requestId now (server_message m))) =
    (if valid_server_to_agent uuid m then Some m else None)"
  using assms
  by (cases m) (auto simp: serverToAgentMessageSchema_def start_schema_def size_schema_def input_schema_def envelope_round_trip
    payload_defs zs_refine_array valid_size_def z_string_def simp del: zs_array.simps)

lemma client_round_trip:
  assumes "uuid requestId"
  shows "serverToClientMessageSchema uuid (Some (createMessage requestId now (client_message m))) =
    (if valid_server_to_client uuid m then Some m else None)"
proof (cases m)
  case (ClientDeviceStatus d st t)
  then show ?thesis
    using assms by (cases st) (simp_all add: serverToClientMessageSchema_def envelope_round_trip payload_defs)
next
  case (ClientJobStatus j st code)
  then show ?thesis
    using assms by (cases code; cases "the code"; simp add: serverToClientMessageSchema_def envelope_round_trip payload_defs)
next
  case (ClientJobFailed j e code)
  then show ?thesis
    using assms by (cases code; cases "the code"; simp add: serverToClientMessageSchema_def envelope_round_trip payload_defs)
qed (use assms in \<open>simp_all add: serverToClientMessageSchema_def envelope_round_trip chunk_round_trip payload_defs\<close>)

lemma browser_round_trip:
  assumes "uuid requestId"
  shows "clientToServerMessageSchema uuid (Some (createMessage requestId now (browser_message m))) =
    (if valid_client_to_server uuid m then Some m else None)"
  using assms
  by (cases m) (auto simp: clientToServerMessageSchema_def size_schema_def input_schema_def envelope_round_trip payload_defs
    valid_size_def z_string_def)

text \<open>
  C28. Messages survive the wire. In each of the four directions, reading what \<open>createMessage\<close> wrote
  gives back exactly the message that was sent, with missing and null fields told apart, when its
  fields are within the bounds of its schema; a message outside them is rejected and never altered.
\<close>

theorem messages_round_trip:
  assumes "uuid requestId"
  shows "(agentToServerMessageSchema uuid (Some (createMessage requestId now (agent_message a))) =
      (if valid_agent_to_server uuid a then Some a else None)) \<and>
    (serverToAgentMessageSchema uuid (Some (createMessage requestId now (server_message s))) =
      (if valid_server_to_agent uuid s then Some s else None)) \<and>
    (serverToClientMessageSchema uuid (Some (createMessage requestId now (client_message c))) =
      (if valid_server_to_client uuid c then Some c else None)) \<and>
    (clientToServerMessageSchema uuid (Some (createMessage requestId now (browser_message b))) =
      (if valid_client_to_server uuid b then Some b else None))"
  using assms by (simp add: agent_round_trip server_round_trip client_round_trip browser_round_trip)

theorem messages_round_trip_witness:
  "serverToClientMessageSchema (\<lambda>s. s = ''id'') (Some (createMessage ''id'' 5 (client_message (ClientJobStatus ''id'' Failed (Some None))))) =
     Some (ClientJobStatus ''id'' Failed (Some None)) \<and>
   clientToServerMessageSchema (\<lambda>s. s = ''id'') (Some (createMessage ''id'' 5 (browser_message (ClientJobResize ''id'' 5 80)))) = None"
  using messages_round_trip [of "\<lambda>s. s = ''id''" "''id''" 5 "JobCancelled ''id''" "JobCancel ''id''"
      "ClientJobStatus ''id'' Failed (Some None)" "ClientJobResize ''id'' 5 80"]
  by (simp add: valid_size_def)

end
