(* ===== verification/Relay.thy ===== *)
theory Relay
  imports Presence Wire
begin

section \<open>The relay between instances\<close>

text \<open>
  The rest of \<open>ConnectionHub\<close> in \<open>services/connections.ts\<close>: its settings, the text of presence values and
  envelopes and the checks that read them back, the one connection to Redis that every operation
  shares, and the round trip of a message to an agent that another instance holds. A text is given as
  what \<open>JSON.parse\<close> makes of it, \<open>None\<close> when it throws.
\<close>

subsection \<open>Settings\<close>

definition RELAY_VERSION :: int where
  "RELAY_VERSION = 1"

definition DEFAULT_NAMESPACE :: string where
  "DEFAULT_NAMESPACE = ''relaydock''"

definition DEFAULT_PRESENCE_TTL_MS :: ms where
  "DEFAULT_PRESENCE_TTL_MS = 45000"

definition DEFAULT_REQUEST_TIMEOUT_MS :: ms where
  "DEFAULT_REQUEST_TIMEOUT_MS = 2000"

record hub_options =
  ho_redisUrl :: "string option"
  ho_namespace :: "string option"
  ho_presenceTtlMs :: "ms option"
  ho_requestTimeoutMs :: "ms option"
  ho_instanceId :: "string option"

record hub_settings =
  hs_redisUrl :: "string option"
  hs_namespace :: string
  hs_presenceTtlMs :: ms
  hs_instanceId :: ident
  hs_relayChannel :: string

text \<open>\<open>x?.trim() || d\<close>, and \<open>x ?? d\<close>.\<close>

definition trimmed_or :: "string option \<Rightarrow> string \<Rightarrow> string" where
  "trimmed_or x d = (case map_option js_trim x of None \<Rightarrow> d | Some s \<Rightarrow> if s = '''' then d else s)"

definition given_or :: "'a option \<Rightarrow> 'a \<Rightarrow> 'a" where
  "given_or x d = (case x of None \<Rightarrow> d | Some y \<Rightarrow> y)"

text \<open>The constructor: the settings that do not change, and the hub it starts with.\<close>

definition newConnectionHub :: "hub_options \<Rightarrow> ident \<Rightarrow> (sock \<Rightarrow> socket) \<Rightarrow> hub_settings \<times> hub" where
  "newConnectionHub options randomUUID socks =
     (let redisUrl = map_option js_trim (ho_redisUrl options);
          redisUrl = (if redisUrl = Some '''' then None else redisUrl);
          namespace = trimmed_or (ho_namespace options) DEFAULT_NAMESPACE;
          instanceId = trimmed_or (ho_instanceId options) randomUUID
      in (\<lparr>hs_redisUrl = redisUrl, hs_namespace = namespace,
            hs_presenceTtlMs = max 1000 (given_or (ho_presenceTtlMs options) DEFAULT_PRESENCE_TTL_MS),
            hs_instanceId = instanceId, hs_relayChannel = namespace @ '':connections:v1''\<rparr>,
          \<lparr>hub_instanceId = instanceId, hub_distributed = (redisUrl \<noteq> None),
            hub_requestTimeoutMs = max 100 (given_or (ho_requestTimeoutMs options) DEFAULT_REQUEST_TIMEOUT_MS),
            hub_agents = [], hub_clients = [], hub_pendingAcks = [], hub_ackResults = [], hub_sockets = socks,
            hub_published = [], hub_shuttingDown = False\<rparr>))"

definition presenceKey :: "hub_settings \<Rightarrow> ident \<Rightarrow> string" where
  "presenceKey settings deviceId = hs_namespace settings @ '':presence:device:'' @ deviceId"

lemma presenceKey_inj: "presenceKey settings d = presenceKey settings d' \<longleftrightarrow> d = d'"
  by (simp add: presenceKey_def)

subsection \<open>Presence values\<close>

definition owner_json :: "agent_owner \<Rightarrow> json" where
  "owner_json ow = JObj [(''instanceId'', JStr (ow_instanceId ow)), (''connectionId'', JStr (ow_connectionId ow)),
     (''userId'', JStr (ow_userId ow))]"

text \<open>\<open>isRecord\<close> is \<open>zs_object\<close>, the test of a property's type the schema of that type.\<close>

definition parseAgentOwner :: "json option option \<Rightarrow> agent_owner option" where
  "parseAgentOwner value =
     (case value of
        None \<Rightarrow> None
      | Some parsed \<Rightarrow> zs_object (\<lambda>ps. do {
          instanceId \<leftarrow> zs_field ''instanceId'' zs_string ps;
          connectionId \<leftarrow> zs_field ''connectionId'' zs_string ps;
          userId \<leftarrow> zs_field ''userId'' zs_string ps;
          Some \<lparr>ow_instanceId = instanceId, ow_connectionId = connectionId, ow_userId = userId\<rparr> }) parsed)"

lemma parseAgentOwner_owner_json [simp]: "parseAgentOwner (Some (Some (owner_json ow))) = Some ow"
  by (simp add: parseAgentOwner_def owner_json_def zs_defs)

text \<open>What a command of the Redis client comes to: it throws, or replies (a script's 1 is \<open>True\<close>).\<close>

datatype 'a command = Threw | Replied 'a

definition getAgentOwner :: "json option option \<Rightarrow> agent_owner option" where
  "getAgentOwner reply = parseAgentOwner reply"

definition isAgentOnline_shared :: "json option option command \<Rightarrow> ident \<Rightarrow> hub \<Rightarrow> bool" where
  "isAgentOnline_shared reply deviceId h =
     (if \<not> hub_distributed h then isLocalAgentOnline deviceId h
      else (case reply of Threw \<Rightarrow> False | Replied value \<Rightarrow> parseAgentOwner value \<noteq> None))"

definition touchConnection :: "bool command \<Rightarrow> bool" where
  "touchConnection reply = (case reply of Threw \<Rightarrow> False | Replied touched \<Rightarrow> touched)"

subsection \<open>Envelopes\<close>

definition validation_json :: "validation_result \<Rightarrow> json" where
  "validation_json r = JObj (snd (agent_message (ValidationResult r)))"

text \<open>
  The properties a publisher adds to the base. \<open>wrap\<close> is the message around a payload: the messages in an
  envelope keep the request identifier and the time they were made with.
\<close>

fun body_properties :: "(string \<times> properties \<Rightarrow> json) \<Rightarrow> envelope_body \<Rightarrow> properties" where
  "body_properties wrap (AgentSend corr deviceId expected message) = [(''kind'', JStr ''agent.send''), (''correlationId'', JStr corr),
     (''deviceId'', JStr deviceId), (''expectedConnectionId'', JStr expected), (''message'', wrap (server_message message))]"
| "body_properties wrap (AgentClose deviceId expected code reason) = [(''kind'', JStr ''agent.close''), (''deviceId'', JStr deviceId),
     (''expectedConnectionId'', JStr expected), (''code'', JNum code), (''reason'', JStr reason)]"
| "body_properties wrap (RelayAck corr sent) = [(''kind'', JStr ''relay.ack''), (''correlationId'', JStr corr), (''sent'', JBool sent)]"
| "body_properties wrap (ClientJob userId jobId message) = [(''kind'', JStr ''client.job''), (''userId'', JStr userId),
     (''jobId'', JStr jobId), (''message'', wrap (client_message message))]"
| "body_properties wrap (ClientDevice userId message) = [(''kind'', JStr ''client.device''), (''userId'', JStr userId),
     (''message'', wrap (client_message message))]"
| "body_properties wrap (ValidationResultEnv deviceId result) = [(''kind'', JStr ''validation.result''), (''deviceId'', JStr deviceId),
     (''result'', validation_json result)]"
| "body_properties wrap (ValidationCancelEnv deviceId) = [(''kind'', JStr ''validation.cancel''), (''deviceId'', JStr deviceId)]"

definition envelope_json :: "(string \<times> properties \<Rightarrow> json) \<Rightarrow> envelope \<Rightarrow> json" where
  "envelope_json wrap e = JObj
     ([(''relayVersion'', JNum RELAY_VERSION), (''id'', JStr (env_id (fst e))), (''sourceInstanceId'', JStr (env_source (fst e))),
       (''targetInstanceId'', nullable JStr (env_target (fst e))), (''createdAt'', JNum (env_createdAt (fst e))),
       (''expiresAt'', JNum (env_expiresAt (fst e)))] @ body_properties wrap (snd e))"

text \<open>
  \<open>isValidationResult\<close> looks at three properties and the others are cast unseen; they are read here when
  they are strings, as every publisher writes them.
\<close>

definition read_validation_result :: "validation_result schema" where
  "read_validation_result = zs_object (\<lambda>ps. do {
     repositoryId \<leftarrow> zs_field ''repositoryId'' zs_string ps;
     valid \<leftarrow> zs_field ''valid'' zs_boolean ps;
     isGitRepository \<leftarrow> zs_field ''isGitRepository'' zs_boolean ps;
     Some \<lparr>vr_repositoryId = repositoryId, vr_valid = valid, vr_canonicalPath = zs_field ''canonicalPath'' zs_string ps,
       vr_repositoryRoot = zs_field ''repositoryRoot'' zs_string ps, vr_isGitRepository = isGitRepository,
       vr_branch = zs_field ''branch'' zs_string ps, vr_error = zs_field ''error'' zs_string ps\<rparr> })"

definition envelope_kinds :: "(string \<Rightarrow> bool) \<Rightarrow> (string \<times> (properties \<Rightarrow> envelope_body option)) list" where
  "envelope_kinds uuid =
     [(''agent.send'', \<lambda>ps. do {
         message \<leftarrow> zs_field ''message'' (serverToAgentMessageSchema uuid) ps;
         correlationId \<leftarrow> zs_field ''correlationId'' zs_string ps;
         deviceId \<leftarrow> zs_field ''deviceId'' zs_string ps;
         expectedConnectionId \<leftarrow> zs_field ''expectedConnectionId'' zs_string ps;
         Some (AgentSend correlationId deviceId expectedConnectionId message) }),
      (''agent.close'', \<lambda>ps. do {
         deviceId \<leftarrow> zs_field ''deviceId'' zs_string ps;
         expectedConnectionId \<leftarrow> zs_field ''expectedConnectionId'' zs_string ps;
         code \<leftarrow> zs_field ''code'' zs_number ps;
         reason \<leftarrow> zs_field ''reason'' zs_string ps;
         Some (AgentClose deviceId expectedConnectionId code reason) }),
      (''relay.ack'', \<lambda>ps. do {
         correlationId \<leftarrow> zs_field ''correlationId'' zs_string ps;
         sent \<leftarrow> zs_field ''sent'' zs_boolean ps;
         Some (RelayAck correlationId sent) }),
      (''client.job'', \<lambda>ps. do {
         message \<leftarrow> zs_field ''message'' (serverToClientMessageSchema uuid) ps;
         userId \<leftarrow> zs_field ''userId'' zs_string ps;
         jobId \<leftarrow> zs_field ''jobId'' zs_string ps;
         Some (ClientJob userId jobId message) }),
      (''client.device'', \<lambda>ps. do {
         message \<leftarrow> zs_field ''message'' (serverToClientMessageSchema uuid) ps;
         userId \<leftarrow> zs_field ''userId'' zs_string ps;
         Some (ClientDevice userId message) }),
      (''validation.result'', \<lambda>ps. do {
         deviceId \<leftarrow> zs_field ''deviceId'' zs_string ps;
         result \<leftarrow> zs_field ''result'' read_validation_result ps;
         Some (ValidationResultEnv deviceId result) }),
      (''validation.cancel'', \<lambda>ps. map_option ValidationCancelEnv (zs_field ''deviceId'' zs_string ps))]"

definition parseRelayEnvelope :: "(string \<Rightarrow> bool) \<Rightarrow> json option \<Rightarrow> envelope option" where
  "parseRelayEnvelope uuid = zs_object (\<lambda>ps. do {
     _ \<leftarrow> zs_field ''relayVersion'' (zs_refine (\<lambda>v. v = RELAY_VERSION) zs_number) ps;
     id \<leftarrow> zs_field ''id'' zs_string ps;
     kind \<leftarrow> zs_field ''kind'' zs_string ps;
     source \<leftarrow> zs_field ''sourceInstanceId'' zs_string ps;
     target \<leftarrow> zs_field ''targetInstanceId'' (zs_nullable zs_string) ps;
     createdAt \<leftarrow> zs_field ''createdAt'' zs_number ps;
     expiresAt \<leftarrow> zs_field ''expiresAt'' zs_number ps;
     body \<leftarrow> map_of (envelope_kinds uuid) kind;
     content \<leftarrow> body ps;
     Some (\<lparr>env_id = id, env_source = source, env_target = target, env_createdAt = createdAt, env_expiresAt = expiresAt\<rparr>, content) })"

text \<open>The messages inside are read with their schemas, so an envelope is as good as its message.\<close>

fun valid_body :: "(string \<Rightarrow> bool) \<Rightarrow> envelope_body \<Rightarrow> bool" where
  "valid_body uuid (AgentSend corr deviceId expected message) = valid_server_to_agent uuid message"
| "valid_body uuid (ClientJob userId jobId message) = valid_server_to_client uuid message"
| "valid_body uuid (ClientDevice userId message) = valid_server_to_client uuid message"
| "valid_body uuid _ = True"

lemma read_validation_round_trip: "read_validation_result (Some (validation_json r)) = Some r"
  by (cases "vr_canonicalPath r"; cases "vr_repositoryRoot r"; cases "vr_branch r"; cases "vr_error r";
      simp add: read_validation_result_def validation_json_def optional_field_def zs_defs)

lemma envelope_read:
  assumes "uuid requestId"
  shows "parseRelayEnvelope uuid (Some (envelope_json (createMessage requestId now) e)) = (if valid_body uuid (snd e) then Some e else None)"
proof -
  obtain base body where e: "e = (base, body)"
    by (cases e)
  have target: "zs_nullable zs_string (Some (nullable JStr t)) = Some t" for t
    by (cases t) (simp_all add: zs_nullable_def)
  show ?thesis
    by (cases body)
      (simp_all add: e parseRelayEnvelope_def envelope_json_def envelope_kinds_def zs_field_def target read_validation_round_trip
        server_round_trip [where uuid = uuid, OF assms] client_round_trip [where uuid = uuid, OF assms])
qed

text \<open>
  \<open>redisMessageHandler\<close> and the start of \<open>handleRelayMessage\<close>: what arrives on another channel, or cannot be
  read, changes nothing. The segment ends where a message for an agent awaits the touch of its presence.
\<close>

definition receive_relay ::
  "(string \<Rightarrow> bool) \<Rightarrow> hub_settings \<Rightarrow> (ident \<Rightarrow> validation_result \<Rightarrow> 'b \<Rightarrow> bool option \<times> 'b) list \<Rightarrow> (ident \<Rightarrow> 'b \<Rightarrow> 'b) list \<Rightarrow>
    string \<Rightarrow> json option \<Rightarrow> ms \<Rightarrow> ident \<Rightarrow> bool \<Rightarrow> 'b \<times> hub \<Rightarrow> relay_resume option \<times> 'b \<times> hub" where
  "receive_relay uuid settings results cancels channel raw now ackId accepted s =
     (if channel \<noteq> hs_relayChannel settings \<or> hub_shuttingDown (snd s) then (None, s)
      else (case parseRelayEnvelope uuid raw of
              None \<Rightarrow> (None, s)
            | Some e \<Rightarrow> handleRelayMessage results cancels e now ackId accepted s))"

lemma receive_envelope:
  assumes "uuid requestId" and "valid_body uuid (snd e)"
  shows "receive_relay uuid settings results cancels (hs_relayChannel settings) (Some (envelope_json (createMessage requestId t) e)) now ackId accepted s =
    handleRelayMessage results cancels e now ackId accepted s"
  using assms
  by (cases s; cases "hub_shuttingDown (snd s)") (simp_all add: receive_relay_def envelope_read handleRelayMessage_def relay_ignored_def)

text \<open>
  C29. An envelope survives the relay. Reading the text of any envelope an instance publishes gives back that
  envelope, its target, times and message included, when the message in it is within the bounds of its
  schema, and drops it otherwise; so does the owner an agent's presence is stored under.
\<close>

theorem envelopes_round_trip:
  assumes "uuid requestId"
  shows "parseRelayEnvelope uuid (Some (envelope_json (createMessage requestId t) e)) = (if valid_body uuid (snd e) then Some e else None) \<and>
    parseAgentOwner (Some (Some (owner_json ow))) = Some ow"
  using assms by (simp add: envelope_read)

theorem envelopes_round_trip_witness:
  "parseRelayEnvelope (\<lambda>s. s = ''id'') (Some (envelope_json (createMessage ''id'' 5)
      (\<lparr>env_id = ''e'', env_source = ''a'', env_target = Some ''b'', env_createdAt = 5, env_expiresAt = 9\<rparr>, AgentSend ''c'' ''d'' ''k'' (JobCancel ''id'')))) =
    Some (\<lparr>env_id = ''e'', env_source = ''a'', env_target = Some ''b'', env_createdAt = 5, env_expiresAt = 9\<rparr>, AgentSend ''c'' ''d'' ''k'' (JobCancel ''id''))"
  using envelopes_round_trip [of "\<lambda>s. s = ''id''" "''id''" 5
      "(\<lparr>env_id = ''e'', env_source = ''a'', env_target = Some ''b'', env_createdAt = 5, env_expiresAt = 9\<rparr>, AgentSend ''c'' ''d'' ''k'' (JobCancel ''id''))"]
  by simp

subsection \<open>A message to an agent of another instance, there and back\<close>

text \<open>
  The whole exchange when nothing gets in its way: instance \<open>a\<close> publishes, \<open>b\<close> receives, touches the presence
  of the connection and sends, then publishes its answer, which \<open>a\<close> receives. Each step is at its own time.
\<close>

definition remote_exchange ::
  "(string \<Rightarrow> bool) \<Rightarrow> hub_settings \<Rightarrow> (string \<times> properties \<Rightarrow> json) \<Rightarrow> ident \<Rightarrow> agent_owner \<Rightarrow> server_to_agent \<Rightarrow> ident \<Rightarrow> ms \<times> ms \<times> ms \<Rightarrow>
    hub \<Rightarrow> hub \<Rightarrow> hub \<times> hub" where
  "remote_exchange uuid settings wrap deviceId owner message corr clock a b =
     (case clock of (t1, t2, t3) \<Rightarrow>
        (let a1 = sendToRemoteAgent_publish deviceId owner message corr t1 ''send'' True (sendToRemoteAgent_begin corr a)
         in (case receive_relay uuid settings [] [] (hs_relayChannel settings) (Some (envelope_json wrap (last (hub_published a1)))) t2 ''ack'' True ((), b) of
               (Some pending, _, b1) \<Rightarrow>
                 (let b2 = handleRelay_resume pending True t2 ''ack'' True b1
                  in (case receive_relay uuid settings [] [] (hs_relayChannel settings) (Some (envelope_json wrap (last (hub_published b2)))) t3 ''x'' True ((), a1) of
                        (_, _, a2) \<Rightarrow> (a2, b2)))
             | (None, _, b1) \<Rightarrow> (a1, b1))))"

text \<open>
  C17. A message to an agent of another instance arrives once and is acknowledged. When the owner in the
  shared presence is another running instance that holds the agent's open connection, and the relay
  delivers in time, publishing the message ends with exactly that message on exactly the agent's socket,
  and with the sender's promise settled with success and nothing left pending. Both envelopes go through
  their text.
\<close>

theorem remote_message_acknowledged:
  assumes "uuid requestId" and "valid_server_to_agent uuid message"
    and "hub_distributed a" "hub_distributed b" "\<not> hub_shuttingDown a" "\<not> hub_shuttingDown b"
    and "hub_instanceId a \<noteq> hub_instanceId b" "ow_instanceId owner = hub_instanceId b"
    and "agent_of deviceId b = Some c" "ow_connectionId (ac_owner c) = ow_connectionId owner"
    and "sk_readyState (hub_sockets b (ac_socket c)) = OPEN_STATE"
    and "t2 < t1 + hub_requestTimeoutMs a" "t3 < t2 + 5000" "map_of (hub_ackResults a) corr = None"
    and run: "remote_exchange uuid settings (createMessage requestId t) deviceId owner message corr (t1, t2, t3) a b = (a', b')"
  shows "map_of (hub_ackResults a') corr = Some True \<and> corr \<notin> set (hub_pendingAcks a') \<and>
    hub_sockets b' = (hub_sockets b)(ac_socket c := (hub_sockets b (ac_socket c))\<lparr>sk_sent := sk_sent (hub_sockets b (ac_socket c)) @ [ToAgent message]\<rparr>)"
  using run assms(2-14)
  by (auto simp: remote_exchange_def Let_def sendToRemoteAgent_publish_def sendToRemoteAgent_begin_def publishBestEffort_def
      envelopeBase_def receive_envelope [where uuid = uuid and requestId = requestId, OF assms(1)] handleRelayMessage_def relay_ignored_def sendToOwnedLocalAgent_begin_def
      sendToOwnedLocalAgent_finish_def relay_ack_def send_def send_on_def resolve_ack_def agent_of_def)

definition exchange_sender :: hub where
  "exchange_sender = (fresh_hub ''a'' (\<lambda>_. open_socket))\<lparr>hub_distributed := True\<rparr>"

definition exchange_receiver :: hub where
  "exchange_receiver = (fresh_hub ''b'' (\<lambda>_. open_socket))\<lparr>hub_distributed := True,
     hub_agents := [(''d'', \<lparr>ac_owner = \<lparr>ow_instanceId = ''b'', ow_connectionId = ''k'', ow_userId = ''u''\<rparr>, ac_socket = 7,
       ac_deviceId = ''d'', ac_lastHeartbeatAt = 0\<rparr>)]\<rparr>"

theorem remote_message_acknowledged_witness:
  "case remote_exchange (\<lambda>s. s = ''id'') (fst (newConnectionHub \<lparr>ho_redisUrl = None, ho_namespace = None, ho_presenceTtlMs = None, ho_requestTimeoutMs = None, ho_instanceId = None\<rparr> ''a'' (\<lambda>_. open_socket)))
      (createMessage ''id'' 5) ''d'' \<lparr>ow_instanceId = ''b'', ow_connectionId = ''k'', ow_userId = ''u''\<rparr> (JobCancel ''id'') ''c'' (10, 20, 30) exchange_sender exchange_receiver
   of (a, b) \<Rightarrow> map_of (hub_ackResults a) ''c'' = Some True \<and> sk_sent (hub_sockets b 7) = [ToAgent (JobCancel ''id'')]"
  (is "case ?run of (a, b) \<Rightarrow> _ a b")
proof -
  let ?owner = "\<lparr>ow_instanceId = ''b'', ow_connectionId = ''k'', ow_userId = ''u''\<rparr>"
  obtain a b where run: "?run = (a, b)"
    by (cases ?run)
  from remote_message_acknowledged [OF _ _ _ _ _ _ _ _ _ _ _ _ _ _ run,
      where c = "\<lparr>ac_owner = ?owner, ac_socket = 7, ac_deviceId = ''d'', ac_lastHeartbeatAt = 0\<rparr>"] show ?thesis
    unfolding run by (simp add: exchange_sender_def exchange_receiver_def fresh_hub_def open_socket_def agent_of_def OPEN_STATE_def)
qed

subsection \<open>Sending to an agent ends\<close>

text \<open>A reply that fits the state it arrives in; an acknowledgement fits once its promise is settled.\<close>

fun reply_fits :: "redis_reply \<Rightarrow> send_state \<times> hub \<Rightarrow> bool" where
  "reply_fits (OwnerReply ow) (ReadOwner, h) = True"
| "reply_fits CommandThrew (ReadOwner, h) = True"
| "reply_fits (TouchReply touched) (Touching ow n c, h) = True"
| "reply_fits (PublishReply accepted) (Publishing ow n k, h) = True"
| "reply_fits AckSettled (AwaitingAck ow n k, h) \<longleftrightarrow> map_of (hub_ackResults h) k \<noteq> None"
| "reply_fits (OwnerReply ow) (ReadNext ow' n, h) = True"
| "reply_fits CommandThrew (ReadNext ow' n, h) = True"
| "reply_fits _ _ = False"

fun send_rank :: "send_state \<Rightarrow> nat" where
  "send_rank ReadOwner = 7"
| "send_rank (Publishing ow n k) = 3 * (1 - n) + 3"
| "send_rank (Touching ow n c) = 3 * (1 - n) + 2"
| "send_rank (AwaitingAck ow n k) = 3 * (1 - n) + 2"
| "send_rank (ReadNext ow n) = 3 * (1 - n) + 1"
| "send_rank (SendDone b) = 0"

lemma send_attempt_rank: "send_rank (fst (send_attempt d k ow n h)) \<le> (if n \<ge> 2 then 0 else 3 * (1 - n) + 3)"
  by (auto simp: send_attempt_def split: option.split)

lemma send_step_rank:
  assumes "reply_fits r s"
  shows "send_rank (fst (sendToAgent_step d m k now i r s)) < send_rank (fst s)"
proof -
  have first: "send_rank (fst (send_attempt d k ow 0 h)) < 7" for ow h
    using send_attempt_rank [of d k ow 0 h] by simp
  have again: "send_rank (fst (send_attempt d k ow (Suc n) h)) < Suc (3 * (Suc 0 - n))" for ow n h
    using send_attempt_rank [of d k ow "Suc n" h] by (cases n) (auto split: if_splits)
  show ?thesis
    using assms by (induction r s rule: reply_fits.induct) (auto simp: first again split: option.split prod.split)
qed

text \<open>
  A run of \<open>sendToAgent\<close>: replies that fit, each with the identifiers and the time of its step, and between
  them whatever the rest of the hub does (\<open>change\<close>).
\<close>

fun send_run :: "ident \<Rightarrow> server_to_agent \<Rightarrow> (redis_reply \<times> ident \<times> ms \<times> ident \<times> (hub \<Rightarrow> hub)) list \<Rightarrow> send_state \<times> hub \<Rightarrow> (send_state \<times> hub) option" where
  "send_run d m [] s = Some s"
| "send_run d m ((r, k, now, i, change) # rs) s =
     (let s = (fst s, change (snd s))
      in if reply_fits r s then send_run d m rs (sendToAgent_step d m k now i r s) else None)"

lemma send_run_rank: "send_run d m rs s = Some s' \<Longrightarrow> length rs + send_rank (fst s') \<le> send_rank (fst s)"
proof (induction d m rs s rule: send_run.induct)
  case (2 d m r k now i change rs s)
  then show ?case
    using send_step_rank [of r "(fst s, change (snd s))" d m k now i] by (fastforce simp: Let_def split: if_splits)
qed simp

text \<open>Every state has a reply to come, or an acknowledgement that is settled or armed with its timer.\<close>

definition ack_armed :: "send_state \<times> hub \<Rightarrow> bool" where
  "ack_armed s = (case fst s of
     Publishing ow n k \<Rightarrow> k \<in> set (hub_pendingAcks (snd s)) \<or> map_of (hub_ackResults (snd s)) k \<noteq> None
   | AwaitingAck ow n k \<Rightarrow> k \<in> set (hub_pendingAcks (snd s)) \<or> map_of (hub_ackResults (snd s)) k \<noteq> None
   | _ \<Rightarrow> True)"

definition keeps_acks :: "(hub \<Rightarrow> hub) \<Rightarrow> bool" where
  "keeps_acks change \<longleftrightarrow> (\<forall>h k. k \<in> set (hub_pendingAcks h) \<or> map_of (hub_ackResults h) k \<noteq> None \<longrightarrow>
     k \<in> set (hub_pendingAcks (change h)) \<or> map_of (hub_ackResults (change h)) k \<noteq> None)"

lemma send_attempt_armed: "ack_armed (send_attempt d k ow n h)"
  by (auto simp: send_attempt_def ack_armed_def sendToRemoteAgent_begin_def split: option.split)

lemma publish_armed:
  "k \<in> set (hub_pendingAcks h) \<or> map_of (hub_ackResults h) k \<noteq> None \<Longrightarrow>
    k \<in> set (hub_pendingAcks (sendToRemoteAgent_publish d ow m k now i accepted h)) \<or>
    map_of (hub_ackResults (sendToRemoteAgent_publish d ow m k now i accepted h)) k \<noteq> None"
  by (auto simp: sendToRemoteAgent_publish_def publishBestEffort_def resolve_ack_def)

lemma send_step_armed: "ack_armed s \<Longrightarrow> ack_armed (sendToAgent_step d m k now i r s)"
  using send_attempt_armed publish_armed
  by (induction d m k now i r s rule: sendToAgent_step.induct)
    (auto simp: ack_armed_def Let_def split: option.splits prod.splits if_splits)

lemma send_run_armed:
  assumes "send_run d m rs s = Some s'" and "ack_armed s"
    and "list_all (\<lambda>(r, k, now, i, change). keeps_acks change) rs"
  shows "ack_armed s'"
  using assms
proof (induction d m rs s rule: send_run.induct)
  case (2 d m r k now i change rs s)
  have "ack_armed (fst s, change (snd s))"
    using 2(3,4) by (auto simp: ack_armed_def keeps_acks_def split: send_state.splits)
  with 2 show ?case
    by (auto simp: Let_def send_step_armed split: if_splits)
qed simp

lemma resolve_ack_settles:
  "k = a \<or> map_of (hub_ackResults h) k \<noteq> None \<Longrightarrow> map_of (hub_ackResults (resolve_ack a sent h)) k \<noteq> None"
  by (auto simp: resolve_ack_def)

lemma keeps_acks_others:
  "keeps_acks (ack_timeout k)" "keeps_acks (resolve_ack k sent)" "keeps_acks (sendToRemoteAgent_begin k)"
  "keeps_acks (\<lambda>h. snd (shutdown_begin h))"
proof -
  have settle: "map_of (hub_ackResults (fold (\<lambda>k. resolve_ack k False) ks h)) k \<noteq> None"
    if "k \<in> set ks \<or> map_of (hub_ackResults h) k \<noteq> None" for ks h k
    using that
  proof (induction ks arbitrary: h)
    case (Cons a ks)
    then have "k \<in> set ks \<or> map_of (hub_ackResults (resolve_ack a False h)) k \<noteq> None"
      using resolve_ack_settles [of k a h False] by auto
    from Cons.IH [OF this] show ?case
      by simp
  qed simp
  then show "keeps_acks (\<lambda>h. snd (shutdown_begin h))"
    by (auto simp: keeps_acks_def shutdown_begin_def resolve_all_def)
qed (auto simp: keeps_acks_def ack_timeout_def resolve_ack_def sendToRemoteAgent_begin_def)

text \<open>
  C18. Sending to an agent ends. However the presence moves between instances while a message is sent, and
  whatever else the hub does meanwhile, at most seven replies of Redis end the attempt: two
  attempts and the reads around them. It cannot hang on an acknowledgement either: in every state it
  reaches, the promise it waits for is settled or still has the timer that settles it.
\<close>

theorem sendToAgent_ends:
  assumes "send_run deviceId message rs (ReadOwner, h) = Some s"
    and "list_all (\<lambda>(r, k, now, i, change). keeps_acks change) rs"
  shows "length rs \<le> 7 \<and> (length rs = 7 \<longrightarrow> (\<exists>sent. fst s = SendDone sent)) \<and> ack_armed s"
proof (intro conjI impI)
  show "length rs \<le> 7"
    using send_run_rank [OF assms(1)] by simp
  show "ack_armed s"
    using send_run_armed [OF assms(1) _ assms(2)] by (simp add: ack_armed_def)
  show "\<exists>sent. fst s = SendDone sent" if "length rs = 7"
    using send_run_rank [OF assms(1)] that by (cases "fst s") auto
qed

theorem sendToAgent_ends_witness:
  "ack_armed (the (send_run ''d'' (JobCancel ''j'')
    [(OwnerReply (Some \<lparr>ow_instanceId = ''b'', ow_connectionId = ''k'', ow_userId = ''u''\<rparr>), ''c'', 10, ''i'', (\<lambda>h. h)),
     (PublishReply True, ''c'', 20, ''i'', (\<lambda>h. h)), (AckSettled, ''c'', 30, ''i'', ack_timeout ''c'')] (ReadOwner, exchange_sender)))"
  (is "ack_armed (the (send_run ?d ?m ?rs ?s))")
proof -
  have "send_run ?d ?m ?rs ?s \<noteq> None"
    by (simp add: Let_def send_attempt_def exchange_sender_def fresh_hub_def sendToRemoteAgent_begin_def ack_timeout_def
        sendToRemoteAgent_publish_def publishBestEffort_def resolve_ack_def)
  then obtain s where run: "send_run ?d ?m ?rs ?s = Some s"
    by blast
  have "list_all (\<lambda>(r, k, now, i, change). keeps_acks change) ?rs"
    using keeps_acks_others(1) by (simp add: keeps_acks_def)
  with sendToAgent_ends [OF run] show ?thesis
    unfolding run by simp
qed

subsection \<open>The connection to Redis\<close>

text \<open>
  \<open>start\<close>, \<open>connectRedis\<close> and the end of \<open>performShutdown\<close>. An attempt is a number and stands for its pair
  of clients (commands and subscription); \<open>ln_open\<close> are the pairs created and neither disconnected nor
  quit. \<open>ln_startPromise\<close> is the attempt whose promise the next caller of \<open>start\<close> is given.
\<close>

record link =
  ln_distributed :: bool
  ln_shuttingDown :: bool
  ln_startPromise :: "nat option"
  ln_connecting :: "nat list"
  ln_redis :: "nat option"
  ln_open :: "nat list"
  ln_next :: nat

definition start :: "link \<Rightarrow> link" where
  "start l =
     (if \<not> ln_distributed l \<or> ln_shuttingDown l then l
      else (case ln_startPromise l of
              Some a \<Rightarrow> l
            | None \<Rightarrow> l\<lparr>ln_startPromise := Some (ln_next l), ln_connecting := ln_connecting l @ [ln_next l],
                ln_open := ln_open l @ [ln_next l], ln_next := Suc (ln_next l)\<rparr>))"

text \<open>Both clients are connected and subscribed, or one of these failed.\<close>

definition connectRedis_done :: "nat \<Rightarrow> bool \<Rightarrow> link \<Rightarrow> link" where
  "connectRedis_done a ok l =
     (if a \<notin> set (ln_connecting l) then l
      else if ok then l\<lparr>ln_connecting := removeAll a (ln_connecting l), ln_redis := Some a\<rparr>
      else l\<lparr>ln_connecting := removeAll a (ln_connecting l), ln_open := removeAll a (ln_open l),
             ln_startPromise := (if ln_startPromise l = Some a then None else ln_startPromise l)\<rparr>)"

text \<open>
  Shutting down, which later calls share. Between setting the flag and giving up the clients it only awaits
  Redis when there is a connection, and then no attempt is under way.
\<close>

definition shutdown_link :: "link \<Rightarrow> link" where
  "shutdown_link l =
     (if ln_shuttingDown l then l
      else l\<lparr>ln_shuttingDown := True, ln_redis := None,
             ln_open := (case ln_redis l of None \<Rightarrow> ln_open l | Some a \<Rightarrow> removeAll a (ln_open l))\<rparr>)"

datatype link_event = StartCalled | ConnectRedisDone nat bool | ShutdownCalled

fun link_step :: "link_event \<Rightarrow> link \<Rightarrow> link" where
  "link_step StartCalled l = start l"
| "link_step (ConnectRedisDone a ok) l = connectRedis_done a ok l"
| "link_step ShutdownCalled l = shutdown_link l"

definition link_run :: "link_event list \<Rightarrow> link \<Rightarrow> link" where
  "link_run evs l = fold link_step evs l"

definition new_link :: "hub_settings \<Rightarrow> link" where
  "new_link settings = \<lparr>ln_distributed = (hs_redisUrl settings \<noteq> None), ln_shuttingDown = False, ln_startPromise = None,
     ln_connecting = [], ln_redis = None, ln_open = [], ln_next = 0\<rparr>"

definition link_ok :: "link \<Rightarrow> bool" where
  "link_ok l \<longleftrightarrow> (case ln_startPromise l of
     None \<Rightarrow> ln_connecting l = [] \<and> ln_open l = [] \<and> ln_redis l = None
   | Some a \<Rightarrow> ln_connecting l = [a] \<and> ln_open l = [a] \<and> ln_redis l = None \<or>
       ln_connecting l = [] \<and> ln_open l = [a] \<and> ln_redis l = Some a \<or>
       ln_connecting l = [] \<and> ln_open l = [] \<and> ln_redis l = None \<and> ln_shuttingDown l)"

lemma link_ok_step: "link_ok l \<Longrightarrow> link_ok (link_step ev l)"
  by (cases ev) (auto simp: link_ok_def start_def connectRedis_done_def shutdown_link_def split: option.splits if_splits)

lemma link_ok_run: "link_ok l \<Longrightarrow> link_ok (link_run evs l)"
  by (induction evs arbitrary: l) (auto simp: link_run_def intro: link_ok_step)

lemma new_link_ok: "link_ok (new_link settings)"
  by (simp add: link_ok_def new_link_def)

text \<open>
  An instance has one connection to Redis. However many operations call \<open>start\<close> at once, and however often
  connecting fails, at most one pair of clients is open: the one all commands go to, or the one still
  connecting, whose promise every caller shares. A failed attempt leaves nothing open and nothing
  shared, so the next caller tries again, and shutting down a connected instance closes what is open.
\<close>

theorem one_redis_connection:
  assumes "l = link_run evs (new_link settings)"
  shows "length (ln_open l) \<le> 1 \<and> set (ln_open l) = set_option (ln_redis l) \<union> set (ln_connecting l) \<and>
    set (ln_connecting l) \<subseteq> set_option (ln_startPromise l) \<and>
    (\<forall>a \<in> set (ln_connecting l). ln_startPromise (connectRedis_done a False l) = None \<and> ln_open (connectRedis_done a False l) = []) \<and>
    (ln_connecting l = [] \<longrightarrow> \<not> ln_shuttingDown l \<longrightarrow> ln_open (shutdown_link l) = [])"
proof -
  have "link_ok l"
    unfolding assms by (rule link_ok_run [OF new_link_ok])
  then show ?thesis
    by (auto simp: link_ok_def connectRedis_done_def shutdown_link_def split: option.splits)
qed

theorem one_redis_connection_witness:
  "ln_open (shutdown_link (link_run [StartCalled, StartCalled, ConnectRedisDone 0 False, StartCalled, ConnectRedisDone 1 True]
    (new_link \<lparr>hs_redisUrl = Some ''redis'', hs_namespace = ''n'', hs_presenceTtlMs = 1, hs_instanceId = ''i'', hs_relayChannel = ''c''\<rparr>))) = []"
  using one_redis_connection [OF refl,
      of "[StartCalled, StartCalled, ConnectRedisDone 0 False, StartCalled, ConnectRedisDone 1 True]"
        "\<lparr>hs_redisUrl = Some ''redis'', hs_namespace = ''n'', hs_presenceTtlMs = 1, hs_instanceId = ''i'', hs_relayChannel = ''c''\<rparr>"]
  by (simp add: link_run_def new_link_def start_def connectRedis_done_def)

text \<open>Shutting down while connecting is the exception: the attempt then succeeds into an instance that is gone.\<close>

lemma shutdown_while_connecting:
  assumes "link_ok l" and "ln_connecting l = [a]" and "\<not> ln_shuttingDown l"
  shows "ln_open (link_run [ShutdownCalled, ConnectRedisDone a True, ShutdownCalled] l) = [a]"
  using assms by (auto simp: link_run_def link_ok_def connectRedis_done_def shutdown_link_def split: option.splits)

end
