(* ===== verification/Output.thy ===== *)
theory Output
  imports Database
begin

section \<open>Stored output: deduplication, retention, replay\<close>

text \<open>
  The part of \<open>apps/server/src/services/jobs.ts\<close> that owns the output table:
  \<open>persistChunks\<close> with its transaction and its paged eviction loop, \<open>replay\<close> and
  \<open>latestSequence\<close>. The operation body of \<open>persistChunks\<close> runs alone per job
  (\<open>serializeOutput\<close>, modelled in \<open>Pipeline\<close>), so it is one step on the database here.
\<close>

subsection \<open>Inserting a batch\<close>

text \<open>
  \<open>createMany\<close> with \<open>skipDuplicates\<close>: a row whose \<open>(jobId, sequence)\<close> is already in the table,
  or was just inserted from the same batch, is skipped.
\<close>

fun createMany :: "ms \<Rightarrow> ident \<Rightarrow> out_chunk list \<Rightarrow> nat \<times> chunk list \<Rightarrow> nat \<times> chunk list" where
  "createMany now jobId [] (nextId, rows) = (nextId, rows)"
| "createMany now jobId (c # cs) (nextId, rows) =
     (if \<exists>r \<in> set rows. ch_jobId r = jobId \<and> ch_sequence r = oc_sequence c
      then createMany now jobId cs (nextId, rows)
      else createMany now jobId cs
             (Suc nextId,
              rows @ [\<lparr>ch_id = nextId, ch_jobId = jobId, ch_sequence = oc_sequence c,
                       ch_stream = oc_stream c, ch_data = oc_data c,
                       ch_byteLength = utf8_length (oc_data c), ch_timestamp = now\<rparr>]))"

subsection \<open>The eviction loop\<close>

text \<open>
  The local variables of the loop: the identifiers removed from the current page, all removed
  sequences, the bytes removed so far and the cursor.
\<close>

record evict =
  ev_removeIds :: "nat list"
  ev_removedSequences :: "int list"
  ev_removedBytes :: int
  ev_cursorSequence :: int

text \<open>The inner loop over one page of the oldest rows.\<close>

fun evict_page :: "int \<Rightarrow> chunk list \<Rightarrow> evict \<Rightarrow> evict" where
  "evict_page bytesToReclaim [] e = e"
| "evict_page bytesToReclaim (c # cs) e =
     (let e' = e\<lparr>ev_removeIds := ev_removeIds e @ [ch_id c],
                 ev_removedSequences := ev_removedSequences e @ [ch_sequence c],
                 ev_removedBytes := ev_removedBytes e + ch_byteLength c,
                 ev_cursorSequence := ch_sequence c\<rparr> in
      if ev_removedBytes e' \<ge> bytesToReclaim then e' else evict_page bytesToReclaim cs e')"

text \<open>The rows the \<open>findMany\<close> of the loop returns.\<close>

definition oldest_page :: "nat \<Rightarrow> ident \<Rightarrow> int \<Rightarrow> chunk list \<Rightarrow> chunk list" where
  "oldest_page pageSize jobId cursor rows =
     take pageSize (sort_key ch_sequence (filter (\<lambda>c. ch_jobId c = jobId \<and> ch_sequence c > cursor) rows))"

lemma evict_page_removeIds_grow: "set (ev_removeIds e) \<subseteq> set (ev_removeIds (evict_page need cs e))"
proof (induction need cs e rule: evict_page.induct)
  case (2 need c cs e)
  then show ?case
    by (auto simp: Let_def)
qed simp

lemma evict_page_removes_first:
  "cs \<noteq> [] \<Longrightarrow> ch_id (hd cs) \<in> set (ev_removeIds (evict_page need cs e))"
  using evict_page_removeIds_grow by (cases cs) (fastforce simp: Let_def)+

lemma oldest_page_subset: "c \<in> set (oldest_page n j k rows) \<Longrightarrow> c \<in> set rows"
  by (auto simp: oldest_page_def dest: in_set_takeD)

function evict_loop ::
  "int \<Rightarrow> nat \<Rightarrow> ident \<Rightarrow> chunk list \<Rightarrow> evict \<Rightarrow> chunk list \<times> evict" where
  "evict_loop bytesToReclaim pageSize jobId rows e =
     (if ev_removedBytes e < bytesToReclaim then
        (let oldest = oldest_page pageSize jobId (ev_cursorSequence e) rows in
         if oldest = [] then (rows, e)
         else (let e' = evict_page bytesToReclaim oldest (e\<lparr>ev_removeIds := []\<rparr>) in
               evict_loop bytesToReclaim pageSize jobId
                 (deleteMany (\<lambda>c. ch_id c \<in> set (ev_removeIds e')) rows) e'))
      else (rows, e))"
  by pat_completeness auto
termination
proof (relation "measure (\<lambda>(need, n, j, rows, e). length rows)")
  fix need n j rows e oldest e'
  assume "oldest = oldest_page n j (ev_cursorSequence e) rows" and "oldest \<noteq> []"
    and "e' = evict_page need oldest (e\<lparr>ev_removeIds := []\<rparr>)"
  then have "hd oldest \<in> set rows" and "ch_id (hd oldest) \<in> set (ev_removeIds e')"
    by (auto intro: oldest_page_subset [OF hd_in_set] evict_page_removes_first)
  then show "((need, n, j, deleteMany (\<lambda>c. ch_id c \<in> set (ev_removeIds e')) rows, e'),
      (need, n, j, rows, e)) \<in> measure (\<lambda>(need, n, j, rows, e). length rows)"
    by (simp add: length_deleteMany_less)
qed simp

declare evict_loop.simps [simp del]

subsection \<open>Persisting a batch\<close>

record persist_result =
  pr_chunks :: "out_chunk list"
  pr_userId :: "ident option"
  pr_truncated :: bool

definition nothing_persisted :: persist_result where
  "nothing_persisted = \<lparr>pr_chunks = [], pr_userId = None, pr_truncated = False\<rparr>"

definition eviction_page_size :: "out_chunk list \<Rightarrow> nat" where
  "eviction_page_size newChunks = min (max (length newChunks * 2) 32) 1024"

definition no_eviction :: evict where
  "no_eviction = \<lparr>ev_removeIds = [], ev_removedSequences = [], ev_removedBytes = 0,
     ev_cursorSequence = -1\<rparr>"

text \<open>
  The transaction: insert the batch, evict the oldest rows when the running total goes over the
  cap, write the new total and the truncation flag. The result is the removed sequences and the
  flag.
\<close>

definition persist_transaction ::
  "int \<Rightarrow> ms \<Rightarrow> job \<Rightarrow> out_chunk list \<Rightarrow> db \<Rightarrow> (int list \<times> bool) \<times> db" where
  "persist_transaction maximumOutputBytes now job newChunks d =
     (let addedBytes = (\<Sum>c \<leftarrow> newChunks. utf8_length (oc_data c));
          (nextId, inserted) = createMany now (job_id job) newChunks (db_nextId d, db_chunks d);
          projectedBytes = job_retainedOutputBytes job + addedBytes;
          (rows, e) =
            (if projectedBytes > maximumOutputBytes
             then evict_loop (projectedBytes - maximumOutputBytes) (eviction_page_size newChunks)
                    (job_id job) inserted no_eviction
             else (inserted, no_eviction));
          truncated = (job_outputTruncated job \<or> ev_removedSequences e \<noteq> [])
      in ((ev_removedSequences e, truncated),
          snd (updateJob now (job_id job)
            (\<lambda>r. r\<lparr>job_retainedOutputBytes := projectedBytes - ev_removedBytes e,
                   job_outputTruncated := truncated\<rparr>)
            (d\<lparr>db_chunks := rows, db_nextId := nextId\<rparr>))))"

definition persistChunks ::
  "int \<Rightarrow> ms \<Rightarrow> ident \<Rightarrow> ident \<Rightarrow> out_chunk list \<Rightarrow> db \<Rightarrow> persist_result \<times> db" where
  "persistChunks maximumOutputBytes now deviceId jobId chunks d =
     (case findJob jobId d of
        None \<Rightarrow> (nothing_persisted, d)
      | Some job \<Rightarrow>
          if job_deviceId job \<noteq> deviceId \<or> chunks = [] then (nothing_persisted, d)
          else
            (let sequences = map oc_sequence chunks;
                 existing = filter (\<lambda>c. ch_jobId c = jobId \<and> ch_sequence c \<in> set sequences) (db_chunks d);
                 newChunks = filter (\<lambda>c. oc_sequence c \<notin> ch_sequence ` set existing) chunks
             in if newChunks = [] then (nothing_persisted, d)
                else (case persist_transaction maximumOutputBytes now job newChunks d of
                        ((removedSequences, truncated), d') \<Rightarrow>
                          (\<lparr>pr_chunks = filter (\<lambda>c. oc_sequence c \<notin> set removedSequences) newChunks,
                            pr_userId = Some (job_userId job), pr_truncated = truncated\<rparr>, d'))))"

subsection \<open>Replay\<close>

definition chunks_of :: "ident \<Rightarrow> chunk list \<Rightarrow> chunk list" where
  "chunks_of jobId rows = filter (\<lambda>c. ch_jobId c = jobId) rows"

text \<open>A chunk as it is served for replay: with the time it was stored, if it is a stored one.\<close>

record served_chunk = out_chunk +
  sv_timestamp :: "ms option"

definition serializeOutputChunk :: "chunk \<Rightarrow> served_chunk" where
  "serializeOutputChunk c =
     \<lparr>oc_sequence = ch_sequence c, oc_stream = ch_stream c, oc_data = ch_data c,
      sv_timestamp = Some (ch_timestamp c)\<rparr>"

text \<open>A stored chunk as the wire messages carry it.\<close>

definition wire_chunk :: "chunk \<Rightarrow> out_chunk" where
  "wire_chunk c =
     \<lparr>oc_sequence = ch_sequence c, oc_stream = ch_stream c, oc_data = ch_data c\<rparr>"

text \<open>The stored output of a job: its rows in sequence order, as they are sent.\<close>

definition output_log :: "ident \<Rightarrow> db \<Rightarrow> out_chunk list" where
  "output_log jobId d = map wire_chunk (sort_key ch_sequence (chunks_of jobId (db_chunks d)))"

definition retention_notice :: "int \<Rightarrow> served_chunk" where
  "retention_notice noticeSequence =
     \<lparr>oc_sequence = noticeSequence, oc_stream = SystemStream,
      oc_data = ''[Earlier output was removed by the server retention limit.]'' @ [CHR 0x0D, CHR 0x0A],
      sv_timestamp = None\<rparr>"

definition replay ::
  "ident \<Rightarrow> ident \<Rightarrow> int \<Rightarrow> nat \<Rightarrow> db \<Rightarrow> js_error + served_chunk list" where
  "replay userId jobId afterSequence limit d =
     (case List.find (\<lambda>r. job_id r = jobId \<and> job_userId r = userId) (db_jobs d) of
        None \<Rightarrow> Inl (AppError 404 ''JOB_NOT_FOUND'' ''Job not found.'')
      | Some job \<Rightarrow>
          (let rows = sort_key ch_sequence (chunks_of jobId (db_chunks d));
               chunks = take limit (filter (\<lambda>c. ch_sequence c > afterSequence) rows)
           in if \<not> job_outputTruncated job then Inr (map serializeOutputChunk chunks)
              else (let earliest = (case rows of [] \<Rightarrow> 1 | c # _ \<Rightarrow> ch_sequence c);
                        noticeSequence = max 0 (earliest - 1)
                    in Inr ((if afterSequence < noticeSequence then [retention_notice noticeSequence] else []) @
                            map serializeOutputChunk chunks))))"

definition latestSequence :: "ident \<Rightarrow> db \<Rightarrow> int" where
  "latestSequence jobId d =
     (case rev (sort_key ch_sequence (chunks_of jobId (db_chunks d))) of
        [] \<Rightarrow> -1 | c # _ \<Rightarrow> ch_sequence c)"

subsection \<open>The eviction loop removes the shortest sufficient prefix\<close>

definition sized :: "chunk list \<Rightarrow> (nat \<times> int) list" where
  "sized cs = map (\<lambda>c. (ch_id c, ch_byteLength c)) cs"

definition chunk_bytes :: "chunk list \<Rightarrow> int" where
  "chunk_bytes cs = (\<Sum>c \<leftarrow> cs. ch_byteLength c)"

definition evicted :: "int \<Rightarrow> chunk list \<Rightarrow> chunk list" where
  "evicted need cs = take (length (remove_until need (sized cs))) cs"

lemma sized_simps [simp]:
  "sized [] = []" "sized (c # cs) = (ch_id c, ch_byteLength c) # sized cs"
  "sized (cs @ ds) = sized cs @ sized ds" "length (sized cs) = length cs"
  by (simp_all add: sized_def)

lemma chunk_bytes_simps [simp]:
  "chunk_bytes [] = 0" "chunk_bytes (c # cs) = ch_byteLength c + chunk_bytes cs"
  "chunk_bytes (cs @ ds) = chunk_bytes cs + chunk_bytes ds"
  by (simp_all add: chunk_bytes_def)

lemma sum_sized [simp]: "sum_list (map snd (sized cs)) = chunk_bytes cs"
  by (induction cs) auto

lemma evicted_nonpos [simp]: "need \<le> 0 \<Longrightarrow> evicted need cs = []"
  by (simp add: evicted_def)

lemma evicted_Nil [simp]: "evicted need [] = []"
  by (simp add: evicted_def)

lemma evicted_Cons:
  "evicted need (c # cs) = (if need \<le> 0 then [] else c # evicted (need - ch_byteLength c) cs)"
  by (simp add: evicted_def)

lemma evicted_ids: "map ch_id (evicted need cs) = remove_until need (sized cs)"
  by (induction cs arbitrary: need) (auto simp: evicted_Cons)

lemma chunk_bytes_nonneg: "\<forall>c \<in> set xs. 0 \<le> ch_byteLength c \<Longrightarrow> 0 \<le> chunk_bytes xs"
  by (induction xs) auto

lemma evicted_append:
  "\<forall>c \<in> set xs. 0 \<le> ch_byteLength c \<Longrightarrow>
   evicted need (xs @ ys) = evicted need xs @ evicted (need - chunk_bytes xs) ys"
proof (induction xs arbitrary: need)
  case (Cons c xs)
  then have "0 \<le> ch_byteLength c + chunk_bytes xs"
    using chunk_bytes_nonneg [of "c # xs"] by simp
  with Cons show ?case
    by (auto simp: evicted_Cons algebra_simps)
qed simp

lemma evicted_prefix:
  obtains k where "evicted need cs = take k cs" and "k \<le> length cs"
    and "need \<le> chunk_bytes (take k cs) \<or> k = length cs"
proof -
  obtain k where k: "k \<le> length cs" "remove_until need (sized cs) = map fst (take k (sized cs))"
    "need \<le> sum_list (map snd (take k (sized cs))) \<or> k = length cs"
    using remove_until_prefix [of "sized cs" need] by auto
  then have "evicted need cs = take k cs"
    by (simp add: evicted_def)
  moreover have "take k (sized cs) = sized (take k cs)"
    by (simp add: sized_def take_map)
  ultimately show ?thesis
    using k that by simp
qed

lemma evict_page_eq:
  assumes "ev_removedBytes e < need"
  shows "evict_page need cs e =
    (let E = evicted (need - ev_removedBytes e) cs in
     e\<lparr>ev_removeIds := ev_removeIds e @ map ch_id E,
       ev_removedSequences := ev_removedSequences e @ map ch_sequence E,
       ev_removedBytes := ev_removedBytes e + chunk_bytes E,
       ev_cursorSequence := (if E = [] then ev_cursorSequence e else ch_sequence (last E))\<rparr>)"
  using assms
proof (induction need cs e rule: evict_page.induct)
  case (1 need e)
  then show ?case by simp
next
  case (2 need c cs e)
  define e' where "e' = e\<lparr>ev_removeIds := ev_removeIds e @ [ch_id c],
    ev_removedSequences := ev_removedSequences e @ [ch_sequence c],
    ev_removedBytes := ev_removedBytes e + ch_byteLength c, ev_cursorSequence := ch_sequence c\<rparr>"
  have E: "evicted (need - ev_removedBytes e) (c # cs) =
      c # evicted (need - ev_removedBytes e') cs"
    using 2(2) by (simp add: evicted_Cons e'_def algebra_simps)
  show ?case
  proof (cases "ev_removedBytes e' \<ge> need")
    case True
    then have "evict_page need (c # cs) e = e'" and "evicted (need - ev_removedBytes e') cs = []"
      by (simp_all add: e'_def Let_def)
    with E show ?thesis by (simp add: e'_def Let_def)
  next
    case False
    then have "evict_page need (c # cs) e = evict_page need cs e'"
      by (simp add: e'_def Let_def)
    moreover have "evict_page need cs e' = (let E = evicted (need - ev_removedBytes e') cs in
     e'\<lparr>ev_removeIds := ev_removeIds e' @ map ch_id E,
       ev_removedSequences := ev_removedSequences e' @ map ch_sequence E,
       ev_removedBytes := ev_removedBytes e' + chunk_bytes E,
       ev_cursorSequence := (if E = [] then ev_cursorSequence e' else ch_sequence (last E))\<rparr>)"
      using 2(1) [OF e'_def] False by simp
    ultimately show ?thesis
      unfolding E by (simp add: e'_def Let_def)
  qed
qed

text \<open>The rows above the cursor, in order: what successive pages walk through.\<close>

definition beyond :: "ident \<Rightarrow> int \<Rightarrow> chunk list \<Rightarrow> chunk list" where
  "beyond jobId cursor rows = filter (\<lambda>c. ch_sequence c > cursor) (sort_key ch_sequence (chunks_of jobId rows))"

lemma oldest_page_beyond: "oldest_page n jobId cursor rows = take n (beyond jobId cursor rows)"
proof -
  have "filter (\<lambda>c. ch_jobId c = jobId \<and> ch_sequence c > cursor) rows =
      filter (\<lambda>c. ch_sequence c > cursor) (chunks_of jobId rows)"
    by (simp add: chunks_of_def conj_commute)
  then show ?thesis
    by (simp add: oldest_page_def beyond_def filter_sort)
qed

definition rows_ok :: "ident \<Rightarrow> chunk list \<Rightarrow> bool" where
  "rows_ok jobId rows \<longleftrightarrow>
     distinct (map ch_id rows) \<and> distinct (map ch_sequence (chunks_of jobId rows)) \<and>
     (\<forall>c \<in> set (chunks_of jobId rows). 0 \<le> ch_sequence c \<and> 0 \<le> ch_byteLength c)"

lemma set_chunks_of [simp]: "set (chunks_of jobId rows) = {c \<in> set rows. ch_jobId c = jobId}"
  by (auto simp: chunks_of_def)

lemma chunks_of_deleteMany: "chunks_of jobId (deleteMany P rows) = filter (\<lambda>c. \<not> P c) (chunks_of jobId rows)"
  by (simp add: chunks_of_def deleteMany_def conj_commute)

lemma rows_ok_deleteMany: "rows_ok jobId rows \<Longrightarrow> rows_ok jobId (deleteMany P rows)"
  by (auto simp: rows_ok_def chunks_of_deleteMany distinct_map_filter intro: distinct_map_deleteMany)

lemma beyond_sorted: "rows_ok jobId rows \<Longrightarrow> strict_sorted_by ch_sequence (beyond jobId k rows)"
  by (auto simp: rows_ok_def beyond_def intro: strict_sorted_by_filter strict_sorted_by_sort_key)

lemma beyond_start: "rows_ok jobId rows \<Longrightarrow> beyond jobId (-1) rows = sort_key ch_sequence (chunks_of jobId rows)"
  by (auto simp: rows_ok_def beyond_def filter_id_conv)

lemma set_beyond: "set (beyond jobId k rows) = {c \<in> set rows. ch_jobId c = jobId \<and> k < ch_sequence c}"
  by (auto simp: beyond_def)

text \<open>Deleting a page's rows moves the walk past the page.\<close>

lemma beyond_next:
  assumes ok: "rows_ok jobId rows" and page: "take n (beyond jobId k rows) \<noteq> []"
  shows "beyond jobId (ch_sequence (last (take n (beyond jobId k rows))))
      (deleteMany (\<lambda>c. ch_id c \<in> ch_id ` set (take n (beyond jobId k rows))) rows) =
    drop n (beyond jobId k rows)"
proof -
  let ?S = "beyond jobId k rows"
  let ?cur = "ch_sequence (last (take n ?S))"
  let ?del = "\<lambda>c. ch_id c \<in> ch_id ` set (take n ?S)"
  have inpage: "c \<in> set (take n ?S)" if row: "c \<in> set rows" and del: "?del c" for c
  proof -
    obtain c' where c': "c' \<in> set (take n ?S)" "ch_id c = ch_id c'"
      using del by auto
    then have "c' \<in> set rows"
      by (auto simp: set_beyond dest: in_set_takeD)
    with row c'(2) ok have "c = c'"
      by (auto simp: rows_ok_def distinct_map dest: inj_onD)
    with c'(1) show ?thesis by simp
  qed
  have sorted: "strict_sorted_by ch_sequence (take n ?S)"
    by (intro strict_sorted_by_take beyond_sorted ok)
  have below: "ch_sequence c \<le> ?cur" if "c \<in> set (take n ?S)" for c
    using sorted that by (rule strict_sorted_le_last)
  have "?cur > k"
    using last_in_set [OF page] by (auto simp: set_beyond dest: in_set_takeD)
  have keep: "\<not> ?del c" if "c \<in> set rows" "?cur < ch_sequence c" for c
    using that inpage below by fastforce
  have "beyond jobId cur (deleteMany D rows) =
      filter (\<lambda>c. \<not> D c \<and> cur < ch_sequence c) (sort_key ch_sequence (chunks_of jobId rows))" for cur D
    unfolding beyond_def chunks_of_deleteMany filter_sort [symmetric] filter_filter ..
  then have "beyond jobId ?cur (deleteMany ?del rows) =
      filter (\<lambda>c. \<not> ?del c \<and> ?cur < ch_sequence c) (sort_key ch_sequence (chunks_of jobId rows))" .
  also have "\<dots> = filter (\<lambda>c. ch_sequence c > ?cur) (sort_key ch_sequence (chunks_of jobId rows))"
    using keep by (intro filter_cong) auto
  also have "\<dots> = filter (\<lambda>c. ?cur < ch_sequence c) ?S"
  proof -
    have "filter (\<lambda>c. cur < ch_sequence c) (beyond jobId k rows) =
        filter (\<lambda>c. cur < ch_sequence c) (sort_key ch_sequence (chunks_of jobId rows))"
      if "k < cur" for cur
      using that unfolding beyond_def filter_filter by (intro filter_cong) auto
    then show ?thesis
      using \<open>?cur > k\<close> by simp
  qed
  also have "\<dots> = drop n ?S"
    using beyond_sorted [OF ok] page by (rule strict_sorted_filter_above_last)
  finally show ?thesis .
qed

text \<open>The result of the loop: the rows of \<open>evicted\<close> are gone, and the accumulators say so.\<close>

definition eviction_result :: "ident \<Rightarrow> chunk list \<Rightarrow> evict \<Rightarrow> chunk list \<Rightarrow> chunk list \<times> evict \<Rightarrow> bool" where
  "eviction_result jobId rows e E res \<longleftrightarrow>
     fst res = deleteMany (\<lambda>c. ch_id c \<in> ch_id ` set E) rows \<and>
     ev_removedSequences (snd res) = ev_removedSequences e @ map ch_sequence E \<and>
     ev_removedBytes (snd res) = ev_removedBytes e + chunk_bytes E"

lemma deleteMany_deleteMany: "deleteMany P (deleteMany Q rows) = deleteMany (\<lambda>r. P r \<or> Q r) rows"
  by (induction rows) auto

lemma deleteMany_none: "\<forall>r \<in> set rows. \<not> P r \<Longrightarrow> deleteMany P rows = rows"
  by (simp add: deleteMany_def filter_id_conv)

lemma eviction_result_none: "eviction_result jobId rows e [] (rows, e)"
  by (simp add: eviction_result_def deleteMany_none)

lemma beyond_bytes_nonneg: "rows_ok jobId rows \<Longrightarrow> \<forall>c \<in> set (beyond jobId k rows). 0 \<le> ch_byteLength c"
  by (auto simp: rows_ok_def set_beyond)

lemma evict_loop_result:
  assumes "0 < n" and "rows_ok jobId rows"
  shows "eviction_result jobId rows e
    (evicted (need - ev_removedBytes e) (beyond jobId (ev_cursorSequence e) rows))
    (evict_loop need n jobId rows e)"
  using assms
proof (induction need n jobId rows e rule: evict_loop.induct)
  case (1 need n jobId rows e)
  note ok = \<open>rows_ok jobId rows\<close>
  define S where "S = beyond jobId (ev_cursorSequence e) rows"
  define page where "page = take n S"
  have oldest: "oldest_page n jobId (ev_cursorSequence e) rows = page"
    by (simp add: oldest_page_beyond page_def S_def)
  define b where "b = need - ev_removedBytes e"
  show ?case
  proof (cases "ev_removedBytes e < need \<and> page \<noteq> []")
    case False
    have "evict_loop need n jobId rows e = (rows, e)"
      using False by (subst evict_loop.simps) (auto simp: oldest Let_def)
    moreover have "evicted b S = []"
      using False \<open>0 < n\<close> by (auto simp: b_def page_def)
    ultimately show ?thesis
      unfolding S_def [symmetric] b_def [symmetric] by (simp add: eviction_result_none)
  next
    case True
    define E1 where "E1 = evicted b page"
    define e' where "e' = evict_page need page (e\<lparr>ev_removeIds := []\<rparr>)"
    define rows' where "rows' = deleteMany (\<lambda>c. ch_id c \<in> ch_id ` set E1) rows"
    have e': "ev_removeIds e' = map ch_id E1"
      "ev_removedSequences e' = ev_removedSequences e @ map ch_sequence E1"
      "ev_removedBytes e' = ev_removedBytes e + chunk_bytes E1"
      "E1 \<noteq> [] \<Longrightarrow> ev_cursorSequence e' = ch_sequence (last E1)"
      using True by (simp_all add: e'_def evict_page_eq E1_def b_def Let_def)
    have loop: "evict_loop need n jobId rows e = evict_loop need n jobId rows' e'"
      using True by (subst evict_loop.simps)
        (simp add: oldest Let_def e'_def [symmetric] e'(1) rows'_def)
    have ok': "rows_ok jobId rows'"
      using ok by (simp add: rows'_def rows_ok_deleteMany)
    have IH: "eviction_result jobId rows' e'
        (evicted (need - ev_removedBytes e') (beyond jobId (ev_cursorSequence e') rows'))
        (evict_loop need n jobId rows' e')"
      using "1.IH" [OF _ refl _ refl] True ok' \<open>0 < n\<close>
      by (simp add: oldest e'_def [symmetric] e'(1) rows'_def)
    have split: "evicted b S = E1 @ evicted (b - chunk_bytes page) (drop n S)"
      using evicted_append [of page b "drop n S"] beyond_bytes_nonneg [OF ok]
      by (simp add: E1_def page_def S_def) (metis in_set_takeD)
    have rest: "evicted (need - ev_removedBytes e') (beyond jobId (ev_cursorSequence e') rows') =
        evicted (b - chunk_bytes page) (drop n S)"
    proof (cases "E1 = page")
      case E1: True
      with True have "beyond jobId (ev_cursorSequence e') rows' = drop n S"
        using beyond_next [OF ok, of n "ev_cursorSequence e"] e'(4)
        by (simp add: rows'_def page_def S_def)
      with E1 show ?thesis
        by (simp add: b_def e'(3) algebra_simps)
    next
      case False
      then have "b \<le> chunk_bytes E1"
        using evicted_prefix [of b page] unfolding E1_def by (metis take_all_iff order_refl)
      moreover have "chunk_bytes E1 \<le> chunk_bytes page"
      proof -
        have "0 \<le> chunk_bytes (drop k page)" for k
          using beyond_bytes_nonneg [OF ok] unfolding page_def S_def
          by (intro chunk_bytes_nonneg) (metis in_set_dropD in_set_takeD)
        then show ?thesis
          using evicted_prefix [of b page] unfolding E1_def
          by (metis append_take_drop_id chunk_bytes_simps(3) le_add_same_cancel1)
      qed
      ultimately show ?thesis
        by (simp add: b_def e'(3))
    qed
    show ?thesis
      using IH unfolding loop rest S_def [symmetric] b_def [symmetric] split
      by (auto simp: eviction_result_def rows'_def deleteMany_deleteMany e' deleteMany_def
          intro!: filter_cong)
  qed
qed

text \<open>
  C21. The paged eviction of \<open>persistChunks\<close> is the reference computation of \<open>lib/domain.ts\<close>: when
  the running total is the size of the stored rows, the rows the loop deletes are exactly those
  \<open>chunkIdsToRemove\<close> names on the whole list of retained chunks, whatever the page size.
\<close>

theorem eviction_matches_reference:
  assumes "0 < pageSize" and "rows_ok jobId rows"
    and "projected = chunk_bytes (chunks_of jobId rows)" and "maximumBytes < projected"
  shows "fst (evict_loop (projected - maximumBytes) pageSize jobId rows no_eviction) =
    deleteMany (\<lambda>c. ch_id c \<in> set (chunkIdsToRemove
        (map (\<lambda>c. (ch_id c, ch_byteLength c)) (sort_key ch_sequence (chunks_of jobId rows)))
        maximumBytes)) rows"
proof -
  let ?S = "sort_key ch_sequence (chunks_of jobId rows)"
  have total: "chunk_bytes ?S = projected"
    unfolding assms(3) chunk_bytes_def by (rule sum_list_sort_key)
  have "fst (evict_loop (projected - maximumBytes) pageSize jobId rows no_eviction) =
      deleteMany (\<lambda>c. ch_id c \<in> ch_id ` set (evicted (projected - maximumBytes) ?S)) rows"
    using evict_loop_result [OF assms(1,2), of no_eviction "projected - maximumBytes"]
    by (simp add: eviction_result_def no_eviction_def beyond_start [OF assms(2)])
  moreover have "ch_id ` set (evicted (projected - maximumBytes) ?S) =
      set (chunkIdsToRemove (sized ?S) maximumBytes)"
    using evicted_ids [of "projected - maximumBytes" ?S] assms(4) total
    by (simp add: chunkIdsToRemove_def) (metis image_set)
  ultimately show ?thesis
    by (simp add: sized_def)
qed

theorem eviction_matches_reference_witness:
  "let mk = (\<lambda>i s n. \<lparr>ch_id = i, ch_jobId = ''j'', ch_sequence = s, ch_stream = Stdout, ch_data = '''',
               ch_byteLength = n, ch_timestamp = 0\<rparr>);
       rows = [mk 0 0 60, mk 1 1 50, mk 2 2 40] in
   fst (evict_loop (150 - 100) 32 ''j'' rows no_eviction) = [mk 1 1 50, mk 2 2 40]"
proof -
  define mk where "mk i s n = \<lparr>ch_id = i, ch_jobId = ''j'', ch_sequence = s, ch_stream = Stdout,
    ch_data = '''', ch_byteLength = n, ch_timestamp = 0\<rparr>" for i :: nat and s n :: int
  define rows where "rows = [mk 0 0 60, mk 1 1 50, mk 2 2 40]"
  have ok: "rows_ok ''j'' rows" and total: "150 = chunk_bytes (chunks_of ''j'' rows)"
    by (simp_all add: rows_ok_def rows_def mk_def chunks_of_def)
  have "fst (evict_loop (150 - 100) 32 ''j'' rows no_eviction) = [mk 1 1 50, mk 2 2 40]"
    using eviction_matches_reference [of 32 "''j''" rows 150 100, OF _ ok total]
    by (simp add: rows_def mk_def chunks_of_def chunkIdsToRemove_def)
  then show ?thesis
    by (simp add: rows_def mk_def Let_def)
qed

subsection \<open>The abstract log\<close>

text \<open>
  What a job's stored output is, abstractly: a log in sequence order that keeps, of everything
  it was given, the longest newest part within the byte limit.
\<close>

definition log_bytes :: "out_chunk list \<Rightarrow> int" where
  "log_bytes cs = (\<Sum>c \<leftarrow> cs. utf8_length (oc_data c))"

fun newest_within :: "int \<Rightarrow> out_chunk list \<Rightarrow> out_chunk list" where
  "newest_within limit [] = []"
| "newest_within limit (c # cs) =
     (if log_bytes (c # cs) \<le> limit then c # cs else newest_within limit cs)"

definition spec_append :: "int \<Rightarrow> out_chunk list \<Rightarrow> out_chunk list \<Rightarrow> out_chunk list" where
  "spec_append limit log batch =
     newest_within limit (sort_key oc_sequence
       (log @ filter (\<lambda>c. oc_sequence c \<notin> oc_sequence ` set log) batch))"

lemma log_bytes_simps [simp]:
  "log_bytes [] = 0" "log_bytes (c # cs) = utf8_length (oc_data c) + log_bytes cs"
  "log_bytes (cs @ ds) = log_bytes cs + log_bytes ds"
  by (simp_all add: log_bytes_def)

lemma newest_within_id: "log_bytes cs \<le> limit \<Longrightarrow> newest_within limit cs = cs"
  by (cases cs) auto

lemma newest_within_bound: "0 \<le> limit \<Longrightarrow> log_bytes (newest_within limit cs) \<le> limit"
  by (induction limit cs rule: newest_within.induct) auto

definition sized_by_data :: "chunk list \<Rightarrow> bool" where
  "sized_by_data cs \<longleftrightarrow> (\<forall>c \<in> set cs. ch_byteLength c = utf8_length (ch_data c))"

lemma log_bytes_wire:
  "sized_by_data cs \<Longrightarrow> log_bytes (map wire_chunk cs) = chunk_bytes cs"
  by (induction cs) (auto simp: sized_by_data_def wire_chunk_def)

lemma wire_sequence [simp]: "oc_sequence (wire_chunk c) = ch_sequence c"
  by (simp add: wire_chunk_def)

text \<open>Dropping the evicted prefix is keeping the newest part.\<close>

lemma drop_evicted_newest:
  "sized_by_data cs \<Longrightarrow>
   map wire_chunk (drop (length (evicted (chunk_bytes cs - limit) cs)) cs) =
   newest_within limit (map wire_chunk cs)"
proof (induction cs)
  case (Cons c cs)
  have bytes: "log_bytes (map wire_chunk (c # cs)) = chunk_bytes (c # cs)"
    using Cons.prems by (rule log_bytes_wire)
  show ?case
  proof (cases "chunk_bytes (c # cs) \<le> limit")
    case True
    with bytes show ?thesis by simp
  next
    case False
    then have "evicted (chunk_bytes (c # cs) - limit) (c # cs) =
        c # evicted (chunk_bytes cs - limit) cs"
      by (simp add: evicted_Cons)
    with False bytes Cons show ?thesis
      by (simp add: sized_by_data_def)
  qed
qed simp

subsection \<open>Inserting a batch with fresh, distinct sequences\<close>

fun new_rows :: "ms \<Rightarrow> ident \<Rightarrow> nat \<Rightarrow> out_chunk list \<Rightarrow> chunk list" where
  "new_rows now jobId n [] = []"
| "new_rows now jobId n (c # cs) =
     \<lparr>ch_id = n, ch_jobId = jobId, ch_sequence = oc_sequence c, ch_stream = oc_stream c,
      ch_data = oc_data c, ch_byteLength = utf8_length (oc_data c), ch_timestamp = now\<rparr> #
     new_rows now jobId (Suc n) cs"

lemma createMany_fresh:
  "distinct (map oc_sequence cs) \<Longrightarrow>
   \<forall>c \<in> set cs. \<forall>r \<in> set rows. ch_jobId r = jobId \<longrightarrow> ch_sequence r \<noteq> oc_sequence c \<Longrightarrow>
   createMany now jobId cs (n, rows) = (n + length cs, rows @ new_rows now jobId n cs)"
proof (induction cs arbitrary: n rows)
  case (Cons c cs)
  have fresh: "\<not> (\<exists>r \<in> set rows. ch_jobId r = jobId \<and> ch_sequence r = oc_sequence c)"
    using Cons.prems(2) by auto
  let ?row = "\<lparr>ch_id = n, ch_jobId = jobId, ch_sequence = oc_sequence c, ch_stream = oc_stream c,
      ch_data = oc_data c, ch_byteLength = utf8_length (oc_data c), ch_timestamp = now\<rparr>"
  have "createMany now jobId cs (Suc n, rows @ [?row]) =
      (Suc n + length cs, (rows @ [?row]) @ new_rows now jobId (Suc n) cs)"
    using Cons.prems by (intro Cons.IH) (auto simp: image_iff)
  with fresh show ?case by (simp only: createMany.simps if_False) simp
qed simp

lemma new_rows_job [simp]: "chunks_of jobId (new_rows now jobId n cs) = new_rows now jobId n cs"
  by (induction cs arbitrary: n) (auto simp: chunks_of_def)

lemma new_rows_other: "j \<noteq> jobId \<Longrightarrow> chunks_of j (new_rows now jobId n cs) = []"
  by (induction cs arbitrary: n) (auto simp: chunks_of_def)

lemma new_rows_wire [simp]: "map wire_chunk (new_rows now jobId n cs) = cs"
  by (induction cs arbitrary: n) (auto simp: wire_chunk_def)

lemma new_rows_sequences [simp]: "map ch_sequence (new_rows now jobId n cs) = map oc_sequence cs"
  by (induction cs arbitrary: n) auto

lemma new_rows_ids [simp]: "map ch_id (new_rows now jobId n cs) = [n ..< n + length cs]"
  by (induction cs arbitrary: n) (auto simp: upt_rec)

lemma new_rows_bytes: "chunk_bytes (new_rows now jobId n cs) = (\<Sum>c \<leftarrow> cs. utf8_length (oc_data c))"
  and new_rows_sized: "sized_by_data (new_rows now jobId n cs)"
  and new_rows_jobId: "r \<in> set (new_rows now jobId n cs) \<Longrightarrow> ch_jobId r = jobId"
  by (induction cs arbitrary: n) (auto simp: sized_by_data_def)

lemma chunks_of_append [simp]: "chunks_of j (xs @ ys) = chunks_of j xs @ chunks_of j ys"
  by (simp add: chunks_of_def)

subsection \<open>The invariant of stored output and its preservation\<close>

text \<open>
  What holds of a job's stored output: keys are unique, a row's byte length is that of its data,
  the job's running total is the size of its rows, and that is within the cap.
\<close>

definition output_inv :: "int \<Rightarrow> ident \<Rightarrow> db \<Rightarrow> bool" where
  "output_inv maximumOutputBytes jobId d \<longleftrightarrow>
     jobs_keyed d \<and> chunks_keyed d \<and>
     (\<forall>c \<in> set (chunks_of jobId (db_chunks d)). 0 \<le> ch_sequence c) \<and>
     sized_by_data (chunks_of jobId (db_chunks d)) \<and>
     (case findJob jobId d of None \<Rightarrow> True
      | Some job \<Rightarrow> job_retainedOutputBytes job = chunk_bytes (chunks_of jobId (db_chunks d)) \<and>
          job_retainedOutputBytes job \<le> maximumOutputBytes)"

text \<open>A batch as the agent's protocol intends it: one chunk per sequence number.\<close>

definition batch_ok :: "out_chunk list \<Rightarrow> bool" where
  "batch_ok cs \<longleftrightarrow> distinct (map oc_sequence cs) \<and> (\<forall>c \<in> set cs. 0 \<le> oc_sequence c)"

lemma chunks_keyed_job_sequences:
  "chunks_keyed d \<Longrightarrow> distinct (map ch_sequence (chunks_of j (db_chunks d)))"
  by (auto simp: chunks_keyed_def chunks_of_def distinct_map inj_on_def)

lemma sized_nonneg: "sized_by_data cs \<Longrightarrow> c \<in> set cs \<Longrightarrow> 0 \<le> ch_byteLength c"
  by (simp add: sized_by_data_def)

lemma output_inv_rows_ok: "output_inv m j d \<Longrightarrow> rows_ok j (db_chunks d)"
  using sized_nonneg [of "chunks_of j (db_chunks d)"]
  by (auto simp: output_inv_def rows_ok_def chunks_keyed_job_sequences) (simp add: chunks_keyed_def)

lemma batch_ok_filter: "batch_ok cs \<Longrightarrow> batch_ok (filter P cs)"
  by (auto simp: batch_ok_def distinct_map_filter)

text \<open>The table after the insert.\<close>

definition inserted_rows :: "ms \<Rightarrow> ident \<Rightarrow> out_chunk list \<Rightarrow> db \<Rightarrow> chunk list" where
  "inserted_rows now j cs d = db_chunks d @ new_rows now j (db_nextId d) cs"

definition fresh_batch :: "ident \<Rightarrow> out_chunk list \<Rightarrow> db \<Rightarrow> bool" where
  "fresh_batch j cs d \<longleftrightarrow> batch_ok cs \<and>
     (\<forall>c \<in> set cs. oc_sequence c \<notin> ch_sequence ` set (chunks_of j (db_chunks d)))"

lemma createMany_inserted:
  "fresh_batch j cs d \<Longrightarrow>
   createMany now j cs (db_nextId d, db_chunks d) =
     (db_nextId d + length cs, inserted_rows now j cs d)"
  unfolding inserted_rows_def fresh_batch_def batch_ok_def
  by (intro createMany_fresh) force+

lemma new_rows_ids_set: "ch_id ` set (new_rows now j n cs) = {n ..< n + length cs}"
  by (simp only: set_map [symmetric] new_rows_ids set_upt)

lemma new_rows_sequences_set: "ch_sequence ` set (new_rows now j n cs) = oc_sequence ` set cs"
  by (simp only: set_map [symmetric] new_rows_sequences)

lemma inserted_ids:
  assumes "chunks_keyed d"
  shows "distinct (map ch_id (inserted_rows now j cs d))"
    and "\<forall>c \<in> set (inserted_rows now j cs d). ch_id c < db_nextId d + length cs"
proof -
  have old: "ch_id ` set (db_chunks d) \<subseteq> {..< db_nextId d}"
    and d: "distinct (map ch_id (db_chunks d))"
    using assms by (auto simp: chunks_keyed_def)
  have "ch_id ` set (db_chunks d) \<inter> ch_id ` set (new_rows now j (db_nextId d) cs) = {}"
    using old by (force simp: new_rows_ids_set)
  then show "distinct (map ch_id (inserted_rows now j cs d))"
    using d by (simp only: inserted_rows_def map_append distinct_append set_map new_rows_ids
        new_rows_ids_set set_upt distinct_upt simp_thms)
  show "\<forall>c \<in> set (inserted_rows now j cs d). ch_id c < db_nextId d + length cs"
  proof
    fix c assume "c \<in> set (inserted_rows now j cs d)"
    then have "ch_id c \<in> ch_id ` set (db_chunks d) \<or> ch_id c \<in> ch_id ` set (new_rows now j (db_nextId d) cs)"
      by (auto simp: inserted_rows_def)
    then show "ch_id c < db_nextId d + length cs"
      using old by (auto simp: new_rows_ids_set)
  qed
qed

lemma new_rows_keys:
  "map (\<lambda>c. (ch_jobId c, ch_sequence c)) (new_rows now j n cs) = map (\<lambda>c. (j, oc_sequence c)) cs"
  by (induction cs arbitrary: n) auto

lemma inserted_keys:
  assumes "chunks_keyed d" and "fresh_batch j cs d"
  shows "distinct (map (\<lambda>c. (ch_jobId c, ch_sequence c)) (inserted_rows now j cs d))"
proof -
  let ?k = "\<lambda>c. (ch_jobId c, ch_sequence c)"
  have n: "?k ` set (new_rows now j (db_nextId d) cs) = (\<lambda>c. (j, oc_sequence c)) ` set cs"
    by (simp only: set_map [symmetric] new_rows_keys)
  have "?k ` set (db_chunks d) \<inter> ?k ` set (new_rows now j (db_nextId d) cs) = {}"
    using assms(2) unfolding n by (auto simp: fresh_batch_def chunks_of_def image_iff) metis
  moreover have "distinct (map (\<lambda>c. (j, oc_sequence c)) cs)"
    using assms(2) by (auto simp: fresh_batch_def batch_ok_def distinct_map inj_on_def)
  moreover have "distinct (map ?k (db_chunks d))"
    using assms(1) by (simp add: chunks_keyed_def)
  ultimately show ?thesis
    by (simp only: inserted_rows_def map_append distinct_append set_map new_rows_keys n simp_thms)
qed

lemma inserted_chunks_of:
  "chunks_of j (inserted_rows now j cs d) = chunks_of j (db_chunks d) @ new_rows now j (db_nextId d) cs"
  by (simp add: inserted_rows_def)

lemma inserted_rows_ok:
  assumes "output_inv m j d" and "fresh_batch j cs d"
  shows "rows_ok j (inserted_rows now j cs d)"
proof -
  have k: "chunks_keyed d"
    using assms(1) by (simp add: output_inv_def)
  have "distinct (map ch_sequence (chunks_of j (inserted_rows now j cs d)))"
    using inserted_keys [OF k assms(2), of now]
    by (auto simp: chunks_of_def distinct_map inj_on_def)
  moreover have "0 \<le> ch_sequence c \<and> 0 \<le> ch_byteLength c"
    if "c \<in> set (chunks_of j (inserted_rows now j cs d))" for c
  proof (cases "c \<in> set (chunks_of j (db_chunks d))")
    case True
    with assms(1) show ?thesis
      by (auto simp: output_inv_def sized_by_data_def)
  next
    case False
    with that have c: "c \<in> set (new_rows now j (db_nextId d) cs)"
      by (auto simp: inserted_chunks_of simp del: set_chunks_of)
    then have "ch_sequence c \<in> oc_sequence ` set cs"
      using new_rows_sequences_set by blast
    then have "0 \<le> ch_sequence c"
      using assms(2) by (auto simp: fresh_batch_def batch_ok_def)
    moreover have "0 \<le> ch_byteLength c"
      using c new_rows_sized [of now j "db_nextId d" cs] by (simp add: sized_by_data_def)
    ultimately show ?thesis by simp
  qed
  ultimately show ?thesis
    using inserted_ids(1) [OF k] by (simp add: rows_ok_def)
qed

lemma inserted_sized:
  assumes "output_inv m j d"
  shows "sized_by_data (chunks_of j (inserted_rows now j cs d))"
  using assms new_rows_sized [of now j "db_nextId d" cs]
  by (auto simp: output_inv_def inserted_chunks_of sized_by_data_def)

text \<open>The rows of the job after the insert, in order, and those the transaction evicts.\<close>

definition sorted_inserted :: "ms \<Rightarrow> ident \<Rightarrow> out_chunk list \<Rightarrow> db \<Rightarrow> chunk list" where
  "sorted_inserted now j cs d = sort_key ch_sequence (chunks_of j (inserted_rows now j cs d))"

definition evicted_rows :: "int \<Rightarrow> ms \<Rightarrow> ident \<Rightarrow> out_chunk list \<Rightarrow> db \<Rightarrow> chunk list" where
  "evicted_rows m now j cs d =
     (let S = sorted_inserted now j cs d in evicted (chunk_bytes S - m) S)"

lemma sorted_inserted_bytes:
  assumes "output_inv m j d" and "findJob j d = Some job"
  shows "chunk_bytes (sorted_inserted now j cs d) =
    job_retainedOutputBytes job + (\<Sum>c \<leftarrow> cs. utf8_length (oc_data c))"
proof -
  have "chunk_bytes (sorted_inserted now j cs d) = chunk_bytes (chunks_of j (inserted_rows now j cs d))"
    unfolding sorted_inserted_def chunk_bytes_def by (rule sum_list_sort_key)
  with assms show ?thesis
    by (simp add: output_inv_def inserted_chunks_of new_rows_bytes)
qed

text \<open>The transaction in one equation.\<close>

lemma persist_transaction_eq:
  fixes now :: ms
  assumes inv: "output_inv m j d" and job: "findJob j d = Some job" and fresh: "fresh_batch j cs d"
  defines "E \<equiv> evicted_rows m now j cs d"
  defines "trunc \<equiv> job_outputTruncated job \<or> E \<noteq> []"
  shows "persist_transaction m now job cs d =
    ((map ch_sequence E, trunc),
     snd (updateJob now j
       (\<lambda>r. r\<lparr>job_retainedOutputBytes := chunk_bytes (sorted_inserted now j cs d) - chunk_bytes E,
              job_outputTruncated := trunc\<rparr>)
       (d\<lparr>db_chunks := deleteMany (\<lambda>c. ch_id c \<in> ch_id ` set E) (inserted_rows now j cs d),
          db_nextId := db_nextId d + length cs\<rparr>)))"
proof -
  have id: "job_id job = j"
    using job by (auto dest: findJob_SomeD)
  define S where "S = sorted_inserted now j cs d"
  have proj: "job_retainedOutputBytes job + (\<Sum>c \<leftarrow> cs. utf8_length (oc_data c)) = chunk_bytes S"
    using sorted_inserted_bytes [OF inv job] by (simp add: S_def)
  have ok: "rows_ok j (inserted_rows now j cs d)"
    using inv fresh by (rule inserted_rows_ok)
  have E: "E = evicted (chunk_bytes S - m) S"
    by (simp add: E_def evicted_rows_def S_def Let_def)
  define loop where "loop = (if chunk_bytes S > m
             then evict_loop (chunk_bytes S - m) (eviction_page_size cs) j (inserted_rows now j cs d) no_eviction
             else (inserted_rows now j cs d, no_eviction))"
  have "0 < eviction_page_size cs"
    by (simp add: eviction_page_size_def)
  then have "eviction_result j (inserted_rows now j cs d) no_eviction E loop"
    using evict_loop_result [OF _ ok, of "eviction_page_size cs" no_eviction "chunk_bytes S - m"]
    by (auto simp: loop_def E no_eviction_def beyond_start [OF ok] S_def sorted_inserted_def
        intro: eviction_result_none)
  then obtain rows e where loop: "loop = (rows, e)"
    and rows: "rows = deleteMany (\<lambda>c. ch_id c \<in> ch_id ` set E) (inserted_rows now j cs d)"
    and e: "ev_removedSequences e = map ch_sequence E" "ev_removedBytes e = chunk_bytes E"
    by (cases loop) (auto simp: eviction_result_def no_eviction_def)
  show ?thesis
    using createMany_inserted [OF fresh, of now] loop
    unfolding persist_transaction_def id Let_def proj loop_def
    by (simp add: proj rows e trunc_def S_def [symmetric])
qed

definition unseen :: "ident \<Rightarrow> out_chunk list \<Rightarrow> db \<Rightarrow> out_chunk list" where
  "unseen j chunks d =
     filter (\<lambda>c. oc_sequence c \<notin> ch_sequence ` set (chunks_of j (db_chunks d))) chunks"

lemma unseen_fresh: "batch_ok chunks \<Longrightarrow> fresh_batch j (unseen j chunks d) d"
  by (auto simp: fresh_batch_def unseen_def intro: batch_ok_filter)

lemma persistChunks_eq:
  assumes "findJob j d = Some job"
  shows "persistChunks m now dv j chunks d =
    (if job_deviceId job \<noteq> dv \<or> unseen j chunks d = [] then (nothing_persisted, d)
     else (case persist_transaction m now job (unseen j chunks d) d of
             ((removed, trunc), d') \<Rightarrow>
               (\<lparr>pr_chunks = filter (\<lambda>c. oc_sequence c \<notin> set removed) (unseen j chunks d),
                 pr_userId = Some (job_userId job), pr_truncated = trunc\<rparr>, d')))"
proof -
  have new: "filter (\<lambda>c. oc_sequence c \<notin> ch_sequence ` set (filter (\<lambda>c. ch_jobId c = j \<and>
        ch_sequence c \<in> set (map oc_sequence chunks)) (db_chunks d))) chunks = unseen j chunks d"
    unfolding unseen_def by (intro filter_cong refl) (auto simp: image_iff, metis)
  have "chunks = [] \<Longrightarrow> unseen j chunks d = []"
    by (simp add: unseen_def)
  with new show ?thesis
    using assms by (auto simp: persistChunks_def Let_def simp del: set_map)
qed

lemma persistChunks_none:
  "findJob j d = None \<Longrightarrow> persistChunks m now dv j chunks d = (nothing_persisted, d)"
  by (simp add: persistChunks_def)

text \<open>The job's rows after the eviction, in order: the inserted ones without the evicted prefix.\<close>

lemma sorted_after_eviction:
  assumes ok: "rows_ok j rows" and S: "S = sort_key ch_sequence (chunks_of j rows)"
  shows "sort_key ch_sequence (chunks_of j (deleteMany (\<lambda>c. ch_id c \<in> ch_id ` set (evicted need S)) rows)) =
    drop (length (evicted need S)) S"
proof -
  obtain k where k: "evicted need S = take k S" "k \<le> length S"
    by (rule evicted_prefix)
  have "distinct (map ch_id S)"
    using ok by (auto simp: rows_ok_def S distinct_map chunks_of_def intro: inj_on_subset)
  then have "filter (\<lambda>c. ch_id c \<notin> ch_id ` set (take k S)) S = drop k S"
    by (rule filter_not_in_prefix)
  then show ?thesis
    using k by (simp add: chunks_of_deleteMany filter_sort [symmetric] S del: set_chunks_of)
qed

lemma drop_evicted_bytes:
  "chunk_bytes (drop (length (evicted need S)) S) = chunk_bytes S - chunk_bytes (evicted need S)"
proof -
  obtain k where k: "evicted need S = take k S" "k \<le> length S"
    by (rule evicted_prefix)
  have "chunk_bytes (take k S @ drop k S) = chunk_bytes (take k S) + chunk_bytes (drop k S)"
    by (simp only: chunk_bytes_simps)
  then show ?thesis
    using k by simp
qed

lemma evicted_enough:
  assumes "0 \<le> limit"
  shows "chunk_bytes S - chunk_bytes (evicted (chunk_bytes S - limit) S) \<le> limit"
proof -
  obtain k where "evicted (chunk_bytes S - limit) S = take k S" "k \<le> length S"
    "chunk_bytes S - limit \<le> chunk_bytes (take k S) \<or> k = length S"
    by (rule evicted_prefix)
  with assms show ?thesis by auto
qed

subsection \<open>Persisting a batch refines the abstract log\<close>

text \<open>The database after a batch with something new in it has been stored.\<close>

lemma persisted_state:
  fixes m :: int and now :: ms
  assumes inv: "output_inv m j d" and job: "findJob j d = Some job" and dev: "job_deviceId job = dv"
    and ok: "batch_ok chunks" and new: "unseen j chunks d \<noteq> []"
  defines "cs \<equiv> unseen j chunks d"
  defines "E \<equiv> evicted_rows m now j cs d"
  defines "d' \<equiv> snd (persistChunks m now dv j chunks d)"
  shows "db_chunks d' = deleteMany (\<lambda>c. ch_id c \<in> ch_id ` set E) (inserted_rows now j cs d)"
    and "findJob j d' = Some (job\<lparr>job_retainedOutputBytes :=
        chunk_bytes (sorted_inserted now j cs d) - chunk_bytes E,
        job_outputTruncated := job_outputTruncated job \<or> E \<noteq> [], job_updatedAt := now\<rparr>)"
    and "db_nextId d' = db_nextId d + length cs"
    and "jobs_keyed d'"
    and "fst (persistChunks m now dv j chunks d) =
      \<lparr>pr_chunks = filter (\<lambda>c. oc_sequence c \<notin> ch_sequence ` set E) cs,
       pr_userId = Some (job_userId job), pr_truncated = (job_outputTruncated job \<or> E \<noteq> [])\<rparr>"
proof -
  have fresh: "fresh_batch j cs d"
    unfolding cs_def by (rule unseen_fresh [OF ok])
  note T = persist_transaction_eq [OF inv job fresh, of now, folded E_def]
  have P: "persistChunks m now dv j chunks d =
      (\<lparr>pr_chunks = filter (\<lambda>c. oc_sequence c \<notin> ch_sequence ` set E) cs,
       pr_userId = Some (job_userId job), pr_truncated = (job_outputTruncated job \<or> E \<noteq> [])\<rparr>,
       snd (persist_transaction m now job cs d))"
    using dev new unfolding persistChunks_eq [OF job] cs_def [symmetric] T by simp
  then have d': "d' = snd (persist_transaction m now job cs d)"
    by (simp add: d'_def)
  let ?d1 = "d\<lparr>db_chunks := deleteMany (\<lambda>c. ch_id c \<in> ch_id ` set E) (inserted_rows now j cs d),
      db_nextId := db_nextId d + length cs\<rparr>"
  have "findJob j ?d1 = Some job"
    using job by (simp add: findJob_def)
  then show "findJob j d' = Some (job\<lparr>job_retainedOutputBytes :=
        chunk_bytes (sorted_inserted now j cs d) - chunk_bytes E,
        job_outputTruncated := job_outputTruncated job \<or> E \<noteq> [], job_updatedAt := now\<rparr>)"
    using job unfolding d' T by (simp add: findJob_updateJob) (auto dest: findJob_SomeD)
  show "db_chunks d' = deleteMany (\<lambda>c. ch_id c \<in> ch_id ` set E) (inserted_rows now j cs d)"
    and "db_nextId d' = db_nextId d + length cs"
    unfolding d' T by (simp_all add: frame_simps)
  have "jobs_keyed ?d1"
    using inv by (simp add: output_inv_def jobs_keyed_def)
  then show "jobs_keyed d'"
    unfolding d' T snd_conv by (rule jobs_keyed_updateJob) simp
  show "fst (persistChunks m now dv j chunks d) =
      \<lparr>pr_chunks = filter (\<lambda>c. oc_sequence c \<notin> ch_sequence ` set E) cs,
       pr_userId = Some (job_userId job), pr_truncated = (job_outputTruncated job \<or> E \<noteq> [])\<rparr>"
    by (simp add: P)
qed

lemma persisted_sorted:
  fixes m :: int and now :: ms
  assumes inv: "output_inv m j d" and job: "findJob j d = Some job" and dev: "job_deviceId job = dv"
    and ok: "batch_ok chunks" and new: "unseen j chunks d \<noteq> []"
  defines "cs \<equiv> unseen j chunks d"
  shows "sort_key ch_sequence (chunks_of j (db_chunks (snd (persistChunks m now dv j chunks d)))) =
    drop (length (evicted_rows m now j cs d)) (sorted_inserted now j cs d)"
proof -
  have "fresh_batch j cs d"
    unfolding cs_def by (rule unseen_fresh [OF ok])
  then have rows: "rows_ok j (inserted_rows now j cs d)"
    by (rule inserted_rows_ok [OF inv])
  show ?thesis
    unfolding persisted_state(1) [OF inv job dev ok new] cs_def [symmetric] evicted_rows_def Let_def
    using sorted_after_eviction [OF rows, of "sorted_inserted now j cs d"]
    by (simp add: sorted_inserted_def)
qed

lemma output_log_bytes:
  assumes "output_inv m j d"
  shows "log_bytes (output_log j d) = chunk_bytes (chunks_of j (db_chunks d))"
proof -
  have "sized_by_data (sort_key ch_sequence (chunks_of j (db_chunks d)))"
    using assms by (simp add: output_inv_def sized_by_data_def)
  then have "log_bytes (output_log j d) = chunk_bytes (sort_key ch_sequence (chunks_of j (db_chunks d)))"
    unfolding output_log_def by (rule log_bytes_wire)
  then show ?thesis
    by (simp add: chunk_bytes_def sum_list_sort_key)
qed

lemma output_log_sequences:
  "oc_sequence ` set (output_log j d) = ch_sequence ` set (chunks_of j (db_chunks d))"
  by (simp add: output_log_def image_image del: set_chunks_of)

lemma output_log_sorted:
  assumes "chunks_keyed d"
  shows "strict_sorted_by oc_sequence (output_log j d)"
proof -
  have "strict_sorted_by ch_sequence (sort_key ch_sequence (chunks_of j (db_chunks d)))"
    by (intro strict_sorted_by_sort_key chunks_keyed_job_sequences assms)
  then show ?thesis
    by (simp add: output_log_def strict_sorted_by_def comp_def)
qed

lemma sorted_inserted_log:
  assumes "output_inv m j d" and "batch_ok chunks"
  shows "map wire_chunk (sorted_inserted now j (unseen j chunks d) d) =
    sort_key oc_sequence (output_log j d @
      filter (\<lambda>c. oc_sequence c \<notin> oc_sequence ` set (output_log j d)) chunks)"
proof -
  let ?cs = "unseen j chunks d"
  have cs: "filter (\<lambda>c. oc_sequence c \<notin> oc_sequence ` set (output_log j d)) chunks = ?cs"
    by (simp add: output_log_sequences unseen_def)
  have k: "chunks_keyed d"
    using assms(1) by (simp add: output_inv_def)
  let ?old = "map wire_chunk (chunks_of j (db_chunks d))"
  have "map wire_chunk (sorted_inserted now j ?cs d) = sort_key oc_sequence (?old @ ?cs)"
    using map_sort_key [of wire_chunk oc_sequence]
    by (simp add: sorted_inserted_def inserted_chunks_of)
  moreover have "sort_key oc_sequence (?old @ ?cs) = sort_key oc_sequence (output_log j d @ ?cs)"
  proof (rule sort_key_cong_set)
    have old: "set ?old = set (output_log j d)"
      by (simp add: output_log_def)
    have disj: "oc_sequence ` set (output_log j d) \<inter> oc_sequence ` set ?cs = {}"
      unfolding cs [symmetric] by (auto, metis imageI)
    have cs_d: "distinct (map oc_sequence ?cs)"
      using unseen_fresh [OF assms(2)] by (auto simp: fresh_batch_def batch_ok_def)
    have old_d: "distinct (map oc_sequence ?old)"
      using chunks_keyed_job_sequences [OF k] by (simp add: comp_def)
    have log_d: "distinct (map oc_sequence (output_log j d))"
      using output_log_sorted [OF k] by (rule strict_sorted_by_distinct)
    show "set (?old @ ?cs) = set (output_log j d @ ?cs)"
      by (simp only: set_append old)
    show "distinct (map oc_sequence (?old @ ?cs))"
      using cs_d old_d disj by (simp only: map_append distinct_append set_map [of oc_sequence] old simp_thms)
    show "distinct (map oc_sequence (output_log j d @ ?cs))"
      using cs_d log_d disj by (simp only: map_append distinct_append set_map simp_thms)
  qed
  ultimately show ?thesis
    unfolding cs by simp
qed

lemma persist_log:
  assumes inv: "output_inv m j d" and job: "findJob j d = Some job" and dev: "job_deviceId job = dv"
    and ok: "batch_ok chunks"
  shows "output_log j (snd (persistChunks m now dv j chunks d)) = spec_append m (output_log j d) chunks"
proof (cases "unseen j chunks d = []")
  case True
  then have "snd (persistChunks m now dv j chunks d) = d"
    using persistChunks_eq [OF job] by simp
  moreover have "sort_key oc_sequence (output_log j d) = output_log j d"
    by (intro strict_sorted_by_unique [of oc_sequence] strict_sorted_by_sort_key
        strict_sorted_by_distinct output_log_sorted) (use inv in \<open>simp_all add: output_inv_def\<close>)
  moreover have "log_bytes (output_log j d) \<le> m"
    using inv job output_log_bytes [OF inv] by (simp add: output_inv_def)
  ultimately show ?thesis
    using True by (simp add: spec_append_def output_log_sequences unseen_def newest_within_id del: set_chunks_of)
next
  case False
  let ?cs = "unseen j chunks d"
  have sized: "sized_by_data (sorted_inserted now j ?cs d)"
    using inserted_sized [OF inv] by (simp add: sorted_inserted_def sized_by_data_def)
  have "output_log j (snd (persistChunks m now dv j chunks d)) =
      newest_within m (map wire_chunk (sorted_inserted now j ?cs d))"
    unfolding output_log_def persisted_sorted [OF inv job dev ok False] evicted_rows_def Let_def
    by (rule drop_evicted_newest [OF sized])
  then show ?thesis
    unfolding spec_append_def sorted_inserted_log [OF inv ok] .
qed

text \<open>
  C1. \<open>persistChunks\<close> implements the abstract log: what a job's viewers can replay after a batch
  from the right device is what the abstract append keeps, that is the chunks with sequence
  numbers not seen before are merged in order and the longest newest part within the byte limit
  survives.
\<close>

theorem persist_refines_log:
  assumes inv: "output_inv m j d" and job: "findJob j d = Some job" and dev: "job_deviceId job = dv"
    and ok: "batch_ok chunks"
  shows "output_log j (snd (persistChunks m now dv j chunks d)) = spec_append m (output_log j d) chunks"
  using assms by (rule persist_log)

lemma persist_output_inv:
  assumes cap: "0 \<le> m" and inv: "output_inv m j d" and ok: "batch_ok chunks"
  shows "output_inv m j (snd (persistChunks m now dv j chunks d))"
proof (cases "\<exists>job. findJob j d = Some job \<and> job_deviceId job = dv \<and> unseen j chunks d \<noteq> []")
  case False
  then have "snd (persistChunks m now dv j chunks d) = d"
    by (cases "findJob j d") (auto simp: persistChunks_none persistChunks_eq)
  with inv show ?thesis by simp
next
  case True
  then obtain job where job: "findJob j d = Some job" and dev: "job_deviceId job = dv"
    and new: "unseen j chunks d \<noteq> []" by auto
  let ?cs = "unseen j chunks d"
  let ?d' = "snd (persistChunks m now dv j chunks d)"
  note state = persisted_state [OF inv job dev ok new, of now]
  have fresh: "fresh_batch j ?cs d" by (rule unseen_fresh [OF ok])
  have k: "chunks_keyed d" using inv by (simp add: output_inv_def)
  have sub: "set (db_chunks ?d') \<subseteq> set (inserted_rows now j ?cs d)"
    unfolding state(1) by auto
  have "chunks_keyed ?d'"
    using inserted_ids [OF k, of now j ?cs] inserted_keys [OF k fresh, of now]
    by (simp add: chunks_keyed_def state(1,3) distinct_map_deleteMany del: length_0_conv)
  moreover have "\<forall>c \<in> set (chunks_of j (db_chunks ?d')). 0 \<le> ch_sequence c"
    using sub inserted_rows_ok [OF inv fresh, of now] by (auto simp: rows_ok_def)
  moreover have "sized_by_data (chunks_of j (db_chunks ?d'))"
    using sub inserted_sized [OF inv, of now ?cs] by (auto simp: sized_by_data_def)
  moreover have "chunk_bytes (chunks_of j (db_chunks ?d')) =
      chunk_bytes (sorted_inserted now j ?cs d) - chunk_bytes (evicted_rows m now j ?cs d)"
    using persisted_sorted [OF inv job dev ok new, of now]
      sum_list_sort_key [of ch_byteLength ch_sequence "chunks_of j (db_chunks ?d')"]
    by (simp add: chunk_bytes_def [symmetric] evicted_rows_def Let_def drop_evicted_bytes)
  moreover have "chunk_bytes (sorted_inserted now j ?cs d) - chunk_bytes (evicted_rows m now j ?cs d) \<le> m"
    unfolding evicted_rows_def Let_def by (rule evicted_enough [OF cap])
  ultimately show ?thesis
    using state(2,4) by (simp add: output_inv_def del: set_chunks_of)
qed

text \<open>
  Storing a batch keeps the invariant of stored output: the running total of the job stays
  the size of its rows and never exceeds the retention cap, and keys stay unique.
\<close>

theorem persist_keeps_output_inv:
  assumes cap: "0 \<le> m" and inv: "output_inv m j d" and ok: "batch_ok chunks"
  shows "output_inv m j (snd (persistChunks m now dv j chunks d))"
  using assms by (rule persist_output_inv)

subsection \<open>Other jobs and other devices\<close>

lemma createMany_ids:
  assumes "distinct (map ch_id rows)" and "\<forall>c \<in> set rows. ch_id c < n"
  shows "distinct (map ch_id (snd (createMany now j cs (n, rows))))"
  using assms
proof (induction now j cs "(n, rows)" arbitrary: n rows rule: createMany.induct)
  case (2 now j c cs n rows)
  from 2(3,4) have fresh: "n \<notin> ch_id ` set rows" "\<forall>c \<in> set rows. ch_id c < Suc n"
    by (auto simp: less_SucI)
  show ?case
  proof (cases "\<exists>r \<in> set rows. ch_jobId r = j \<and> ch_sequence r = oc_sequence c")
    case True
    with 2 show ?thesis by (simp only: createMany.simps if_True)
  next
    case False
    with 2 fresh show ?thesis by (simp only: createMany.simps if_False) simp
  qed
qed simp

lemma createMany_other:
  "k \<noteq> j \<Longrightarrow> chunks_of k (snd (createMany now j cs (n, rows))) = chunks_of k rows"
proof (induction now j cs "(n, rows)" arbitrary: n rows rule: createMany.induct)
  case (2 now j c cs n rows)
  then show ?case by (simp add: chunks_of_def)
qed simp

lemma evict_page_ids:
  "set (ev_removeIds (evict_page need cs e)) \<subseteq> set (ev_removeIds e) \<union> ch_id ` set cs"
proof (induction need cs e rule: evict_page.induct)
  case (2 need c cs e)
  from 2 [OF refl] show ?case by (auto simp: Let_def dest!: subsetD)
qed simp

lemma evict_loop_other:
  assumes "k \<noteq> j" and "distinct (map ch_id rows)"
  shows "chunks_of k (fst (evict_loop need n j rows e)) = chunks_of k rows"
  using assms
proof (induction need n j rows e rule: evict_loop.induct)
  case (1 need n j rows e)
  define page where "page = oldest_page n j (ev_cursorSequence e) rows"
  define e' where "e' = evict_page need page (e\<lparr>ev_removeIds := []\<rparr>)"
  define rows' where "rows' = deleteMany (\<lambda>c. ch_id c \<in> set (ev_removeIds e')) rows"
  show ?case
  proof (cases "ev_removedBytes e < need \<and> page \<noteq> []")
    case False
    then have "evict_loop need n j rows e = (rows, e)"
      by (subst evict_loop.simps) (auto simp: page_def Let_def)
    then show ?thesis by simp
  next
    case True
    have "ch_id c \<notin> set (ev_removeIds e')" if c: "c \<in> set rows" "ch_jobId c = k" for c
    proof
      assume "ch_id c \<in> set (ev_removeIds e')"
      then have "ch_id c \<in> ch_id ` set page"
        using evict_page_ids [of need page "e\<lparr>ev_removeIds := []\<rparr>"] by (auto simp: e'_def)
      then obtain c' where c': "c' \<in> set page" "ch_id c = ch_id c'" by auto
      then have "c' \<in> set rows" "ch_jobId c' = j"
        by (auto simp: page_def oldest_page_def dest!: in_set_takeD)
      with c c'(2) 1(3,2) show False
        by (auto simp: distinct_map dest: inj_onD)
    qed
    then have "chunks_of k rows' = chunks_of k rows"
      unfolding rows'_def chunks_of_deleteMany by (intro filter_id_conv [THEN iffD2]) auto
    moreover have "evict_loop need n j rows e = evict_loop need n j rows' e'"
      using True by (subst evict_loop.simps) (simp add: page_def e'_def rows'_def Let_def)
    moreover have "distinct (map ch_id rows')"
      using 1(3) by (simp add: rows'_def distinct_map_deleteMany)
    ultimately show ?thesis
      using "1.IH" [of page e'] True 1(2) by (simp add: page_def e'_def rows'_def)
  qed
qed

lemma persist_transaction_other:
  assumes "chunks_keyed d" and "k \<noteq> job_id job"
  shows "chunks_of k (db_chunks (snd (persist_transaction m now job cs d))) = chunks_of k (db_chunks d)"
    and "findJob k (snd (persist_transaction m now job cs d)) = findJob k d"
proof -
  obtain n rows where cm: "createMany now (job_id job) cs (db_nextId d, db_chunks d) = (n, rows)"
    by force
  have ids: "distinct (map ch_id rows)"
    using createMany_ids [of "db_chunks d" "db_nextId d" now "job_id job" cs] assms(1)
    by (simp add: cm chunks_keyed_def)
  have same: "chunks_of k rows = chunks_of k (db_chunks d)"
    using createMany_other [OF assms(2), of now cs "db_nextId d" "db_chunks d"] by (simp add: cm)
  show "chunks_of k (db_chunks (snd (persist_transaction m now job cs d))) = chunks_of k (db_chunks d)"
    using evict_loop_other [OF assms(2) ids] same
    by (auto simp: persist_transaction_def cm Let_def frame_simps split: prod.splits) (metis fst_conv)+
  have "findJob k (snd (updateJob now (job_id job) f d1)) = findJob k d1"
    if "\<And>r. job_id (f r) = job_id r" for f d1
    using that assms(2) by (cases "findJob k d1") (auto simp: findJob_updateJob dest: findJob_SomeD)
  then show "findJob k (snd (persist_transaction m now job cs d)) = findJob k d"
    by (simp add: persist_transaction_def cm Let_def split: prod.splits) (simp add: findJob_def)
qed

lemma persist_other_device:
  "map_option job_deviceId (findJob j d) \<noteq> Some dv \<Longrightarrow>
   persistChunks m now dv j chunks d = (nothing_persisted, d)"
  by (cases "findJob j d") (auto simp: persistChunks_def)

lemma persist_other_job:
  assumes "chunks_keyed d" and kj: "k \<noteq> j"
  shows "output_log k (snd (persistChunks m now dv j chunks d)) = output_log k d \<and>
      findJob k (snd (persistChunks m now dv j chunks d)) = findJob k d"
proof (cases "findJob j d")
  case None
  then show ?thesis by (simp add: persistChunks_none)
next
  case (Some job)
  then have "k \<noteq> job_id job"
    using kj by (auto dest: findJob_SomeD)
  note other = persist_transaction_other [OF assms(1) this, of m now "unseen j chunks d"]
  show ?thesis
    using other unfolding persistChunks_eq [OF Some]
    by (cases "persist_transaction m now job (unseen j chunks d) d") (auto simp: output_log_def)
qed

text \<open>
  Output of a job touches nothing of any other job, whatever the agent sent, and a batch from
  a device that does not own the job is dropped without a write.
\<close>

theorem persist_isolation:
  assumes "chunks_keyed d"
  shows "(\<forall>k. k = j \<or>
       output_log k (snd (persistChunks m now dv j chunks d)) = output_log k d \<and>
       findJob k (snd (persistChunks m now dv j chunks d)) = findJob k d) \<and>
    (map_option job_deviceId (findJob j d) = Some dv \<or>
       persistChunks m now dv j chunks d = (nothing_persisted, d))"
  using persist_other_job [OF assms] persist_other_device by blast

definition example_chunks :: "out_chunk list" where
  "example_chunks =
     [\<lparr>oc_sequence = 0, oc_stream = Stdout, oc_data = ''ab''\<rparr>,
      \<lparr>oc_sequence = 1, oc_stream = Stdout, oc_data = ''cde''\<rparr>]"

definition output_example :: db where
  "output_example = example_db [example_job ''j'' ''u'' ''d'' Running, example_job ''k'' ''u'' ''e'' Running]"

lemmas output_example_defs = output_example_def example_chunks_def example_defs

lemma output_example_ok:
  "output_inv 4 ''j'' output_example" "batch_ok example_chunks"
  "findJob ''j'' output_example = Some (example_job ''j'' ''u'' ''d'' Running)"
  "chunks_keyed output_example" "output_log ''j'' output_example = []"
  by (simp_all add: output_example_defs output_inv_def jobs_keyed_def chunks_keyed_def chunks_of_def
      sized_by_data_def findJob_def batch_ok_def output_log_def)

theorem persist_refines_log_witness:
  "output_log ''j'' (snd (persistChunks 4 7 ''d'' ''j'' example_chunks output_example)) =
   [\<lparr>oc_sequence = 1, oc_stream = Stdout, oc_data = ''cde''\<rparr>]"
  using persist_refines_log [OF output_example_ok(1,3) _ output_example_ok(2), of "''d''" 7]
  by (simp add: output_example_ok(5)) (simp add: spec_append_def example_job_def example_chunks_def utf8_length_def)

theorem persist_keeps_output_inv_witness:
  "output_inv 4 ''j'' (snd (persistChunks 4 7 ''d'' ''j'' example_chunks output_example))"
  using persist_keeps_output_inv [OF _ output_example_ok(1,2), of 7 "''d''"] by simp

theorem persist_isolation_witness:
  "findJob ''k'' (snd (persistChunks 4 7 ''d'' ''j'' example_chunks output_example)) =
     Some (example_job ''k'' ''u'' ''e'' Running) \<and>
   persistChunks 4 7 ''e'' ''j'' example_chunks output_example = (nothing_persisted, output_example)"
proof -
  have k: "findJob ''k'' output_example = Some (example_job ''k'' ''u'' ''e'' Running)"
    by (simp add: output_example_defs findJob_def)
  note iso = persist_isolation [OF output_example_ok(4), of "''j''" 4 7 _ example_chunks]
  show ?thesis
    using iso [of "''d''", THEN conjunct1, THEN spec [where x = "''k''"]] iso [of "''e''", THEN conjunct2]
    by (simp add: k output_example_ok(3)) (simp add: example_job_def)
qed

subsection \<open>Resending a batch\<close>

lemma newest_within_append:
  "(\<exists>zs. zs \<noteq> [] \<and> newest_within limit (xs @ ys) = zs @ ys \<and> set zs \<subseteq> set xs) \<or>
   newest_within limit (xs @ ys) = newest_within limit ys"
proof (induction xs)
  case (Cons x xs)
  show ?case
  proof (cases "log_bytes (x # xs @ ys) \<le> limit")
    case True
    then have "newest_within limit ((x # xs) @ ys) = (x # xs) @ ys" by simp
    then show ?thesis by (intro disjI1 exI [of _ "x # xs"]) simp
  next
    case False
    then have "newest_within limit ((x # xs) @ ys) = newest_within limit (xs @ ys)" by simp
    with Cons show ?thesis by auto
  qed
qed simp

lemma newest_within_suffix: "\<exists>zs. xs = zs @ newest_within limit xs"
proof (induction limit xs rule: newest_within.induct)
  case (2 limit c cs)
  then show ?case
    by (cases "log_bytes (c # cs) \<le> limit") (auto intro: exI [of _ "c # _"])
qed simp

lemma newest_within_fits: "0 \<le> limit \<Longrightarrow> newest_within limit (newest_within limit xs) = newest_within limit xs"
  by (rule newest_within_id) (rule newest_within_bound)

text \<open>On the abstract log: a batch that continues the log can be given twice.\<close>

lemma spec_append_twice:
  assumes "0 \<le> limit" and log: "strict_sorted_by oc_sequence log" and b: "distinct (map oc_sequence batch)"
    and cont: "\<forall>x \<in> set log. \<forall>y \<in> set batch. oc_sequence x < oc_sequence y"
  shows "spec_append limit (spec_append limit log batch) batch = spec_append limit log batch"
proof -
  define B where "B = sort_key oc_sequence batch"
  define R where "R = newest_within limit (log @ B)"
  have B: "strict_sorted_by oc_sequence B"
    unfolding B_def by (rule strict_sorted_by_sort_key [OF b])
  have LB: "strict_sorted_by oc_sequence (log @ B)"
    using log B cont by (simp add: strict_sorted_by_append) (simp add: B_def)
  have fresh: "filter (\<lambda>c. oc_sequence c \<notin> oc_sequence ` set log) batch = batch"
    using cont by (fastforce simp: filter_id_conv)
  have "sort_key oc_sequence (log @ batch) = log @ B"
  proof (rule strict_sorted_by_unique [of oc_sequence])
    have "distinct (map oc_sequence (log @ batch))"
      using strict_sorted_by_distinct [OF log] b cont by (fastforce simp: distinct_map)
    then show "strict_sorted_by oc_sequence (sort_key oc_sequence (log @ batch))"
      by (rule strict_sorted_by_sort_key)
  qed (use LB in \<open>auto simp: B_def\<close>)
  then have R: "spec_append limit log batch = R"
    by (simp add: spec_append_def fresh R_def)
  obtain zs where zs: "log @ B = zs @ R"
    using newest_within_suffix [of "log @ B" limit] by (auto simp: R_def)
  have sR: "strict_sorted_by oc_sequence R"
    using LB unfolding zs by (simp add: strict_sorted_by_append)
  have again: "newest_within limit (sort_key oc_sequence
      (R @ filter (\<lambda>c. oc_sequence c \<notin> oc_sequence ` set R) batch)) = R"
    using newest_within_append [of limit log B]
  proof
    assume "\<exists>zs. zs \<noteq> [] \<and> newest_within limit (log @ B) = zs @ B \<and> set zs \<subseteq> set log"
    then have "set batch \<subseteq> set R"
      by (auto simp: R_def B_def)
    then have "filter (\<lambda>c. oc_sequence c \<notin> oc_sequence ` set R) batch = []"
      by (auto simp: filter_empty_conv)
    moreover have "sort_key oc_sequence R = R"
      by (intro strict_sorted_by_unique [of oc_sequence] strict_sorted_by_sort_key
          strict_sorted_by_distinct sR) simp
    ultimately show ?thesis
      using newest_within_fits [OF assms(1), of "log @ B"] by (simp add: R_def)
  next
    assume RB: "newest_within limit (log @ B) = newest_within limit B"
    let ?U = "filter (\<lambda>c. oc_sequence c \<notin> oc_sequence ` set R) batch"
    obtain ys where ys: "B = ys @ R"
      using newest_within_suffix [of B limit] RB by (auto simp: R_def)
    have setb: "set batch = set ys \<union> set R"
      using arg_cong [OF ys, of set] by (simp add: B_def)
    have lt: "\<forall>x \<in> set ys. \<forall>y \<in> set R. oc_sequence x < oc_sequence y"
      using B unfolding ys by (simp add: strict_sorted_by_append)
    then have U: "set ?U = set ys"
      using setb by fastforce
    have "distinct (map oc_sequence (R @ ?U))"
      using strict_sorted_by_distinct [OF sR] b by (auto simp: distinct_map_filter) (metis imageI)
    then have "strict_sorted_by oc_sequence (sort_key oc_sequence (R @ ?U))"
      by (rule strict_sorted_by_sort_key)
    moreover have "set (sort_key oc_sequence (R @ ?U)) = set B"
      using U by (auto simp: ys)
    ultimately have "sort_key oc_sequence (R @ ?U) = B"
      using B by (intro strict_sorted_by_unique [of oc_sequence])
    then show ?thesis
      using RB by (simp add: R_def)
  qed
  show ?thesis
    unfolding R by (simp add: spec_append_def again)
qed

lemma persist_job:
  assumes "output_inv m j d" and job: "findJob j d = Some job" and "batch_ok chunks"
  obtains job' where "findJob j (snd (persistChunks m now dv j chunks d)) = Some job'"
    and "job_deviceId job' = job_deviceId job"
proof (cases "job_deviceId job = dv \<and> unseen j chunks d \<noteq> []")
  case True
  then show ?thesis
    using persisted_state(2) [OF assms(1) job _ assms(3)] that by fastforce
next
  case False
  then have "snd (persistChunks m now dv j chunks d) = d"
    by (auto simp: persistChunks_eq [OF job])
  with job that show ?thesis by simp
qed

lemma latestSequence_log:
  assumes "chunks_keyed d" and "x \<in> set (output_log j d)"
  shows "oc_sequence x \<le> latestSequence j d"
proof -
  let ?S = "sort_key ch_sequence (chunks_of j (db_chunks d))"
  obtain c where c: "c \<in> set ?S" "oc_sequence x = ch_sequence c"
    using assms(2) by (auto simp: output_log_def)
  then have "?S \<noteq> []" by (metis list.set_cases list.distinct(1))
  then have "latestSequence j d = ch_sequence (last ?S)"
    by (cases ?S rule: rev_cases) (auto simp: latestSequence_def)
  moreover have "strict_sorted_by ch_sequence ?S"
    by (intro strict_sorted_by_sort_key chunks_keyed_job_sequences assms(1))
  ultimately show ?thesis
    using strict_sorted_le_last c by metis
qed

text \<open>
  An agent that resends a batch it is not sure about does no harm: when the batch continues the
  stored output, storing it a second time leaves the replayable output as it is.
\<close>

theorem persist_resend:
  assumes cap: "0 \<le> m" and inv: "output_inv m j d" and job: "findJob j d = Some job"
    and ok: "batch_ok chunks"
    and cont: "\<forall>c \<in> set chunks. latestSequence j d < oc_sequence c"
  shows "output_log j (snd (persistChunks m now' (job_deviceId job) j chunks
      (snd (persistChunks m now (job_deviceId job) j chunks d)))) =
    output_log j (snd (persistChunks m now (job_deviceId job) j chunks d))"
proof -
  have k: "chunks_keyed d" using inv by (simp add: output_inv_def)
  obtain job' where job': "findJob j (snd (persistChunks m now (job_deviceId job) j chunks d)) = Some job'"
    "job_deviceId job' = job_deviceId job"
    using inv job ok by (rule persist_job)
  have "\<forall>x \<in> set (output_log j d). \<forall>y \<in> set chunks. oc_sequence x < oc_sequence y"
    using cont latestSequence_log [OF k] by fastforce
  moreover have "distinct (map oc_sequence chunks)"
    using ok by (simp add: batch_ok_def)
  ultimately show ?thesis
    using spec_append_twice [OF cap output_log_sorted [OF k]]
    unfolding persist_log [OF persist_output_inv [OF cap inv ok] job' ok]
      persist_log [OF inv job refl ok] by blast
qed

theorem persist_resend_witness:
  "let d = snd (persistChunks 4 7 ''d'' ''j'' example_chunks output_example) in
   output_log ''j'' (snd (persistChunks 4 8 ''d'' ''j'' example_chunks d)) = output_log ''j'' d"
  using persist_resend [OF _ output_example_ok(1,3,2), of 8 7]
  by (simp add: latestSequence_def chunks_of_def output_example_defs)

text \<open>
  The running total is right only if a batch has one chunk per sequence number. When the agent
  sends two chunks with one new sequence in a batch, \<open>skipDuplicates\<close> stores the first alone, but
  \<open>addedBytes\<close> counts both, so the job's total exceeds what is stored by the bytes of the second.
\<close>

theorem duplicate_sequence_overcounts:
  assumes job: "findJob j d = Some job" and total: "job_retainedOutputBytes job = chunk_bytes (chunks_of j (db_chunks d))"
    and fresh: "\<forall>c \<in> set (chunks_of j (db_chunks d)). ch_sequence c \<noteq> oc_sequence a"
    and dup: "oc_sequence b = oc_sequence a"
    and fits: "job_retainedOutputBytes job + log_bytes [a, b] \<le> m"
  shows "map_option job_retainedOutputBytes
      (findJob j (snd (persistChunks m now (job_deviceId job) j [a, b] d))) =
    Some (chunk_bytes (chunks_of j (db_chunks (snd (persistChunks m now (job_deviceId job) j [a, b] d))))
      + utf8_length (oc_data b))"
proof -
  have id: "job_id job = j" using job by (auto dest: findJob_SomeD)
  have u: "unseen j [a, b] d = [a, b]"
    using fresh dup by (auto simp: unseen_def)
  have none: "\<not> (\<exists>r \<in> set (db_chunks d). ch_jobId r = j \<and> ch_sequence r = oc_sequence a)"
    using fresh by auto
  let ?row = "\<lparr>ch_id = db_nextId d, ch_jobId = j, ch_sequence = oc_sequence a, ch_stream = oc_stream a,
      ch_data = oc_data a, ch_byteLength = utf8_length (oc_data a), ch_timestamp = now\<rparr>"
  have cm: "createMany now j [a, b] (db_nextId d, db_chunks d) = (Suc (db_nextId d), db_chunks d @ [?row])"
    using none dup by (simp only: createMany.simps if_False) simp
  let ?d1 = "d\<lparr>db_chunks := db_chunks d @ [?row], db_nextId := Suc (db_nextId d)\<rparr>"
  have "persist_transaction m now job [a, b] d =
     (([], job_outputTruncated job), snd (updateJob now j
       (\<lambda>r. r\<lparr>job_retainedOutputBytes := job_retainedOutputBytes job + log_bytes [a, b],
              job_outputTruncated := job_outputTruncated job\<rparr>) ?d1))"
    using fits unfolding persist_transaction_def id cm
    by (simp add: Let_def no_eviction_def)
  then have P: "snd (persistChunks m now (job_deviceId job) j [a, b] d) = snd (updateJob now j
       (\<lambda>r. r\<lparr>job_retainedOutputBytes := job_retainedOutputBytes job + log_bytes [a, b],
              job_outputTruncated := job_outputTruncated job\<rparr>) ?d1)"
    unfolding persistChunks_eq [OF job] u by simp
  have "findJob j ?d1 = Some job"
    using job by (simp add: findJob_def)
  moreover have "chunks_of j (db_chunks d @ [?row]) = chunks_of j (db_chunks d) @ [?row]"
    by (simp add: chunks_of_def)
  ultimately show ?thesis
    unfolding P using total id by (simp add: findJob_updateJob frame_simps del: chunks_of_append)
qed

theorem duplicate_sequence_overcounts_witness:
  "map_option job_retainedOutputBytes (findJob ''j'' (snd (persistChunks 100 7 ''d'' ''j''
     [\<lparr>oc_sequence = 0, oc_stream = Stdout, oc_data = ''ab''\<rparr>,
      \<lparr>oc_sequence = 0, oc_stream = Stdout, oc_data = ''ab''\<rparr>] output_example))) = Some 4"
proof -
  let ?a = "\<lparr>oc_sequence = 0, oc_stream = Stdout, oc_data = ''ab''\<rparr>"
  have "chunk_bytes (chunks_of ''j'' (db_chunks (snd (persistChunks 100 7 ''d'' ''j'' [?a, ?a] output_example)))) = 2"
    by (simp add: persistChunks_def persist_transaction_def output_example_defs findJob_def Let_def
        no_eviction_def updateJob_def updateUnique_def chunks_of_def)
  then show ?thesis
    using duplicate_sequence_overcounts [OF output_example_ok(3), of ?a ?a 100 7]
    by (simp add: output_example_defs chunks_of_def)
qed

subsection \<open>Keys stay unique for any batch\<close>

definition keyed_rows :: "nat \<Rightarrow> chunk list \<Rightarrow> bool" where
  "keyed_rows n rows \<longleftrightarrow> distinct (map ch_id rows) \<and> (\<forall>c \<in> set rows. ch_id c < n) \<and>
     distinct (map (\<lambda>c. (ch_jobId c, ch_sequence c)) rows)"

lemma chunks_keyed_rows: "chunks_keyed d \<longleftrightarrow> keyed_rows (db_nextId d) (db_chunks d)"
  by (simp add: chunks_keyed_def keyed_rows_def)

lemma keyed_rows_deleteMany: "keyed_rows n rows \<Longrightarrow> keyed_rows n (deleteMany P rows)"
  by (auto simp: keyed_rows_def intro: distinct_map_deleteMany)

lemma keyed_rows_snoc:
  assumes "keyed_rows n rows" and "ch_id r = n"
    and "\<not> (\<exists>c \<in> set rows. ch_jobId c = ch_jobId r \<and> ch_sequence c = ch_sequence r)"
  shows "keyed_rows (Suc n) (rows @ [r])"
  using assms by (auto simp: keyed_rows_def less_SucI)

lemma createMany_keyed:
  "keyed_rows n rows \<Longrightarrow>
   keyed_rows (fst (createMany now j cs (n, rows))) (snd (createMany now j cs (n, rows)))"
proof (induction now j cs "(n, rows)" arbitrary: n rows rule: createMany.induct)
  case (2 now j c cs n rows)
  show ?case
  proof (cases "\<exists>r \<in> set rows. ch_jobId r = j \<and> ch_sequence r = oc_sequence c")
    case True
    with 2 show ?thesis by (simp only: createMany.simps if_True)
  next
    case False
    then have "keyed_rows (Suc n) (rows @ [\<lparr>ch_id = n, ch_jobId = j, ch_sequence = oc_sequence c,
        ch_stream = oc_stream c, ch_data = oc_data c, ch_byteLength = utf8_length (oc_data c),
        ch_timestamp = now\<rparr>])"
      using 2(3) by (intro keyed_rows_snoc) simp_all
    with 2(2) False show ?thesis by (simp only: createMany.simps if_False) simp
  qed
qed simp

lemma evict_loop_keyed: "keyed_rows k rows \<Longrightarrow> keyed_rows k (fst (evict_loop need n j rows e))"
proof (induction need n j rows e rule: evict_loop.induct)
  case (1 need n j rows e)
  then show ?case
    by (subst evict_loop.simps) (simp add: Let_def keyed_rows_deleteMany)
qed

lemma persist_transaction_keyed:
  assumes "chunks_keyed d" and "jobs_keyed d"
  shows "chunks_keyed (snd (persist_transaction m now job cs d))"
    and "jobs_keyed (snd (persist_transaction m now job cs d))"
proof -
  obtain n rows where cm: "createMany now (job_id job) cs (db_nextId d, db_chunks d) = (n, rows)"
    by force
  have "keyed_rows n rows"
    using createMany_keyed [of "db_nextId d" "db_chunks d" now "job_id job" cs] assms(1)
    by (simp add: cm chunks_keyed_rows)
  then show "chunks_keyed (snd (persist_transaction m now job cs d))"
    using evict_loop_keyed [of n rows]
    by (auto simp: persist_transaction_def cm Let_def frame_simps chunks_keyed_rows split: prod.splits)
      (metis fst_conv)+
  show "jobs_keyed (snd (persist_transaction m now job cs d))"
    using assms(2)
    by (auto simp: persist_transaction_def cm Let_def split: prod.splits
        intro!: jobs_keyed_updateJob) (simp_all add: jobs_keyed_def)
qed

lemma persist_keyed:
  assumes "chunks_keyed d" and "jobs_keyed d"
  shows "chunks_keyed (snd (persistChunks m now dv j chunks d))"
    and "jobs_keyed (snd (persistChunks m now dv j chunks d))"
proof -
  have "chunks_keyed (snd (persistChunks m now dv j chunks d)) \<and>
      jobs_keyed (snd (persistChunks m now dv j chunks d))"
  proof (cases "findJob j d")
    case None
    with assms show ?thesis by (simp add: persistChunks_none)
  next
    case (Some job)
    with assms persist_transaction_keyed [OF assms, of m now job "unseen j chunks d"] show ?thesis
      by (cases "persist_transaction m now job (unseen j chunks d) d") (auto simp: persistChunks_eq)
  qed
  then show "chunks_keyed (snd (persistChunks m now dv j chunks d))"
    and "jobs_keyed (snd (persistChunks m now dv j chunks d))" by auto
qed

lemma persist_other_chunks:
  assumes "chunks_keyed d" and "k \<noteq> j"
  shows "chunks_of k (db_chunks (snd (persistChunks m now dv j chunks d))) = chunks_of k (db_chunks d)"
proof (cases "findJob j d")
  case None
  then show ?thesis by (simp add: persistChunks_none)
next
  case (Some job)
  then have "k \<noteq> job_id job"
    using assms(2) by (auto dest: findJob_SomeD)
  note other = persist_transaction_other [OF assms(1) this, of m now "unseen j chunks d"]
  show ?thesis
    using other unfolding persistChunks_eq [OF Some]
    by (cases "persist_transaction m now job (unseen j chunks d) d") auto
qed

lemma persist_other_inv:
  assumes "output_inv m k d" and "k \<noteq> j"
  shows "output_inv m k (snd (persistChunks m' now dv j chunks d))"
proof -
  have keyed: "chunks_keyed d" "jobs_keyed d"
    using assms(1) by (auto simp: output_inv_def)
  then show ?thesis
    using assms(1) persist_keyed [OF keyed] persist_other_chunks [OF keyed(1) assms(2)]
      persist_other_job [OF keyed(1) assms(2)]
    by (cases "findJob k d") (simp_all add: output_inv_def del: set_chunks_of)
qed

end
