(* ===== verification/Pipeline.thy ===== *)
theory Pipeline
  imports Output
begin

section \<open>The write-behind buffer of live output\<close>

text \<open>
  The background persistence of \<open>JobService\<close> (\<open>services/jobs.ts\<close>): \<open>pendingPersist\<close> buffers live
  chunks per job, \<open>flushPersist\<close> hands a buffer to the job's \<open>outputQueues\<close> chain, and the chain
  runs \<open>persistChunks\<close> for one batch after the other. JavaScript runs a function up to its first
  \<open>await\<close> without interruption, so the code of \<open>enqueuePersist\<close>, \<open>flushPersist\<close> and
  \<open>serializeOutput\<close> before it is one operation on the two maps here; the queued batch itself
  runs later, as a step of its own.
\<close>

record pending =
  pp_deviceId :: ident
  pp_chunks :: "out_chunk list"
  pp_timer :: bool

text \<open>A link of a job's promise chain: a batch that waits for its turn to run \<open>persistChunks\<close>.\<close>

record task =
  tk_deviceId :: ident
  tk_chunks :: "out_chunk list"

record buffers =
  bf_pendingPersist :: "(ident \<times> pending) list"
  bf_outputQueues :: "(ident \<times> task list) list"

definition persistFlushChunks :: nat where
  "persistFlushChunks = 200"

definition queue_of :: "ident \<Rightarrow> buffers \<Rightarrow> task list" where
  "queue_of j b = (case map_of (bf_outputQueues b) j of None \<Rightarrow> [] | Some ts \<Rightarrow> ts)"

text \<open>\<open>serializeOutput\<close> up to its \<open>await\<close>: the operation is chained to the job's queue.\<close>

definition serializeOutput :: "ident \<Rightarrow> task \<Rightarrow> buffers \<Rightarrow> buffers" where
  "serializeOutput jobId t b =
     b\<lparr>bf_outputQueues := AList.update jobId (queue_of jobId b @ [t]) (bf_outputQueues b)\<rparr>"

text \<open>
  \<open>flushPersist\<close> up to its \<open>await\<close>. The result says what the call waits for: \<open>None\<close> when it returns
  at once, and otherwise the number of links of the job's chain that must finish first.
\<close>

definition flushPersist :: "ident \<Rightarrow> buffers \<Rightarrow> nat option \<times> buffers" where
  "flushPersist jobId b =
     (case map_of (bf_pendingPersist b) jobId of
        None \<Rightarrow> (None, b)
      | Some entry \<Rightarrow>
          (let b' = serializeOutput jobId \<lparr>tk_deviceId = pp_deviceId entry, tk_chunks = pp_chunks entry\<rparr>
                      (b\<lparr>bf_pendingPersist := AList.delete jobId (bf_pendingPersist b)\<rparr>)
           in (Some (length (queue_of jobId b')), b')))"

definition flushOutput :: "ident \<Rightarrow> buffers \<Rightarrow> nat option \<times> buffers" where
  "flushOutput jobId b = flushPersist jobId b"

definition enqueuePersist :: "ident \<Rightarrow> ident \<Rightarrow> out_chunk \<Rightarrow> buffers \<Rightarrow> buffers" where
  "enqueuePersist deviceId jobId chunk b =
     (let entry = (case map_of (bf_pendingPersist b) jobId of
                     None \<Rightarrow> \<lparr>pp_deviceId = deviceId, pp_chunks = [], pp_timer = False\<rparr>
                   | Some entry \<Rightarrow> entry);
          entry = entry\<lparr>pp_chunks := pp_chunks entry @ [chunk]\<rparr>;
          put = (\<lambda>e. b\<lparr>bf_pendingPersist := AList.update jobId e (bf_pendingPersist b)\<rparr>)
      in if length (pp_chunks entry) \<ge> persistFlushChunks then snd (flushPersist jobId (put entry))
         else if \<not> pp_timer entry then put (entry\<lparr>pp_timer := True\<rparr>)
         else put entry)"

subsection \<open>The steps of the event loop\<close>

text \<open>
  What can happen to the buffers: a live chunk is relayed, a flush timer fires, a caller forces a
  flush, the reconnect path queues a batch of its own (\<open>persistOutput\<close>), and the first link of a
  job's chain runs, with success or with a database error (the transaction rolls back, the error
  is logged, the batch is gone and the next link runs: \<open>previous.catch(() => undefined)\<close>).
\<close>

datatype buffer_event =
    RelayChunk ident ident out_chunk
  | TimerFires ident
  | ForceFlush ident
  | SyncBatch ident ident "out_chunk list"
  | LinkRuns ident ms
  | LinkFails ident

definition timer_armed :: "ident \<Rightarrow> buffers \<Rightarrow> bool" where
  "timer_armed j b = (case map_of (bf_pendingPersist b) j of None \<Rightarrow> False | Some e \<Rightarrow> pp_timer e)"

text \<open>The chain without its first link; \<open>serializeOutput\<close> deletes the entry after the last.\<close>

definition finish_link :: "ident \<Rightarrow> buffers \<Rightarrow> buffers" where
  "finish_link jobId b =
     b\<lparr>bf_outputQueues :=
         (if length (queue_of jobId b) \<le> 1 then AList.delete jobId (bf_outputQueues b)
          else AList.update jobId (tl (queue_of jobId b)) (bf_outputQueues b))\<rparr>"

fun buffer_step :: "int \<Rightarrow> buffer_event \<Rightarrow> buffers \<times> db \<Rightarrow> buffers \<times> db" where
  "buffer_step m (RelayChunk dv j c) (b, d) = (enqueuePersist dv j c b, d)"
| "buffer_step m (TimerFires j) (b, d) =
     (if timer_armed j b then (snd (flushPersist j b), d) else (b, d))"
| "buffer_step m (ForceFlush j) (b, d) = (snd (flushOutput j b), d)"
| "buffer_step m (SyncBatch dv j cs) (b, d) =
     (serializeOutput j \<lparr>tk_deviceId = dv, tk_chunks = cs\<rparr> b, d)"
| "buffer_step m (LinkRuns j now) (b, d) =
     (case queue_of j b of
        [] \<Rightarrow> (b, d)
      | t # ts \<Rightarrow> (finish_link j b, snd (persistChunks m now (tk_deviceId t) j (tk_chunks t) d)))"
| "buffer_step m (LinkFails j) (b, d) =
     (case queue_of j b of [] \<Rightarrow> (b, d) | t # ts \<Rightarrow> (finish_link j b, d))"

definition buffer_run :: "int \<Rightarrow> buffer_event list \<Rightarrow> buffers \<times> db \<Rightarrow> buffers \<times> db" where
  "buffer_run m evs s = fold (buffer_step m) evs s"

definition no_buffers :: buffers where
  "no_buffers = \<lparr>bf_pendingPersist = [], bf_outputQueues = []\<rparr>"

subsection \<open>What each operation does to a job's chunks\<close>

definition pending_of :: "ident \<Rightarrow> buffers \<Rightarrow> out_chunk list" where
  "pending_of j b = (case map_of (bf_pendingPersist b) j of None \<Rightarrow> [] | Some e \<Rightarrow> pp_chunks e)"

definition queued_of :: "ident \<Rightarrow> buffers \<Rightarrow> out_chunk list" where
  "queued_of j b = concat (map tk_chunks (queue_of j b))"

text \<open>The chunks of a job the server has taken in but not stored, oldest first.\<close>

definition unstored :: "ident \<Rightarrow> buffers \<Rightarrow> out_chunk list" where
  "unstored j b = queued_of j b @ pending_of j b"

lemma queue_serialize [simp]:
  "queue_of k (serializeOutput j t b) = (if k = j then queue_of j b @ [t] else queue_of k b)"
  "bf_pendingPersist (serializeOutput j t b) = bf_pendingPersist b"
  by (auto simp: serializeOutput_def queue_of_def)

lemma queue_pending [simp]: "queue_of k (b\<lparr>bf_pendingPersist := p\<rparr>) = queue_of k b"
  by (simp add: queue_of_def)

lemma queue_finish_link [simp]:
  "queue_of k (finish_link j b) = (if k = j then tl (queue_of j b) else queue_of k b)"
  "bf_pendingPersist (finish_link j b) = bf_pendingPersist b"
  by (cases "queue_of j b"; auto simp: finish_link_def queue_of_def split: option.splits)+

lemma flush_pending:
  "map_of (bf_pendingPersist (snd (flushPersist j b))) k =
     (if k = j then None else map_of (bf_pendingPersist b) k)"
  by (auto simp: flushPersist_def Let_def split: option.splits)

lemma flush_queue:
  "queue_of k (snd (flushPersist j b)) =
     (case map_of (bf_pendingPersist b) j of
        None \<Rightarrow> queue_of k b
      | Some e \<Rightarrow> if k = j then queue_of j b @ [\<lparr>tk_deviceId = pp_deviceId e, tk_chunks = pp_chunks e\<rparr>]
                  else queue_of k b)"
  by (auto simp: flushPersist_def Let_def split: option.splits)

lemma flush_unstored [simp]: "unstored k (snd (flushPersist j b)) = unstored k b"
  by (auto simp: unstored_def queued_of_def pending_of_def flush_pending flush_queue split: option.splits)

lemma enqueue_unstored:
  "unstored k (enqueuePersist dv j c b) = (if k = j then unstored j b @ [c] else unstored k b)"
proof -
  define entry where "entry = (case map_of (bf_pendingPersist b) j of
      None \<Rightarrow> \<lparr>pp_deviceId = dv, pp_chunks = [], pp_timer = False\<rparr> | Some entry \<Rightarrow> entry)"
  have chunks: "pp_chunks entry = pending_of j b"
    by (simp add: entry_def pending_of_def split: option.splits)
  have put: "unstored k (b\<lparr>bf_pendingPersist := AList.update j e (bf_pendingPersist b)\<rparr>) =
      (if k = j then queued_of j b @ pp_chunks e else unstored k b)" for e
    by (simp add: unstored_def queued_of_def pending_of_def)
  show ?thesis
    unfolding enqueuePersist_def Let_def entry_def [symmetric] by (simp add: put chunks)
      (simp add: unstored_def queued_of_def pending_of_def)
qed

subsection \<open>The shape of the buffers\<close>

text \<open>
  Between two operations a pending buffer is not empty, below the flush size and has its timer
  armed, and a chain with no link left is not in the map.
\<close>

definition buffers_ok :: "buffers \<Rightarrow> bool" where
  "buffers_ok b \<longleftrightarrow>
     (\<forall>j e. map_of (bf_pendingPersist b) j = Some e \<longrightarrow>
        pp_chunks e \<noteq> [] \<and> length (pp_chunks e) < persistFlushChunks \<and> pp_timer e) \<and>
     (\<forall>j. map_of (bf_outputQueues b) j \<noteq> Some [])"

lemma buffers_ok_pending:
  "buffers_ok b \<Longrightarrow> (\<And>j e. map_of p j = Some e \<Longrightarrow> map_of (bf_pendingPersist b) j = Some e \<or>
     pp_chunks e \<noteq> [] \<and> length (pp_chunks e) < persistFlushChunks \<and> pp_timer e) \<Longrightarrow>
   buffers_ok (b\<lparr>bf_pendingPersist := p\<rparr>)"
  by (fastforce simp: buffers_ok_def)

lemma buffers_ok_serialize: "buffers_ok b \<Longrightarrow> buffers_ok (serializeOutput j t b)"
  by (auto simp: buffers_ok_def serializeOutput_def)

lemma buffers_ok_finish: "buffers_ok b \<Longrightarrow> buffers_ok (finish_link j b)"
  by (cases "queue_of j b" rule: list.exhaust; cases "tl (queue_of j b)")
    (auto simp: buffers_ok_def finish_link_def)

lemma buffers_ok_flush:
  assumes queues: "\<forall>j. map_of (bf_outputQueues b) j \<noteq> Some []"
    and others: "\<And>k e. k \<noteq> j \<Longrightarrow> map_of (bf_pendingPersist b) k = Some e \<Longrightarrow>
      pp_chunks e \<noteq> [] \<and> length (pp_chunks e) < persistFlushChunks \<and> pp_timer e"
  shows "buffers_ok (snd (flushPersist j b))"
proof -
  have "\<forall>k. map_of (bf_outputQueues (snd (flushPersist j b))) k \<noteq> Some []"
    using queues by (auto simp: flushPersist_def Let_def serializeOutput_def split: option.splits)
  then show ?thesis
    using others by (auto simp: buffers_ok_def flush_pending split: if_splits)
qed

lemma buffers_ok_enqueue:
  assumes "buffers_ok b"
  shows "buffers_ok (enqueuePersist dv j c b)"
proof -
  define entry where "entry = (case map_of (bf_pendingPersist b) j of
      None \<Rightarrow> \<lparr>pp_deviceId = dv, pp_chunks = [], pp_timer = False\<rparr> | Some entry \<Rightarrow> entry)"
  define entry' where "entry' = entry\<lparr>pp_chunks := pp_chunks entry @ [c]\<rparr>"
  define put where "put e = b\<lparr>bf_pendingPersist := AList.update j e (bf_pendingPersist b)\<rparr>" for e
  have eq: "enqueuePersist dv j c b =
      (if length (pp_chunks entry') \<ge> persistFlushChunks then snd (flushPersist j (put entry'))
       else if \<not> pp_timer entry' then put (entry'\<lparr>pp_timer := True\<rparr>) else put entry')"
    by (simp add: enqueuePersist_def entry_def entry'_def put_def Let_def)
  have put_ok: "buffers_ok (put e)"
    if "pp_chunks e \<noteq> []" "length (pp_chunks e) < persistFlushChunks" "pp_timer e" for e
    unfolding put_def using assms that by (auto intro!: buffers_ok_pending split: if_splits)
  have "buffers_ok (snd (flushPersist j (put entry')))"
    by (rule buffers_ok_flush) (use assms in \<open>auto simp: put_def buffers_ok_def\<close>)
  with put_ok show ?thesis
    unfolding eq by (auto simp: entry'_def)
qed

lemma buffers_ok_flush_ok: "buffers_ok b \<Longrightarrow> buffers_ok (snd (flushPersist j b))"
  by (rule buffers_ok_flush) (simp_all add: buffers_ok_def)

lemma buffers_ok_step: "buffers_ok b \<Longrightarrow> buffers_ok (fst (buffer_step m ev (b, d)))"
  by (cases ev) (auto intro: buffers_ok_enqueue buffers_ok_serialize buffers_ok_finish buffers_ok_flush_ok
      simp: flushOutput_def split: list.splits)

lemma buffers_ok_run: "buffers_ok (fst s) \<Longrightarrow> buffers_ok (fst (buffer_run m evs s))"
proof (induction evs arbitrary: s)
  case (Cons ev evs)
  from buffers_ok_step [of "fst s" m ev "snd s"] Cons show ?case
    by (simp add: buffer_run_def)
qed (simp add: buffer_run_def)

text \<open>
  The live buffer of a job is bounded and never stranded: whatever sequence of chunks, timers,
  flushes and writes happens, a job's buffer holds fewer than 200 chunks, and every buffer that
  holds any has an armed timer that hands all of it to the job's queue.
\<close>

theorem live_buffer_bounded:
  "length (pending_of j (fst (buffer_run m evs (no_buffers, d)))) < 200 \<and>
   (pending_of j (fst (buffer_run m evs (no_buffers, d))) = [] \<or>
    pending_of j (fst (buffer_run m (evs @ [TimerFires j]) (no_buffers, d))) = [] \<and>
    queued_of j (fst (buffer_run m (evs @ [TimerFires j]) (no_buffers, d))) =
      unstored j (fst (buffer_run m evs (no_buffers, d))))"
proof -
  obtain b d' where s: "buffer_run m evs (no_buffers, d) = (b, d')" by force
  have "buffers_ok b"
    using buffers_ok_run [of "(no_buffers, d)" m evs] s by (simp add: no_buffers_def buffers_ok_def)
  moreover have "buffer_run m (evs @ [TimerFires j]) (no_buffers, d) = buffer_step m (TimerFires j) (b, d')"
    using s by (simp add: buffer_run_def)
  moreover have "pending_of j (snd (flushPersist j b)) = []"
    by (simp add: pending_of_def flush_pending)
  moreover have "queued_of j (snd (flushPersist j b)) = unstored j b"
    using flush_unstored [of j j b] calculation(3) by (simp add: unstored_def)
  ultimately show ?thesis
    unfolding s by (auto simp: pending_of_def timer_armed_def buffers_ok_def persistFlushChunks_def
        split: option.splits)
qed

subsection \<open>From the live stream to the stored log\<close>

definition relayed :: "ident \<Rightarrow> buffer_event list \<Rightarrow> out_chunk list" where
  "relayed j evs = concat (map (\<lambda>ev. case ev of RelayChunk dv k c \<Rightarrow> if k = j then [c] else [] | _ \<Rightarrow> []) evs)"

text \<open>An undisturbed live stream: one device, no reconnect batch and no failed write for this job.\<close>

fun live_event :: "ident \<Rightarrow> ident \<Rightarrow> buffer_event \<Rightarrow> bool" where
  "live_event j dv (RelayChunk dv' k c) = (k = j \<longrightarrow> dv' = dv)"
| "live_event j dv (SyncBatch dv' k cs) = (k \<noteq> j)"
| "live_event j dv (LinkFails k) = (k \<noteq> j)"
| "live_event j dv _ = True"

lemma newest_within_all:
  "log_bytes (xs @ ys) \<le> m \<Longrightarrow> newest_within m (xs @ ys) = xs @ ys"
  by (rule newest_within_id)

lemma spec_append_continues:
  assumes "strict_sorted_by oc_sequence (log @ cs)" and "log_bytes (log @ cs) \<le> m"
  shows "spec_append m log cs = log @ cs"
proof -
  have "filter (\<lambda>c. oc_sequence c \<notin> oc_sequence ` set log) cs = cs"
    using assms(1) by (fastforce simp: strict_sorted_by_append filter_id_conv)
  moreover have "sort_key oc_sequence (log @ cs) = log @ cs"
    by (intro strict_sorted_by_unique [of oc_sequence] strict_sorted_by_sort_key
        strict_sorted_by_distinct assms(1)) simp
  ultimately show ?thesis
    using assms(2) by (simp add: spec_append_def newest_within_id)
qed

lemma log_bytes_nonneg [simp]: "0 \<le> log_bytes cs"
  by (induction cs) auto

definition tasks_from :: "ident \<Rightarrow> ident \<Rightarrow> buffers \<Rightarrow> bool" where
  "tasks_from j dv b \<longleftrightarrow> (\<forall>t \<in> set (queue_of j b). tk_deviceId t = dv) \<and>
     (\<forall>e. map_of (bf_pendingPersist b) j = Some e \<longrightarrow> pp_deviceId e = dv)"

definition stream_inv :: "int \<Rightarrow> ident \<Rightarrow> ident \<Rightarrow> out_chunk list \<Rightarrow> buffers \<times> db \<Rightarrow> bool" where
  "stream_inv m j dv cs s \<longleftrightarrow>
     output_inv m j (snd s) \<and> map_option job_deviceId (findJob j (snd s)) = Some dv \<and>
     tasks_from j dv (fst s) \<and> output_log j (snd s) @ unstored j (fst s) = cs"

lemma tasks_from_flush: "tasks_from j dv b \<Longrightarrow> tasks_from j dv (snd (flushPersist k b))"
  by (auto simp: tasks_from_def flush_pending flush_queue split: option.splits if_splits)

lemma tasks_from_enqueue:
  assumes "tasks_from j dv b" and "k = j \<longrightarrow> dv' = dv"
  shows "tasks_from j dv (enqueuePersist dv' k c b)"
proof -
  define entry where "entry = (case map_of (bf_pendingPersist b) k of
      None \<Rightarrow> \<lparr>pp_deviceId = dv', pp_chunks = [], pp_timer = False\<rparr> | Some entry \<Rightarrow> entry)"
  have "k = j \<Longrightarrow> pp_deviceId entry = dv"
    using assms by (auto simp: entry_def tasks_from_def split: option.splits)
  then have "tasks_from j dv (b\<lparr>bf_pendingPersist := AList.update k e (bf_pendingPersist b)\<rparr>)"
    if "pp_deviceId e = pp_deviceId entry" for e
    using that assms(1) by (auto simp: tasks_from_def)
  then show ?thesis
    unfolding enqueuePersist_def Let_def entry_def [symmetric] by (auto intro: tasks_from_flush)
qed

lemma output_log_cong:
  "chunks_of j (db_chunks d') = chunks_of j (db_chunks d) \<Longrightarrow> output_log j d' = output_log j d"
  by (simp add: output_log_def)

lemma unstored_serialize:
  "k \<noteq> j \<Longrightarrow> unstored j (serializeOutput k t b) = unstored j b"
  by (simp add: unstored_def queued_of_def pending_of_def)

text \<open>One link of the job's own chain moves a batch from the buffers to the log.\<close>

lemma stream_link:
  assumes inv: "stream_inv m j dv cs (b, d)" and m: "0 \<le> m"
    and cs: "strict_sorted_by oc_sequence cs" "\<forall>c \<in> set cs. 0 \<le> oc_sequence c" "log_bytes cs \<le> m"
    and q: "queue_of j b = t # ts"
  shows "stream_inv m j dv cs (finish_link j b, snd (persistChunks m now (tk_deviceId t) j (tk_chunks t) d))"
proof -
  obtain job where job: "findJob j d = Some job" "job_deviceId job = dv"
    using inv by (auto simp: stream_inv_def)
  have oinv: "output_inv m j d" and dv: "tk_deviceId t = dv"
    using inv q by (auto simp: stream_inv_def tasks_from_def)
  define rest where "rest = concat (map tk_chunks ts) @ pending_of j b"
  have split: "cs = (output_log j d @ tk_chunks t) @ rest"
    using inv q by (simp add: stream_inv_def unstored_def queued_of_def rest_def)
  have sorted: "strict_sorted_by oc_sequence (output_log j d @ tk_chunks t)"
    using cs(1) unfolding split by (subst (asm) strict_sorted_by_append) blast
  have ok: "batch_ok (tk_chunks t)"
    using sorted cs(2) strict_sorted_by_distinct
    unfolding split by (auto simp: batch_ok_def strict_sorted_by_append)
  have "log_bytes (output_log j d @ tk_chunks t) + log_bytes rest \<le> m"
    using cs(3) unfolding split by (simp only: log_bytes_simps)
  then have "log_bytes (output_log j d @ tk_chunks t) \<le> m"
    using log_bytes_nonneg [of rest] by linarith
  then have log: "output_log j (snd (persistChunks m now dv j (tk_chunks t) d)) = output_log j d @ tk_chunks t"
    using persist_log [OF oinv job ok] spec_append_continues [OF sorted] by simp
  obtain job' where "findJob j (snd (persistChunks m now dv j (tk_chunks t) d)) = Some job'"
    "job_deviceId job' = job_deviceId job"
    using oinv job(1) ok by (rule persist_job)
  moreover have "tasks_from j dv (finish_link j b)"
    using inv q by (auto simp: stream_inv_def tasks_from_def)
  moreover have "unstored j (finish_link j b) = rest"
    using q by (simp add: unstored_def queued_of_def pending_of_def rest_def)
  ultimately show ?thesis
    using persist_output_inv [OF m oinv ok] job by (simp add: stream_inv_def dv log split)
qed

lemma stream_step:
  assumes inv: "stream_inv m j dv cs (b, d)" and m: "0 \<le> m" and live: "live_event j dv ev"
    and cs: "strict_sorted_by oc_sequence cs" "\<forall>c \<in> set cs. 0 \<le> oc_sequence c" "log_bytes cs \<le> m"
  shows "stream_inv m j dv (cs @ relayed j [ev]) (buffer_step m ev (b, d))"
proof (cases ev)
  case (RelayChunk dv' k c)
  with inv live show ?thesis
    by (auto simp: stream_inv_def relayed_def enqueue_unstored tasks_from_enqueue)
next
  case (TimerFires k)
  with inv show ?thesis
    by (auto simp: stream_inv_def relayed_def tasks_from_flush)
next
  case (ForceFlush k)
  with inv show ?thesis
    by (auto simp: stream_inv_def relayed_def tasks_from_flush flushOutput_def)
next
  case (SyncBatch dv' k chunks)
  with inv live show ?thesis
    by (auto simp: stream_inv_def relayed_def unstored_serialize tasks_from_def)
next
  case (LinkFails k)
  with inv live show ?thesis
    by (auto simp: stream_inv_def relayed_def unstored_def queued_of_def pending_of_def tasks_from_def
        split: list.splits)
next
  case (LinkRuns k now)
  show ?thesis
  proof (cases "queue_of k b")
    case Nil
    with LinkRuns inv show ?thesis by (simp add: relayed_def)
  next
    case (Cons t ts)
    show ?thesis
    proof (cases "k = j")
      case True
      with stream_link [OF inv m cs, of t ts now] Cons LinkRuns show ?thesis
        by (simp add: relayed_def)
    next
      case False
      have keyed: "chunks_keyed d" using inv by (simp add: stream_inv_def output_inv_def)
      have "unstored j (finish_link k b) = unstored j b" "tasks_from j dv (finish_link k b) = tasks_from j dv b"
        using False by (simp_all add: unstored_def queued_of_def pending_of_def tasks_from_def)
      with False inv Cons LinkRuns persist_other_job [OF keyed, of j k] persist_other_inv [of m j d k]
      show ?thesis by (simp add: stream_inv_def relayed_def)
    qed
  qed
qed

lemma relayed_append: "relayed j (xs @ ys) = relayed j xs @ relayed j ys"
  by (simp add: relayed_def)

lemma stream_run:
  assumes "stream_inv m j dv cs0 s" and "0 \<le> m" and "list_all (live_event j dv) evs"
    and "strict_sorted_by oc_sequence (cs0 @ relayed j evs)"
    and "\<forall>c \<in> set (cs0 @ relayed j evs). 0 \<le> oc_sequence c"
    and "log_bytes (cs0 @ relayed j evs) \<le> m"
  shows "stream_inv m j dv (cs0 @ relayed j evs) (buffer_run m evs s)"
  using assms(3-)
proof (induction evs rule: rev_induct)
  case Nil
  with assms(1) show ?case by (simp add: buffer_run_def relayed_def)
next
  case (snoc ev evs)
  let ?cs = "cs0 @ relayed j evs"
  have full: "cs0 @ relayed j (evs @ [ev]) = ?cs @ relayed j [ev]"
    by (simp add: relayed_append)
  note prems = snoc.prems [unfolded full]
  have sorted: "strict_sorted_by oc_sequence ?cs"
    using prems(2) by (subst (asm) strict_sorted_by_append) blast
  have nonneg: "\<forall>c \<in> set ?cs. 0 \<le> oc_sequence c"
    using prems(3) by auto
  have "log_bytes ?cs + log_bytes (relayed j [ev]) \<le> m"
    using prems(4) by (simp only: log_bytes_simps)
  then have bytes: "log_bytes ?cs \<le> m"
    using log_bytes_nonneg [of "relayed j [ev]"] by linarith
  have IH: "stream_inv m j dv ?cs (buffer_run m evs s)"
    using snoc.IH prems(1) sorted nonneg bytes by simp
  obtain b d where s: "buffer_run m evs s = (b, d)" by force
  have "stream_inv m j dv (?cs @ relayed j [ev]) (buffer_step m ev (b, d))"
    using stream_step [OF IH [unfolded s] assms(2) _ sorted nonneg bytes] prems(1) by simp
  then show ?case
    unfolding full using s by (simp add: buffer_run_def)
qed

text \<open>
  C3. Live output is stored exactly once and in order: while a job's chunks come from its device with
  rising sequence numbers and fit the retention cap, then after any sequence of relays, timers,
  flushes and writes, whatever other jobs do, the stored log followed by what is still queued or
  buffered is the earlier log followed by all relayed chunks.
\<close>

theorem live_stream_stored_in_order:
  assumes "0 \<le> m" and "output_inv m j d" and "map_option job_deviceId (findJob j d) = Some dv"
    and "list_all (live_event j dv) evs"
    and "strict_sorted_by oc_sequence (output_log j d @ relayed j evs)"
    and "\<forall>c \<in> set (relayed j evs). 0 \<le> oc_sequence c"
    and "log_bytes (output_log j d @ relayed j evs) \<le> m"
  shows "output_log j (snd (buffer_run m evs (no_buffers, d))) @
      unstored j (fst (buffer_run m evs (no_buffers, d))) = output_log j d @ relayed j evs"
proof -
  have "tasks_from j dv no_buffers" "unstored j no_buffers = []"
    by (simp_all add: tasks_from_def unstored_def queued_of_def queue_of_def pending_of_def no_buffers_def)
  then have start: "stream_inv m j dv (output_log j d) (no_buffers, d)"
    using assms(2,3) by (simp add: stream_inv_def)
  have "0 \<le> oc_sequence c" if "c \<in> set (output_log j d)" for c
  proof -
    have "oc_sequence c \<in> ch_sequence ` set (chunks_of j (db_chunks d))"
      using that output_log_sequences [of j d] by blast
    with assms(2) show ?thesis by (auto simp: output_inv_def)
  qed
  then have "stream_inv m j dv (output_log j d @ relayed j evs) (buffer_run m evs (no_buffers, d))"
    using assms(6) by (intro stream_run start assms(1,4,5,7)) auto
  then show ?thesis by (simp add: stream_inv_def)
qed

definition live_example :: "buffer_event list" where
  "live_example =
     [RelayChunk ''d'' ''j'' \<lparr>oc_sequence = 0, oc_stream = Stdout, oc_data = ''a''\<rparr>, TimerFires ''j'',
      RelayChunk ''d'' ''j'' \<lparr>oc_sequence = 1, oc_stream = Stdout, oc_data = ''b''\<rparr>, LinkRuns ''j'' 5]"

theorem live_stream_stored_in_order_witness:
  "output_log ''j'' (snd (buffer_run 4 live_example (no_buffers, output_example))) @
     unstored ''j'' (fst (buffer_run 4 live_example (no_buffers, output_example))) =
   [\<lparr>oc_sequence = 0, oc_stream = Stdout, oc_data = ''a''\<rparr>,
    \<lparr>oc_sequence = 1, oc_stream = Stdout, oc_data = ''b''\<rparr>]"
  using live_stream_stored_in_order [of 4 "''j''" output_example "''d''" live_example, OF _ output_example_ok(1)]
  by (simp add: output_example_ok live_example_def relayed_def log_bytes_def) (simp add: example_job_def)

text \<open>A forced flush that finds a buffer waits for all that was taken in before it.\<close>

lemma flush_output_waits:
  "case flushOutput j b of
     (None, b') \<Rightarrow> b' = b \<and> pending_of j b = []
   | (Some n, b') \<Rightarrow> concat (map tk_chunks (take n (queue_of j b'))) = unstored j b"
  by (auto simp: flushOutput_def flushPersist_def unstored_def queued_of_def pending_of_def Let_def
      split: option.splits)

text \<open>
  A forced flush does not always wait for what was taken in before it. When it finds a buffer, the
  links it waits for hold all chunks of the job that were queued or buffered; but when the timer
  has already handed the buffer to the queue, \<open>flushOutput\<close> returns at once, here with the one
  relayed chunk still not in the database.
\<close>

theorem flush_output_returns_early:
  "(case flushOutput j b of
     (None, b') \<Rightarrow> b' = b \<and> pending_of j b = []
   | (Some n, b') \<Rightarrow> concat (map tk_chunks (take n (queue_of j b'))) = unstored j b) \<and>
   (case buffer_run m [RelayChunk dv j c, TimerFires j] (no_buffers, d) of
     (b, d') \<Rightarrow> flushOutput j b = (None, b) \<and> unstored j b = [c] \<and> d' = d)"
  using flush_output_waits [where j = j and b = b]
  by (simp add: buffer_run_def no_buffers_def enqueuePersist_def flushOutput_def flushPersist_def
      timer_armed_def serializeOutput_def unstored_def queued_of_def queue_of_def pending_of_def
      persistFlushChunks_def Let_def)

end
