(* ===== verification/Jobs.thy ===== *)
theory Jobs
  imports Pipeline Hub
begin

section \<open>The job service\<close>

text \<open>
  \<open>JobService\<close> of \<open>services/jobs.ts\<close> on the state of one server: the database, the hub, the output
  buffers and the notifications handed to the push service. An operation that reads a job, awaits,
  and then writes it is cut in a read and a write, so that other operations can come between; the
  whole operation is their composition. What an operation takes from its surroundings is a
  \<open>ctx\<close>: the clock, fresh identifiers, and what Redis answers, where it is used: whether routing a
  message to an agent and publishing an envelope succeeded, the owner a claim replaced, and the
  replies of release, touch and presence lookup, and the owner a lookup reads.
\<close>

record ctx =
  cx_now :: ms
  cx_uuid :: ident
  cx_routed :: bool
  cx_published :: bool
  cx_previousOwner :: "agent_owner option"
  cx_released :: "bool option"
  cx_touched :: bool
  cx_online :: bool
  cx_owner :: "agent_owner option"

text \<open>What \<open>notifyJobTransition\<close> is called with.\<close>

record push_job =
  pj_id :: ident
  pj_userId :: ident
  pj_status :: job_status
  pj_exitCode :: "int option"
  pj_repositoryId :: ident

record world =
  w_db :: db
  w_hub :: hub
  w_buffers :: buffers
  w_notified :: "push_job list"

definition broadcast :: "ctx \<Rightarrow> ident \<Rightarrow> ident \<Rightarrow> server_to_client \<Rightarrow> world \<Rightarrow> world" where
  "broadcast cx userId jobId message w =
     w\<lparr>w_hub := broadcastJob (cx_published cx) (cx_now cx) (cx_uuid cx) userId jobId message (w_hub w)\<rparr>"

text \<open>\<open>sendToAgent\<close>: local without Redis; with Redis its outcome is that of the routing in \<open>Hub\<close>.\<close>

definition sendToAgent :: "ctx \<Rightarrow> ident \<Rightarrow> server_to_agent \<Rightarrow> world \<Rightarrow> bool \<times> world" where
  "sendToAgent cx deviceId message w =
     (if \<not> hub_distributed (w_hub w)
      then (case sendToLocalAgent deviceId None message (w_hub w) of (ok, h) \<Rightarrow> (ok, w\<lparr>w_hub := h\<rparr>))
      else (cx_routed cx, w))"

subsection \<open>Transitions reported by the agent\<close>

text \<open>What the read decides: no such job for this device, a finished job, or a write.\<close>

datatype transition_plan = NoJob | Finished job | WriteOver job

definition transition_read :: "ident \<Rightarrow> ident \<Rightarrow> job_status \<Rightarrow> db \<Rightarrow> js_error + transition_plan" where
  "transition_read deviceId jobId target d =
     (case findJob jobId d of
        None \<Rightarrow> Inr NoJob
      | Some current \<Rightarrow>
          if job_deviceId current \<noteq> deviceId then Inr NoJob
          else if isTerminalJobStatus (job_status current) then Inr (Finished current)
          else if \<not> canTransitionJob (job_status current) target
          then Inl (AppError 409 ''JOB_TRANSITION_INVALID''
                 (''Cannot transition job from '' @ status_name (job_status current) @ '' to '' @
                  status_name target @ ''.''))
          else Inr (WriteOver current))"

definition transition_data ::
  "ms \<Rightarrow> job_status \<Rightarrow> string option \<Rightarrow> int option \<Rightarrow> job \<Rightarrow> job \<Rightarrow> job" where
  "transition_data now target detail exitCode current r =
     r\<lparr>job_status := target,
       job_statusDetail := (case detail of None \<Rightarrow> job_statusDetail r | Some s \<Rightarrow> Some s),
       job_exitCode := (case exitCode of None \<Rightarrow> job_exitCode r | Some c \<Rightarrow> Some c),
       job_startedAt := (if target = Running \<and> job_startedAt current = None then Some now else job_startedAt r),
       job_finishedAt := (if isTerminalJobStatus target then Some now else job_finishedAt r)\<rparr>"

definition transition_write ::
  "ctx \<Rightarrow> job_status \<Rightarrow> string option \<Rightarrow> int option \<Rightarrow> job \<Rightarrow> world \<Rightarrow> (js_error + job option) \<times> world" where
  "transition_write cx target detail exitCode current w =
     (case updateJob (cx_now cx) (job_id current)
             (transition_data (cx_now cx) target detail exitCode current) (w_db w) of
        (Inl e, d) \<Rightarrow> (Inl e, w)
      | (Inr updated, d) \<Rightarrow>
          (let w = broadcast cx (job_userId updated) (job_id current)
                     (ClientJobStatus (job_id current) (job_status updated) (Some (job_exitCode updated)))
                     (w\<lparr>w_db := d\<rparr>);
               w = (if job_status updated \<noteq> job_status current
                    then w\<lparr>w_notified := w_notified w @
                          [\<lparr>pj_id = job_id updated, pj_userId = job_userId updated, pj_status = job_status updated,
                            pj_exitCode = job_exitCode updated, pj_repositoryId = job_repositoryId updated\<rparr>]\<rparr>
                    else w)
           in (Inr (Some updated), w)))"

definition transitionFromAgent ::
  "ctx \<Rightarrow> ident \<Rightarrow> ident \<Rightarrow> job_status \<Rightarrow> string option \<Rightarrow> int option \<Rightarrow> world \<Rightarrow>
   (js_error + job option) \<times> world" where
  "transitionFromAgent cx deviceId jobId target detail exitCode w =
     (case transition_read deviceId jobId target (w_db w) of
        Inl e \<Rightarrow> (Inl e, w)
      | Inr NoJob \<Rightarrow> (Inr None, w)
      | Inr (Finished current) \<Rightarrow> (Inr (Some current), w)
      | Inr (WriteOver current) \<Rightarrow> transition_write cx target detail exitCode current w)"

subsection \<open>Output\<close>

fun broadcast_chunks :: "ctx \<Rightarrow> ident \<Rightarrow> ident \<Rightarrow> out_chunk list \<Rightarrow> world \<Rightarrow> world" where
  "broadcast_chunks cx userId jobId [] w = w"
| "broadcast_chunks cx userId jobId (c # cs) w =
     broadcast_chunks cx userId jobId cs (broadcast cx userId jobId (ClientJobOutput jobId c) w)"

definition persistOutput ::
  "int \<Rightarrow> ctx \<Rightarrow> ident \<Rightarrow> ident \<Rightarrow> out_chunk list \<Rightarrow> world \<Rightarrow> (out_chunk list \<times> bool) \<times> world" where
  "persistOutput maximumOutputBytes cx deviceId jobId chunks w =
     (case persistChunks maximumOutputBytes (cx_now cx) deviceId jobId chunks (w_db w) of
        (core, d) \<Rightarrow>
          ((pr_chunks core, pr_truncated core),
           case pr_userId core of
             None \<Rightarrow> w\<lparr>w_db := d\<rparr>
           | Some userId \<Rightarrow> broadcast_chunks cx userId jobId (pr_chunks core) (w\<lparr>w_db := d\<rparr>)))"

definition relayOutput :: "ctx \<Rightarrow> ident \<Rightarrow> ident \<Rightarrow> ident \<Rightarrow> out_chunk \<Rightarrow> world \<Rightarrow> world" where
  "relayOutput cx userId deviceId jobId chunk w =
     (let w = broadcast cx userId jobId (ClientJobOutput jobId chunk) w
      in w\<lparr>w_buffers := enqueuePersist deviceId jobId chunk (w_buffers w)\<rparr>)"

subsection \<open>Requests of the user\<close>

definition findUserJob :: "ident \<Rightarrow> ident \<Rightarrow> db \<Rightarrow> job option" where
  "findUserJob userId jobId d = List.find (\<lambda>r. job_id r = jobId \<and> job_userId r = userId) (db_jobs d)"

definition JOB_NOT_FOUND :: js_error where
  "JOB_NOT_FOUND = AppError 404 ''JOB_NOT_FOUND'' ''Job not found.''"

text \<open>The write of a cancellation before the start, and of one that the agent has been asked for.\<close>

definition cancel_queued :: "ctx \<Rightarrow> ident \<Rightarrow> ident \<Rightarrow> world \<Rightarrow> (js_error + job) \<times> world" where
  "cancel_queued cx userId jobId w =
     (case updateJob (cx_now cx) jobId
             (\<lambda>r. r\<lparr>job_status := Cancelled, job_finishedAt := Some (cx_now cx),
                    job_statusDetail := Some ''Cancelled before start.''\<rparr>) (w_db w) of
        (Inl e, d) \<Rightarrow> (Inl e, w)
      | (Inr cancelled, d) \<Rightarrow>
          (Inr cancelled, broadcast cx userId jobId
             (ClientJobStatus jobId Cancelled (Some (job_exitCode cancelled))) (w\<lparr>w_db := d\<rparr>)))"

definition requestCancellation :: "ctx \<Rightarrow> ident \<Rightarrow> ident \<Rightarrow> world \<Rightarrow> (js_error + job) \<times> world" where
  "requestCancellation cx userId jobId w =
     (case findUserJob userId jobId (w_db w) of
        None \<Rightarrow> (Inl JOB_NOT_FOUND, w)
      | Some job \<Rightarrow>
          if isTerminalJobStatus (job_status job) then (Inr job, w)
          else if job_status job = Queued then cancel_queued cx userId jobId w
          else (case sendToAgent cx (job_deviceId job) (JobCancel jobId) w of
            (False, w') \<Rightarrow> (Inl (AppError 409 ''DEVICE_OFFLINE''
                 ''The device is offline; RelayDock cannot confirm process cancellation.''), w')
          | (True, w') \<Rightarrow>
              (case updateJob (cx_now cx) jobId
                      (\<lambda>r. r\<lparr>job_statusDetail := Some ''Cancellation requested.''\<rparr>) (w_db w') of
                 (res, d) \<Rightarrow> (res, w'\<lparr>w_db := d\<rparr>))))"

definition DEVICE_OFFLINE :: js_error where
  "DEVICE_OFFLINE = AppError 409 ''DEVICE_OFFLINE'' ''The device is offline.''"

definition forwardInput :: "ctx \<Rightarrow> ident \<Rightarrow> ident \<Rightarrow> int \<Rightarrow> string \<Rightarrow> world \<Rightarrow> (js_error + unit) \<times> world" where
  "forwardInput cx userId jobId inputSequence data w =
     (case findUserJob userId jobId (w_db w) of
        None \<Rightarrow> (Inl JOB_NOT_FOUND, w)
      | Some job \<Rightarrow>
          if \<not> job_interactive job \<or> isTerminalJobStatus (job_status job)
          then (Inl (AppError 409 ''JOB_NOT_INTERACTIVE'' ''This job cannot accept terminal input.''), w)
          else (case sendToAgent cx (job_deviceId job) (JobInput jobId inputSequence data) w of
            (sent, w') \<Rightarrow> (if sent then Inr () else Inl DEVICE_OFFLINE, w')))"

definition forwardResize :: "ctx \<Rightarrow> ident \<Rightarrow> ident \<Rightarrow> int \<Rightarrow> int \<Rightarrow> world \<Rightarrow> (js_error + unit) \<times> world" where
  "forwardResize cx userId jobId columns rows w =
     (case findUserJob userId jobId (w_db w) of
        None \<Rightarrow> (Inl JOB_NOT_FOUND, w)
      | Some job \<Rightarrow>
          if \<not> job_interactive job \<or> isTerminalJobStatus (job_status job) then (Inr (), w)
          else (case sendToAgent cx (job_deviceId job) (JobResize jobId columns rows) w of
            (sent, w') \<Rightarrow> (if sent then Inr () else Inl DEVICE_OFFLINE, w')))"

subsection \<open>Frames\<close>

lemma broadcast_fields [simp]:
  "w_db (broadcast cx u j m w) = w_db w" "w_buffers (broadcast cx u j m w) = w_buffers w"
  "w_notified (broadcast cx u j m w) = w_notified w"
  by (simp_all add: broadcast_def)

lemma broadcast_chunks_fields [simp]:
  "w_db (broadcast_chunks cx u j cs w) = w_db w" "w_buffers (broadcast_chunks cx u j cs w) = w_buffers w"
  "w_notified (broadcast_chunks cx u j cs w) = w_notified w"
  by (induction cx u j cs w rule: broadcast_chunks.induct) simp_all

lemma sendToAgent_fields [simp]:
  "w_db (snd (sendToAgent cx d m w)) = w_db w" "w_buffers (snd (sendToAgent cx d m w)) = w_buffers w"
  "w_notified (snd (sendToAgent cx d m w)) = w_notified w"
  by (simp_all add: sendToAgent_def split: prod.split)

lemma sendToAgent_D:
  "sendToAgent cx d m w = (ok, w') \<Longrightarrow>
   w_db w' = w_db w \<and> w_buffers w' = w_buffers w \<and> w_notified w' = w_notified w"
  using sendToAgent_fields [of cx d m w] by simp

lemma forward_db [simp]:
  "w_db (snd (forwardInput cx u j n s w)) = w_db w" "w_db (snd (forwardResize cx u j c r w)) = w_db w"
  "w_notified (snd (forwardInput cx u j n s w)) = w_notified w"
  "w_notified (snd (forwardResize cx u j c r w)) = w_notified w"
  by (auto simp: forwardInput_def forwardResize_def split: option.split prod.split dest!: sendToAgent_D)

lemma transition_data_id [simp]: "job_id (transition_data now t det code cur r) = job_id r"
  by (simp add: transition_data_def)

subsection \<open>The steps of the job service\<close>

datatype job_event =
    AgentReports ident ident job_status "string option" "int option"
  | AgentSyncs ident ident "out_chunk list"
  | AgentStreams ident ident ident out_chunk
  | BuffersMove buffer_event
  | UserCancels ident ident
  | UserTypes ident ident int string
  | UserResizes ident ident int int

fun job_step :: "int \<Rightarrow> ctx \<times> job_event \<Rightarrow> world \<Rightarrow> world" where
  "job_step m (cx, AgentReports dv j st det code) w = snd (transitionFromAgent cx dv j st det code w)"
| "job_step m (cx, AgentSyncs dv j cs) w = snd (persistOutput m cx dv j cs w)"
| "job_step m (cx, AgentStreams u dv j c) w = relayOutput cx u dv j c w"
| "job_step m (cx, BuffersMove ev) w =
     (case buffer_step m ev (w_buffers w, w_db w) of (b, d) \<Rightarrow> w\<lparr>w_buffers := b, w_db := d\<rparr>)"
| "job_step m (cx, UserCancels u j) w = snd (requestCancellation cx u j w)"
| "job_step m (cx, UserTypes u j n s) w = snd (forwardInput cx u j n s w)"
| "job_step m (cx, UserResizes u j c r) w = snd (forwardResize cx u j c r w)"

definition job_run :: "int \<Rightarrow> (ctx \<times> job_event) list \<Rightarrow> world \<Rightarrow> world" where
  "job_run m evs w = fold (job_step m) evs w"

subsection \<open>A contract for services that own jobs\<close>

text \<open>
  Steps that move a job's status along the transition table only. Whatever is built from such steps
  inherits the lifecycle: in particular a finished job stays as it is.
\<close>

locale lawful_service =
  fixes valid :: "'w \<Rightarrow> bool"
    and status :: "ident \<Rightarrow> 'w \<Rightarrow> job_status option"
    and step :: "'e \<Rightarrow> 'w \<Rightarrow> 'w"
  assumes valid_step: "valid w \<Longrightarrow> valid (step e w)"
    and lawful: "valid w \<Longrightarrow> rel_option status_step\<^sup>=\<^sup>= (status j w) (status j (step e w))"
begin

lemma lawful_run:
  "valid w \<Longrightarrow> valid (fold step es w) \<and> rel_option status_step\<^sup>*\<^sup>* (status j w) (status j (fold step es w))"
proof (induction es arbitrary: w)
  case Nil
  then show ?case by (simp add: option.rel_refl)
next
  case (Cons e es)
  have "rel_option status_step\<^sup>*\<^sup>* (status j w) (status j (step e w))"
    using lawful [OF Cons.prems, of j e]
    by (cases "status j w"; cases "status j (step e w)") auto
  moreover have "valid (fold step es (step e w)) \<and>
      rel_option status_step\<^sup>*\<^sup>* (status j (step e w)) (status j (fold step es (step e w)))"
    using Cons.IH [of "step e w"] valid_step [OF Cons.prems] by simp
  ultimately show ?case
    by (cases "status j w"; cases "status j (step e w)"; cases "status j (fold step es (step e w))") auto
qed

lemma finished_stays:
  assumes "valid w" and "status j w = Some s" and "isTerminalJobStatus s"
  shows "status j (fold step es w) = Some s"
  using lawful_run [OF assms(1), of es j] assms(2,3)
  by (cases "status j (fold step es w)") (auto dest: status_run_terminal)

end

definition w_status :: "ident \<Rightarrow> world \<Rightarrow> job_status option" where
  "w_status j w = job_status_of j (w_db w)"

definition w_keyed :: "world \<Rightarrow> bool" where
  "w_keyed w \<longleftrightarrow> jobs_keyed (w_db w) \<and> chunks_keyed (w_db w)"

lemma chunks_keyed_updateJob [simp]: "chunks_keyed (snd (updateJob now j f d)) = chunks_keyed d"
  by (simp add: chunks_keyed_def frame_simps)

lemma status_updateJob:
  assumes "\<And>r. job_id (f r) = job_id r"
  shows "job_status_of j (snd (updateJob now k f d)) =
    (if j = k then map_option (\<lambda>r. job_status (f r)) (findJob k d) else job_status_of j d)"
  using assms by (cases "findJob j d") (auto simp: job_status_of_def findJob_updateJob dest: findJob_SomeD)

lemma status_updateJob_same:
  assumes "\<And>r. job_id (f r) = job_id r \<and> job_status (f r) = job_status r"
  shows "job_status_of j (snd (updateJob now k f d)) = job_status_of j d"
  using assms by (simp add: status_updateJob) (simp add: job_status_of_def)

lemma findUserJob_find:
  assumes "jobs_keyed d" and "findUserJob u j d = Some r"
  shows "findJob j d = Some r \<and> job_userId r = u"
  using assms findJob_unique [of d r] by (auto simp: findUserJob_def dest: find_SomeD)

lemma transition_write_db:
  "w_db (snd (transition_write cx t det code cur w)) =
     snd (updateJob (cx_now cx) (job_id cur) (transition_data (cx_now cx) t det code cur) (w_db w))"
  by (cases "findJob (job_id cur) (w_db w)")
    (auto simp: transition_write_def updateJob_missing updateJob_snd Let_def)

lemma requestCancellation_db:
  "w_db (snd (requestCancellation cx u j w)) = w_db w \<or>
   (\<exists>job. findUserJob u j (w_db w) = Some job \<and> job_status job = Queued \<and>
      w_db (snd (requestCancellation cx u j w)) = snd (updateJob (cx_now cx) j
        (\<lambda>r. r\<lparr>job_status := Cancelled, job_finishedAt := Some (cx_now cx),
               job_statusDetail := Some ''Cancelled before start.''\<rparr>) (w_db w))) \<or>
   w_db (snd (requestCancellation cx u j w)) = snd (updateJob (cx_now cx) j
        (\<lambda>r. r\<lparr>job_statusDetail := Some ''Cancellation requested.''\<rparr>) (w_db w))"
proof (cases "findUserJob u j (w_db w)")
  case None
  then show ?thesis by (simp add: requestCancellation_def)
next
  case (Some job)
  consider "isTerminalJobStatus (job_status job)" | "job_status job = Queued"
    | "\<not> isTerminalJobStatus (job_status job)" "job_status job \<noteq> Queued" by blast
  then show ?thesis
  proof cases
    case 1
    with Some show ?thesis by (simp add: requestCancellation_def)
  next
    case 2
    with Some have "snd (requestCancellation cx u j w) = snd (cancel_queued cx u j w)"
      by (simp add: requestCancellation_def)
    moreover have "w_db (snd (cancel_queued cx u j w)) = snd (updateJob (cx_now cx) j
        (\<lambda>r. r\<lparr>job_status := Cancelled, job_finishedAt := Some (cx_now cx),
               job_statusDetail := Some ''Cancelled before start.''\<rparr>) (w_db w))"
      by (cases "findJob j (w_db w)") (simp_all add: cancel_queued_def updateJob_missing updateJob_snd)
    ultimately show ?thesis using 2 Some by auto
  next
    case 3
    obtain ok w' where s: "sendToAgent cx (job_deviceId job) (JobCancel j) w = (ok, w')" by force
    with 3 Some show ?thesis
      by (cases ok; cases "updateJob (cx_now cx) j
          (\<lambda>r. r\<lparr>job_statusDetail := Some ''Cancellation requested.''\<rparr>) (w_db w)")
        (auto simp: requestCancellation_def dest!: sendToAgent_D)
  qed
qed

lemma persist_transaction_jobs:
  "\<exists>f d1. snd (persist_transaction m now job cs d) = snd (updateJob now (job_id job) f d1) \<and>
     db_jobs d1 = db_jobs d \<and> (\<forall>r. job_id (f r) = job_id r \<and> job_status (f r) = job_status r \<and>
       job_finishedAt (f r) = job_finishedAt r \<and> job_deviceId (f r) = job_deviceId r \<and> job_userId (f r) = job_userId r)"
  by (simp add: persist_transaction_def Let_def split: prod.split) force

lemma persist_status [simp]: "job_status_of k (snd (persistChunks m now dv j cs d)) = job_status_of k d"
proof (cases "findJob j d")
  case None
  then show ?thesis by (simp add: persistChunks_none)
next
  case (Some job)
  obtain f d1 where "snd (persist_transaction m now job (unseen j cs d) d) = snd (updateJob now (job_id job) f d1)"
    "db_jobs d1 = db_jobs d" "\<forall>r. job_id (f r) = job_id r \<and> job_status (f r) = job_status r"
    using persist_transaction_jobs [of m now job "unseen j cs d" d] by auto
  then have "job_status_of k (snd (persist_transaction m now job (unseen j cs d) d)) = job_status_of k d"
    by (simp add: status_updateJob_same) (simp add: job_status_of_def findJob_def)
  then show ?thesis
    unfolding persistChunks_eq [OF Some]
    by (cases "persist_transaction m now job (unseen j cs d) d") auto
qed

lemma persistOutput_db: "w_db (snd (persistOutput m cx dv j cs w)) = snd (persistChunks m (cx_now cx) dv j cs (w_db w))"
  by (auto simp: persistOutput_def split: prod.split option.split)

lemma buffer_step_status: "job_status_of k (snd (buffer_step m ev (b, d))) = job_status_of k d"
  by (cases ev) (auto split: list.split)

lemma buffer_step_keyed:
  "jobs_keyed d \<Longrightarrow> chunks_keyed d \<Longrightarrow>
   jobs_keyed (snd (buffer_step m ev (b, d))) \<and> chunks_keyed (snd (buffer_step m ev (b, d)))"
  by (cases ev) (auto intro: persist_keyed split: list.split)

lemma transitionFromAgent_db:
  "w_db (snd (transitionFromAgent cx dv j t det code w)) = w_db w \<or>
   (\<exists>cur. findJob j (w_db w) = Some cur \<and> canTransitionJob (job_status cur) t \<and> job_deviceId cur = dv \<and>
      \<not> isTerminalJobStatus (job_status cur) \<and>
      w_db (snd (transitionFromAgent cx dv j t det code w)) =
        snd (updateJob (cx_now cx) j (transition_data (cx_now cx) t det code cur) (w_db w)))"
proof (cases "\<exists>cur. transition_read dv j t (w_db w) = Inr (WriteOver cur)")
  case True
  then obtain cur where r: "transition_read dv j t (w_db w) = Inr (WriteOver cur)" by auto
  then have "findJob j (w_db w) = Some cur" "canTransitionJob (job_status cur) t" "job_deviceId cur = dv"
    "\<not> isTerminalJobStatus (job_status cur)"
    by (auto simp: transition_read_def split: option.splits if_splits)
  moreover from this have "job_id cur = j" by (auto dest: findJob_SomeD)
  ultimately show ?thesis
    using r by (auto simp: transitionFromAgent_def transition_write_db)
next
  case False
  then show ?thesis
    by (auto simp: transitionFromAgent_def split: sum.split transition_plan.split)
qed

lemma job_step_keyed:
  assumes "w_keyed w"
  shows "w_keyed (job_step m e w)"
proof -
  have k: "jobs_keyed (w_db w)" "chunks_keyed (w_db w)" using assms by (auto simp: w_keyed_def)
  have upd: "jobs_keyed (snd (updateJob now i f (w_db w))) \<and> chunks_keyed (snd (updateJob now i f (w_db w)))"
    if "\<And>r. job_id (f r) = job_id r" for now i f
    using that k by (auto intro: jobs_keyed_updateJob)
  obtain cx ev where e: "e = (cx, ev)" by force
  show ?thesis
  proof (cases ev)
    case (AgentReports dv j st det code)
    with e k upd transitionFromAgent_db [of cx dv j st det code w] show ?thesis
      by (auto simp: w_keyed_def)
  next
    case (UserCancels u j)
    with e k upd requestCancellation_db [of cx u j w] show ?thesis
      by (auto simp: w_keyed_def)
  next
    case (BuffersMove bev)
    with e k buffer_step_keyed [of "w_db w" m bev "w_buffers w"] show ?thesis
      by (auto simp: w_keyed_def split: prod.split)
  qed (use e k in \<open>auto simp: w_keyed_def persistOutput_db relayOutput_def persist_keyed Let_def\<close>)
qed

lemma job_step_lawful:
  assumes "w_keyed w"
  shows "rel_option status_step\<^sup>=\<^sup>= (w_status j w) (w_status j (job_step m e w))"
proof -
  obtain cx ev where e: "e = (cx, ev)" by force
  have refl: "rel_option status_step\<^sup>=\<^sup>= x x" for x by (cases x) auto
  show ?thesis
  proof (cases ev)
    case (AgentReports dv k st det code)
    from transitionFromAgent_db [of cx dv k st det code w] show ?thesis
    proof (elim disjE exE conjE)
      fix cur assume cur: "findJob k (w_db w) = Some cur" "canTransitionJob (job_status cur) st"
        and db: "w_db (snd (transitionFromAgent cx dv k st det code w)) =
          snd (updateJob (cx_now cx) k (transition_data (cx_now cx) st det code cur) (w_db w))"
      have "job_status_of j (w_db (snd (transitionFromAgent cx dv k st det code w))) =
          (if j = k then Some st else job_status_of j (w_db w))"
        using cur unfolding db by (simp add: status_updateJob) (simp add: transition_data_def)
      moreover have "job_status_of k (w_db w) = Some (job_status cur)"
        using cur by (simp add: job_status_of_def)
      ultimately show ?thesis
        using cur(2) AgentReports e refl by (auto simp: w_status_def status_step_iff)
    qed (use AgentReports e refl in \<open>simp add: w_status_def\<close>)
  next
    case (UserCancels u k)
    from requestCancellation_db [of cx u k w] show ?thesis
    proof (elim disjE exE conjE)
      fix job assume job: "findUserJob u k (w_db w) = Some job" "job_status job = Queued"
        and db: "w_db (snd (requestCancellation cx u k w)) = snd (updateJob (cx_now cx) k
          (\<lambda>r. r\<lparr>job_status := Cancelled, job_finishedAt := Some (cx_now cx),
               job_statusDetail := Some ''Cancelled before start.''\<rparr>) (w_db w))"
      have f: "findJob k (w_db w) = Some job"
        using findUserJob_find [OF _ job(1)] assms by (simp add: w_keyed_def)
      then have "job_status_of j (w_db (snd (requestCancellation cx u k w))) =
          (if j = k then Some Cancelled else job_status_of j (w_db w))"
        unfolding db by (simp add: status_updateJob)
      then show ?thesis
        using f job(2) UserCancels e refl
        by (auto simp: w_status_def job_status_of_def status_step_iff canTransitionJob_def)
    next
      assume db: "w_db (snd (requestCancellation cx u k w)) = snd (updateJob (cx_now cx) k
        (\<lambda>r. r\<lparr>job_statusDetail := Some ''Cancellation requested.''\<rparr>) (w_db w))"
      then have "job_status_of j (w_db (snd (requestCancellation cx u k w))) = job_status_of j (w_db w)"
        by (simp add: status_updateJob_same)
      then show ?thesis using UserCancels e refl by (simp add: w_status_def)
    qed (use UserCancels e refl in \<open>simp add: w_status_def\<close>)
  next
    case (BuffersMove bev)
    then show ?thesis
      using e refl buffer_step_status [of j m bev "w_buffers w" "w_db w"]
      by (cases "buffer_step m bev (w_buffers w, w_db w)") (simp add: w_status_def)
  qed (use e refl in \<open>simp_all add: w_status_def persistOutput_db relayOutput_def Let_def\<close>)
qed

interpretation jobs: lawful_service w_keyed w_status "job_step m" for m
  by unfold_locales (auto intro: job_step_keyed job_step_lawful)

subsection \<open>Properties\<close>


definition example_world :: "job list \<Rightarrow> world" where
  "example_world js = \<lparr>w_db = example_db js, w_hub = fresh_hub ''i'' (\<lambda>s. open_socket), w_buffers = no_buffers,
     w_notified = []\<rparr>"

definition example_ctx :: ctx where
  "example_ctx = \<lparr>cx_now = 9, cx_uuid = ''x'', cx_routed = True, cx_published = True,
     cx_previousOwner = None, cx_released = Some True, cx_touched = True, cx_online = True, cx_owner = None\<rparr>"


text \<open>
  The guard of a transition is not part of its write. The agent's report is checked against the job
  as it was read; when the user cancels the queued job before the write, the write puts the
  cancelled job back to \<open>dispatched\<close>: a finished job is reopened, with its \<open>finishedAt\<close> still set.
\<close>

theorem stale_transition_reopens_cancelled_job:
  assumes keyed: "jobs_keyed (w_db w)" and job: "findJob j (w_db w) = Some cur" "job_status cur = Queued"
    and w1: "w1 = snd (requestCancellation cx (job_userId cur) j w)"
    and w2: "w2 = snd (transition_write cx' Dispatched None None cur w1)"
  shows "transition_read (job_deviceId cur) j Dispatched (w_db w) = Inr (WriteOver cur) \<and>
    w_status j w1 = Some Cancelled \<and> w_status j w2 = Some Dispatched \<and>
    map_option job_finishedAt (findJob j (w_db w2)) = Some (Some (cx_now cx))"
proof -
  have id: "job_id cur = j" using job by (auto dest: findJob_SomeD)
  have user: "findUserJob (job_userId cur) j (w_db w) = Some cur"
  proof -
    have "findUserJob (job_userId cur) j (w_db w) = List.find (\<lambda>r. job_id r = j) (db_jobs (w_db w))"
      unfolding findUserJob_def
    proof (rule find_cong_set)
      fix r assume "r \<in> set (db_jobs (w_db w))"
      then show "(job_id r = j \<and> job_userId r = job_userId cur) = (job_id r = j)"
        using findJob_unique [OF keyed, of r] job(1) by auto
    qed
    with job(1) show ?thesis by (simp add: findJob_def)
  qed
  let ?f = "\<lambda>r. r\<lparr>job_status := Cancelled, job_finishedAt := Some (cx_now cx),
               job_statusDetail := Some ''Cancelled before start.''\<rparr>"
  have "w_db w1 = snd (updateJob (cx_now cx) j ?f (w_db w))"
    using user job id unfolding w1
    by (simp add: requestCancellation_def cancel_queued_def updateJob_snd isTerminal_simps)
  then have f1: "findJob j (w_db w1) = Some ((?f cur)\<lparr>job_updatedAt := cx_now cx\<rparr>)"
    using job(1) id by (simp add: findJob_updateJob)
  then have "findJob j (w_db w2) = Some ((transition_data (cx_now cx') Dispatched None None cur
      ((?f cur)\<lparr>job_updatedAt := cx_now cx\<rparr>))\<lparr>job_updatedAt := cx_now cx'\<rparr>)"
    unfolding w2 transition_write_db using id by (simp add: findJob_updateJob)
  then show ?thesis
    using f1 job by (simp add: w_status_def job_status_of_def transition_data_def transition_read_def
        isTerminal_simps canTransitionJob_def)
qed

theorem stale_transition_reopens_cancelled_job_witness:
  "let w = example_world [example_job ''j'' ''u'' ''d'' Queued];
       w1 = snd (requestCancellation example_ctx ''u'' ''j'' w);
       w2 = snd (transition_write example_ctx Dispatched None None (example_job ''j'' ''u'' ''d'' Queued) w1)
   in w_status ''j'' w1 = Some Cancelled \<and> w_status ''j'' w2 = Some Dispatched"
  using stale_transition_reopens_cancelled_job [of "example_world [example_job ''j'' ''u'' ''d'' Queued]" "''j''"
      "example_job ''j'' ''u'' ''d'' Queued" _ example_ctx _ example_ctx, OF _ _ _ refl refl]
  by (simp add: Let_def example_world_def jobs_keyed_def findJob_def example_defs)

text \<open>
  A transition reported by the agent notifies exactly when it changes something: either the job's
  status changes and one notification with the new status is handed to the push service, or neither
  happens.
\<close>

theorem transition_notifies_on_change:
  "let w' = snd (transitionFromAgent cx dv j t det code w) in
   (\<exists>p. w_notified w' = w_notified w @ [p] \<and> pj_id p = j \<and> w_status j w' = Some (pj_status p) \<and>
      w_status j w' \<noteq> w_status j w) \<or>
   (w_notified w' = w_notified w \<and> w_status j w' = w_status j w)"
proof (cases "\<exists>cur. transition_read dv j t (w_db w) = Inr (WriteOver cur)")
  case True
  then obtain cur where r: "transition_read dv j t (w_db w) = Inr (WriteOver cur)" by auto
  then have cur: "findJob j (w_db w) = Some cur" and id: "job_id cur = j"
    by (auto simp: transition_read_def split: option.splits if_splits dest: findJob_SomeD)
  have st: "w_status j (snd (transition_write cx t det code cur w)) = Some t"
    using cur id by (simp add: w_status_def transition_write_db status_updateJob) (simp add: transition_data_def)
  have "w_notified (snd (transition_write cx t det code cur w)) = w_notified w \<and> t = job_status cur \<or>
      (\<exists>p. w_notified (snd (transition_write cx t det code cur w)) = w_notified w @ [p] \<and> pj_id p = j \<and>
        pj_status p = t \<and> t \<noteq> job_status cur)"
    using cur id by (auto simp: transition_write_def updateJob_snd Let_def) (auto simp: transition_data_def)
  then show ?thesis
    using r st cur by (auto simp: transitionFromAgent_def w_status_def job_status_of_def Let_def)
next
  case False
  then show ?thesis
    by (auto simp: transitionFromAgent_def Let_def split: sum.split transition_plan.split)
qed

text \<open>A job has a finish time exactly when it has finished.\<close>

definition job_times_ok :: "job \<Rightarrow> bool" where
  "job_times_ok r \<longleftrightarrow> (job_finishedAt r \<noteq> None \<longleftrightarrow> isTerminalJobStatus (job_status r))"

definition times_ok :: "world \<Rightarrow> bool" where
  "times_ok w \<longleftrightarrow> w_keyed w \<and> (\<forall>r \<in> set (db_jobs (w_db w)). job_times_ok r)"

lemma updateJob_rows:
  assumes "jobs_keyed d" and "r \<in> set (db_jobs (snd (updateJob now k f d)))"
  shows "r \<in> set (db_jobs d) \<or> (\<exists>cur. findJob k d = Some cur \<and> r = (f cur)\<lparr>job_updatedAt := now\<rparr>)"
proof (cases "findJob k d")
  case None
  with assms(2) show ?thesis by (simp add: updateJob_missing)
next
  case (Some cur)
  with assms(2) obtain r0 where "r \<in> set (db_jobs d) \<or>
      r0 \<in> set (db_jobs d) \<and> job_id r0 = k \<and> r = (f r0)\<lparr>job_updatedAt := now\<rparr>"
    by (auto simp: updateJob_snd set_updateMany)
  with Some findJob_unique [OF assms(1), of r0] show ?thesis by auto
qed

lemma times_updateJob:
  assumes keyed: "jobs_keyed d" and old: "\<forall>r \<in> set (db_jobs d). job_times_ok r"
    and f: "\<And>cur. findJob k d = Some cur \<Longrightarrow> job_times_ok cur \<Longrightarrow> job_times_ok ((f cur)\<lparr>job_updatedAt := now\<rparr>)"
  shows "\<forall>r \<in> set (db_jobs (snd (updateJob now k f d))). job_times_ok r"
proof
  fix r assume "r \<in> set (db_jobs (snd (updateJob now k f d)))"
  from updateJob_rows [OF keyed this] show "job_times_ok r"
    using old f by (auto dest: findJob_SomeD)
qed

lemma persist_times:
  assumes "jobs_keyed d" and "\<forall>r \<in> set (db_jobs d). job_times_ok r"
  shows "\<forall>r \<in> set (db_jobs (snd (persistChunks m now dv j cs d))). job_times_ok r"
proof (cases "findJob j d")
  case None
  with assms show ?thesis by (simp add: persistChunks_none)
next
  case (Some job)
  obtain f d1 where d1: "snd (persist_transaction m now job (unseen j cs d) d) = snd (updateJob now (job_id job) f d1)"
    "db_jobs d1 = db_jobs d" "\<forall>r. job_status (f r) = job_status r \<and> job_finishedAt (f r) = job_finishedAt r"
    using persist_transaction_jobs [of m now job "unseen j cs d" d] by auto
  have "\<forall>r \<in> set (db_jobs (snd (updateJob now (job_id job) f d1))). job_times_ok r"
    by (rule times_updateJob) (use assms d1 in \<open>auto simp: jobs_keyed_def job_times_ok_def\<close>)
  with d1(1) assms show ?thesis
    unfolding persistChunks_eq [OF Some]
    by (cases "persist_transaction m now job (unseen j cs d) d") auto
qed

lemma times_step:
  assumes "times_ok w"
  shows "times_ok (job_step m e w)"
proof -
  have keyed: "jobs_keyed (w_db w)" and rows: "\<forall>r \<in> set (db_jobs (w_db w)). job_times_ok r" and wk: "w_keyed w"
    using assms by (auto simp: times_ok_def w_keyed_def)
  obtain cx ev where e: "e = (cx, ev)" by force
  have "\<forall>r \<in> set (db_jobs (w_db (job_step m e w))). job_times_ok r"
  proof (cases ev)
    case (AgentReports dv k st det code)
    from transitionFromAgent_db [of cx dv k st det code w] show ?thesis
    proof (elim disjE exE conjE)
      fix cur assume cur: "findJob k (w_db w) = Some cur" "\<not> isTerminalJobStatus (job_status cur)"
        and db: "w_db (snd (transitionFromAgent cx dv k st det code w)) =
          snd (updateJob (cx_now cx) k (transition_data (cx_now cx) st det code cur) (w_db w))"
      have "\<forall>r \<in> set (db_jobs (snd (updateJob (cx_now cx) k (transition_data (cx_now cx) st det code cur) (w_db w)))).
          job_times_ok r"
        by (rule times_updateJob [OF keyed rows])
          (use cur in \<open>auto simp: job_times_ok_def transition_data_def split: if_splits\<close>)
      with db AgentReports e show ?thesis by simp
    qed (use AgentReports e rows in simp)
  next
    case (UserCancels u k)
    have "\<forall>r \<in> set (db_jobs (snd (updateJob (cx_now cx) k
          (\<lambda>r. r\<lparr>job_status := Cancelled, job_finishedAt := Some (cx_now cx),
               job_statusDetail := Some ''Cancelled before start.''\<rparr>) (w_db w)))). job_times_ok r"
      "\<forall>r \<in> set (db_jobs (snd (updateJob (cx_now cx) k
          (\<lambda>r. r\<lparr>job_statusDetail := Some ''Cancellation requested.''\<rparr>) (w_db w)))). job_times_ok r"
      by (rule times_updateJob [OF keyed rows], simp add: job_times_ok_def isTerminal_simps)+
    with UserCancels e rows requestCancellation_db [of cx u k w] show ?thesis by auto
  next
    case (BuffersMove bev)
    have "\<forall>r \<in> set (db_jobs (snd (buffer_step m bev (w_buffers w, w_db w)))). job_times_ok r"
      using persist_times [OF keyed rows] rows by (cases bev) (auto split: list.split)
    with BuffersMove e show ?thesis
      by (cases "buffer_step m bev (w_buffers w, w_db w)") simp
  qed (use e rows persist_times [OF keyed rows] in \<open>simp_all add: persistOutput_db relayOutput_def Let_def\<close>)
  with job_step_keyed [OF wk] show ?thesis by (simp add: times_ok_def)
qed

text \<open>
  In every state the job service reaches from a consistent one, a job has a finish time exactly
  when its status is final.
\<close>

theorem finish_times_match_status:
  assumes "times_ok w" and "findJob j (w_db (job_run m evs w)) = Some r"
  shows "job_finishedAt r \<noteq> None \<longleftrightarrow> isTerminalJobStatus (job_status r)"
proof -
  have "times_ok (job_run m evs w)"
    using assms(1) by (induction evs arbitrary: w) (auto simp: job_run_def intro: times_step)
  with assms(2) show ?thesis
    by (auto simp: times_ok_def job_times_ok_def dest: findJob_SomeD)
qed

theorem finish_times_match_status_witness:
  "\<exists>r. findJob ''j'' (w_db (job_run 100 [(example_ctx, AgentReports ''d'' ''j'' Completed None (Some 0))]
       (example_world [example_job ''j'' ''u'' ''d'' Running]))) = Some r \<and>
     (job_finishedAt r \<noteq> None \<longleftrightarrow> isTerminalJobStatus (job_status r))"
proof -
  let ?w = "example_world [example_job ''j'' ''u'' ''d'' Running]"
  let ?evs = "[(example_ctx, AgentReports ''d'' ''j'' Completed None (Some 0))]"
  have ok: "times_ok ?w"
    by (simp add: times_ok_def w_keyed_def example_world_def example_defs jobs_keyed_def chunks_keyed_def
        job_times_ok_def isTerminal_simps)
  have "w_status ''j'' ?w = Some Running"
    by (simp add: w_status_def job_status_of_def example_world_def example_defs findJob_def)
  moreover have "rel_option status_step\<^sup>*\<^sup>* (w_status ''j'' ?w) (w_status ''j'' (job_run 100 ?evs ?w))"
    using jobs.lawful_run [of ?w 100 ?evs "''j''"] ok unfolding times_ok_def job_run_def by blast
  ultimately have "w_status ''j'' (job_run 100 ?evs ?w) \<noteq> None"
    by (cases "w_status ''j'' (job_run 100 ?evs ?w)") simp_all
  then obtain r where "findJob ''j'' (w_db (job_run 100 ?evs ?w)) = Some r"
    by (auto simp: w_status_def job_status_of_def)
  then show ?thesis
    using finish_times_match_status [OF ok] by blast
qed

text \<open>
  Terminal input goes where it belongs or nowhere. On an instance without Redis, \<open>forwardInput\<close>
  succeeds exactly when the job is the user's, interactive and not finished, and the job's
  device has an open socket here; then that socket, and no other, gets the one input message. In
  all other cases nothing changes.
\<close>

theorem input_reaches_only_the_jobs_agent:
  assumes "\<not> hub_distributed (w_hub w)"
  shows "case forwardInput cx u j n s w of (res, w') \<Rightarrow>
    if (\<exists>job c. findUserJob u j (w_db w) = Some job \<and> job_interactive job \<and> \<not> isTerminalJobStatus (job_status job) \<and>
          agent_of (job_deviceId job) (w_hub w) = Some c \<and>
          sk_readyState (hub_sockets (w_hub w) (ac_socket c)) = OPEN_STATE)
    then res = Inr () \<and> (\<exists>job c. findUserJob u j (w_db w) = Some job \<and>
          agent_of (job_deviceId job) (w_hub w) = Some c \<and>
          w' = w\<lparr>w_hub := (w_hub w)\<lparr>hub_sockets := (hub_sockets (w_hub w))(ac_socket c :=
                 (hub_sockets (w_hub w) (ac_socket c))\<lparr>sk_sent :=
                    sk_sent (hub_sockets (w_hub w) (ac_socket c)) @ [ToAgent (JobInput j n s)]\<rparr>)\<rparr>\<rparr>)
    else isl res \<and> w' = w"
  using assms
  by (auto simp: forwardInput_def sendToAgent_def sendToLocalAgent_def send_def send_on_def
      split: option.split)

theorem input_reaches_only_the_jobs_agent_witness:
  "case forwardInput example_ctx ''v'' ''j'' 0 ''x'' (example_world [example_job ''j'' ''u'' ''d'' Running]) of
     (res, w') \<Rightarrow> isl res \<and> w' = example_world [example_job ''j'' ''u'' ''d'' Running]"
proof -
  have "findUserJob ''v'' ''j'' (w_db (example_world [example_job ''j'' ''u'' ''d'' Running])) = None"
    by (simp add: findUserJob_def example_world_def example_defs)
  then show ?thesis
    using input_reaches_only_the_jobs_agent [where w = "example_world [example_job ''j'' ''u'' ''d'' Running]"
        and cx = example_ctx and u = "''v''" and j = "''j''" and n = 0 and s = "''x''"]
    by (simp add: example_world_def fresh_hub_def split: prod.split)
qed

end
