(* ===== verification/Broker.thy ===== *)
theory Broker
  imports Hub
begin

section \<open>Repository validation requests\<close>

text \<open>
  \<open>RepositoryValidationBroker\<close> of \<open>services/connections.ts\<close>: a request to an agent to validate a path
  waits for the agent's result, its disconnection, a failed send, the shutdown or a timeout. The
  promise of a request is a number; its outcome is the first it is settled with. A timer is the
  repository and the promise its callback closes over.
\<close>

record pending_validation =
  pv_deviceId :: ident
  pv_promise :: nat

record broker =
  br_pending :: "(ident \<times> pending_validation) list"
  br_timers :: "(ident \<times> nat) list"
  br_outcomes :: "(nat \<times> (js_error + validation_result)) list"
  br_next :: nat

definition settle_promise :: "nat \<Rightarrow> js_error + validation_result \<Rightarrow> broker \<Rightarrow> broker" where
  "settle_promise p outcome b =
     (if map_of (br_outcomes b) p = None then b\<lparr>br_outcomes := (p, outcome) # br_outcomes b\<rparr> else b)"

text \<open>\<open>clearTimeout\<close> of an entry, its deletion, and the settling of its promise.\<close>

definition drop_pending :: "ident \<Rightarrow> pending_validation \<Rightarrow> js_error + validation_result \<Rightarrow> broker \<Rightarrow> broker" where
  "drop_pending repositoryId pv outcome b =
     settle_promise (pv_promise pv) outcome
       (b\<lparr>br_timers := filter (\<lambda>t. snd t \<noteq> pv_promise pv) (br_timers b),
          br_pending := AList.delete repositoryId (br_pending b)\<rparr>)"

subsection \<open>Requests\<close>

text \<open>
  \<open>request\<close>: the check before the await of \<open>isAgentOnline\<close>, then the rest with its answer. The result
  of the rest is the promise to wait for.
\<close>

definition request_begin :: "ident \<Rightarrow> broker \<Rightarrow> js_error option" where
  "request_begin repositoryId b =
     (if map_of (br_pending b) repositoryId \<noteq> None
      then Some (AppError 409 ''VALIDATION_IN_PROGRESS'' ''Repository validation is already running.'')
      else None)"

definition request_finish :: "ident \<Rightarrow> ident \<Rightarrow> bool \<Rightarrow> broker \<Rightarrow> (js_error + nat) \<times> broker" where
  "request_finish deviceId repositoryId online b =
     (if \<not> online then (Inl (AppError 409 ''DEVICE_OFFLINE'' ''The device must be online to validate a path.''), b)
      else (Inr (br_next b),
            b\<lparr>br_timers := br_timers b @ [(repositoryId, br_next b)],
              br_pending := AList.update repositoryId \<lparr>pv_deviceId = deviceId, pv_promise = br_next b\<rparr> (br_pending b),
              br_next := Suc (br_next b)\<rparr>))"

definition validation_timeout :: "ident \<times> nat \<Rightarrow> broker \<Rightarrow> broker" where
  "validation_timeout t b =
     (if t \<in> set (br_timers b) then
        settle_promise (snd t) (Inl (AppError 504 ''VALIDATION_TIMEOUT'' ''The agent did not validate the path in time.''))
          (b\<lparr>br_timers := removeAll t (br_timers b), br_pending := AList.delete (fst t) (br_pending b)\<rparr>)
      else b)"

text \<open>The continuation of the send when it was not sent.\<close>

definition send_failed :: "ident \<Rightarrow> broker \<Rightarrow> broker" where
  "send_failed repositoryId b =
     (case map_of (br_pending b) repositoryId of
        None \<Rightarrow> b
      | Some pv \<Rightarrow> drop_pending repositoryId pv
          (Inl (AppError 409 ''DEVICE_OFFLINE'' ''The device disconnected before validation.'')) b)"

subsection \<open>Settling\<close>

definition settleLocal :: "ident \<Rightarrow> validation_result \<Rightarrow> broker \<Rightarrow> bool option \<times> broker" where
  "settleLocal deviceId result b =
     (case map_of (br_pending b) (vr_repositoryId result) of
        None \<Rightarrow> (Some False, b)
      | Some pv \<Rightarrow>
          if pv_deviceId pv \<noteq> deviceId then (Some False, b)
          else (Some True, drop_pending (vr_repositoryId result) pv (Inr result) b))"

fun cancel_entries :: "ident \<Rightarrow> (ident \<times> pending_validation) list \<Rightarrow> broker \<Rightarrow> broker" where
  "cancel_entries deviceId [] b = b"
| "cancel_entries deviceId ((r, pv) # es) b =
     cancel_entries deviceId es
       (if pv_deviceId pv \<noteq> deviceId then b
        else drop_pending r pv (Inl (AppError 409 ''DEVICE_OFFLINE'' ''The device disconnected during validation.'')) b)"

definition cancelLocalForDevice :: "ident \<Rightarrow> broker \<Rightarrow> broker" where
  "cancelLocalForDevice deviceId b = cancel_entries deviceId (br_pending b) b"

fun reject_entries :: "(ident \<times> pending_validation) list \<Rightarrow> broker \<Rightarrow> broker" where
  "reject_entries [] b = b"
| "reject_entries ((r, pv) # es) b =
     reject_entries es
       (settle_promise (pv_promise pv) (Inl (AppError 503 ''SERVER_SHUTTING_DOWN'' ''The server is shutting down.''))
         (b\<lparr>br_timers := filter (\<lambda>t. snd t \<noteq> pv_promise pv) (br_timers b)\<rparr>))"

definition broker_shutdown :: "broker \<Rightarrow> broker" where
  "broker_shutdown b = (reject_entries (br_pending b) b)\<lparr>br_pending := []\<rparr>"

text \<open>The listeners the constructor registers with the hub, and what the socket routes call.\<close>

definition result_listeners :: "(ident \<Rightarrow> validation_result \<Rightarrow> broker \<Rightarrow> bool option \<times> broker) list" where
  "result_listeners = [settleLocal]"

definition cancel_listeners :: "(ident \<Rightarrow> broker \<Rightarrow> broker) list" where
  "cancel_listeners = [cancelLocalForDevice]"

definition settle ::
  "bool \<Rightarrow> ms \<Rightarrow> ident \<Rightarrow> ident \<Rightarrow> validation_result \<Rightarrow> broker \<times> hub \<Rightarrow> bool \<times> broker \<times> hub" where
  "settle accepted now uuid deviceId result s =
     publishValidationResult result_listeners accepted now uuid deviceId result s"

definition cancelForDevice :: "bool \<Rightarrow> ms \<Rightarrow> ident \<Rightarrow> ident \<Rightarrow> broker \<times> hub \<Rightarrow> broker \<times> hub" where
  "cancelForDevice accepted now uuid deviceId s =
     publishValidationCancel cancel_listeners accepted now uuid deviceId s"

subsection \<open>Runs\<close>

datatype broker_event =
    Requested ident ident
  | TimedOut ident nat
  | SendFailed ident
  | ResultFrom ident validation_result
  | DeviceGone ident
  | ShutDown

fun broker_step :: "broker_event \<Rightarrow> broker \<Rightarrow> broker" where
  "broker_step (Requested d r) b = snd (request_finish d r True b)"
| "broker_step (TimedOut r p) b = validation_timeout (r, p) b"
| "broker_step (SendFailed r) b = send_failed r b"
| "broker_step (ResultFrom d res) b = snd (settleLocal d res b)"
| "broker_step (DeviceGone d) b = cancelLocalForDevice d b"
| "broker_step ShutDown b = broker_shutdown b"

definition broker_run :: "broker_event list \<Rightarrow> broker \<Rightarrow> broker" where
  "broker_run evs b = fold broker_step evs b"

definition fresh_broker :: broker where
  "fresh_broker = \<lparr>br_pending = [], br_timers = [], br_outcomes = [], br_next = 0\<rparr>"

text \<open>
  Every promise handed out is settled or has its timer running, and a pending entry belongs to a
  promise handed out.
\<close>

definition settled :: "nat \<Rightarrow> broker \<Rightarrow> bool" where
  "settled p b \<longleftrightarrow> map_of (br_outcomes b) p \<noteq> None"

definition broker_ok :: "broker \<Rightarrow> bool" where
  "broker_ok b \<longleftrightarrow> (\<forall>p < br_next b. settled p b \<or> p \<in> snd ` set (br_timers b))"

lemma settled_settle [simp]: "settled q (settle_promise p out b) \<longleftrightarrow> q = p \<or> settled q b"
  by (auto simp: settled_def settle_promise_def)

lemma settle_fields [simp]:
  "br_timers (settle_promise p out b) = br_timers b" "br_next (settle_promise p out b) = br_next b"
  "br_pending (settle_promise p out b) = br_pending b"
  by (simp_all add: settle_promise_def)

lemma settled_fields [simp]:
  "settled q (b\<lparr>br_timers := ts, br_pending := ps\<rparr>) = settled q b"
  "settled q (b\<lparr>br_timers := ts\<rparr>) = settled q b" "settled q (b\<lparr>br_pending := ps\<rparr>) = settled q b"
  by (simp_all add: settled_def)

lemma drop_pending_ok: "broker_ok b \<Longrightarrow> broker_ok (drop_pending r pv out b)"
  by (fastforce simp: broker_ok_def drop_pending_def)

lemma drop_pending_fields [simp]:
  "br_pending (drop_pending r pv out b) = AList.delete r (br_pending b)"
  "settled q (drop_pending r pv out b) \<longleftrightarrow> q = pv_promise pv \<or> settled q b"
  by (simp_all add: drop_pending_def)

lemma cancel_entries_ok: "broker_ok b \<Longrightarrow> broker_ok (cancel_entries d es b)"
  by (induction d es b rule: cancel_entries.induct) (auto simp: drop_pending_ok)

lemma reject_entries_ok: "broker_ok b \<Longrightarrow> broker_ok (reject_entries es b)"
proof (induction es b rule: reject_entries.induct)
  case (2 r pv es b)
  from 2(2) have "broker_ok (settle_promise (pv_promise pv)
      (Inl (AppError 503 ''SERVER_SHUTTING_DOWN'' ''The server is shutting down.''))
      (b\<lparr>br_timers := filter (\<lambda>t. snd t \<noteq> pv_promise pv) (br_timers b)\<rparr>))"
    by (fastforce simp: broker_ok_def)
  with 2(1) show ?case by simp
qed simp

lemma broker_step_ok: "broker_ok b \<Longrightarrow> broker_ok (broker_step ev b)"
proof (cases ev)
  case (TimedOut r p)
  assume "broker_ok b"
  then show ?thesis
    by (fastforce simp: TimedOut validation_timeout_def broker_ok_def)
next
  case (Requested d r)
  assume ok: "broker_ok b"
  then show ?thesis
    by (auto simp: Requested request_finish_def broker_ok_def settled_def less_Suc_eq)
next
  case ShutDown
  assume "broker_ok b"
  then have "broker_ok (reject_entries (br_pending b) b)" by (rule reject_entries_ok)
  then show ?thesis by (simp add: ShutDown broker_shutdown_def broker_ok_def)
qed (auto simp: send_failed_def settleLocal_def cancelLocalForDevice_def
    intro: drop_pending_ok cancel_entries_ok split: option.split)

lemma broker_run_ok: "broker_ok b \<Longrightarrow> broker_ok (broker_run evs b)"
  by (induction evs arbitrary: b) (auto simp: broker_run_def intro: broker_step_ok)

text \<open>
  C24. No validation request hangs: in every state the broker reaches, each promise it has handed out
  either has its outcome, or a running timer that will settle it, whatever requests, results,
  disconnections and failed sends came in between.
\<close>

theorem validation_never_hangs:
  assumes "b = broker_run evs fresh_broker" and "p < br_next b"
  shows "settled p b \<or> (\<exists>r. (r, p) \<in> set (br_timers b) \<and> settled p (broker_step (TimedOut r p) b))"
proof -
  have "broker_ok b"
    unfolding assms(1) by (rule broker_run_ok) (simp add: broker_ok_def fresh_broker_def)
  with assms(2) show ?thesis
    by (auto simp: broker_ok_def validation_timeout_def)
qed

theorem validation_never_hangs_witness:
  "settled 0 (broker_run [Requested ''d'' ''r'', DeviceGone ''d''] fresh_broker) \<or>
   (\<exists>r. settled 0 (broker_step (TimedOut r 0) (broker_run [Requested ''d'' ''r'', DeviceGone ''d''] fresh_broker)))"
  using validation_never_hangs [OF refl, of 0 "[Requested ''d'' ''r'', DeviceGone ''d'']"]
  by (auto simp: broker_run_def request_finish_def fresh_broker_def cancelLocalForDevice_def drop_pending_def
      settle_promise_def)

subsection \<open>Only the asked device answers, and its disconnection answers for it\<close>

lemma cancel_entries_pending:
  "distinct (map fst es) \<Longrightarrow>
   map_of (br_pending (cancel_entries d es b)) r =
     (if \<exists>pv. map_of es r = Some pv \<and> pv_deviceId pv = d then None else map_of (br_pending b) r)"
proof (induction d es b rule: cancel_entries.induct)
  case (2 d k pv es b)
  then show ?case
    by (cases "pv_deviceId pv = d") (auto simp: map_of_eq_None_iff [symmetric] dest: map_of_SomeD)
qed simp

lemma cancel_entries_settled:
  "settled p (cancel_entries d es b) \<longleftrightarrow>
     settled p b \<or> (\<exists>r pv. (r, pv) \<in> set es \<and> pv_deviceId pv = d \<and> pv_promise pv = p)"
  by (induction d es b rule: cancel_entries.induct) auto

lemma broker_keys_step:
  assumes "distinct (map fst (br_pending b))"
  shows "distinct (map fst (br_pending (broker_step ev b)))"
proof -
  have "distinct (map fst (br_pending (cancel_entries d es c)))"
    if "distinct (map fst (br_pending c))" for d es c
    using that by (induction d es c rule: cancel_entries.induct) (auto simp: distinct_keys_delete)
  with assms show ?thesis
    by (cases ev) (auto simp: request_finish_def validation_timeout_def send_failed_def settleLocal_def
        cancelLocalForDevice_def broker_shutdown_def distinct_keys_update distinct_keys_delete split: option.split)
qed

lemma broker_keys_run: "distinct (map fst (br_pending (broker_run evs fresh_broker)))"
proof -
  have "distinct (map fst (br_pending b)) \<Longrightarrow> distinct (map fst (br_pending (fold broker_step evs b)))" for b
    by (induction evs arbitrary: b) (auto simp: broker_keys_step)
  then show ?thesis
    by (simp add: broker_run_def fresh_broker_def)
qed

text \<open>
  A result settles a request only when it comes from the device that was asked, and leaves every
  other pending request alone; and when a device disconnects, exactly its requests stop being
  pending and each of their promises is settled.
\<close>

theorem validation_answers:
  assumes "b = broker_run evs fresh_broker"
  shows "(case settleLocal d res b of (ok, b') \<Rightarrow>
      (ok = Some True \<longleftrightarrow> (\<exists>pv. map_of (br_pending b) (vr_repositoryId res) = Some pv \<and> pv_deviceId pv = d)) \<and>
      (\<forall>r. r = vr_repositoryId res \<or> map_of (br_pending b') r = map_of (br_pending b) r) \<and>
      (ok = Some True \<or> b' = b)) \<and>
    (\<forall>r. map_of (br_pending (cancelLocalForDevice d b)) r =
        (case map_of (br_pending b) r of
           None \<Rightarrow> None | Some pv \<Rightarrow> if pv_deviceId pv = d then None else Some pv)) \<and>
    (\<forall>r pv. map_of (br_pending b) r = Some pv \<and> pv_deviceId pv = d \<longrightarrow>
        settled (pv_promise pv) (cancelLocalForDevice d b))"
proof -
  have keys: "distinct (map fst (br_pending b))"
    unfolding assms by (rule broker_keys_run)
  have "map_of (br_pending (cancelLocalForDevice d b)) r =
        (case map_of (br_pending b) r of
           None \<Rightarrow> None | Some pv \<Rightarrow> if pv_deviceId pv = d then None else Some pv)" for r
    by (auto simp: cancelLocalForDevice_def cancel_entries_pending [OF keys] split: option.split)
  moreover have "settled (pv_promise pv) (cancelLocalForDevice d b)"
    if "map_of (br_pending b) r = Some pv" "pv_deviceId pv = d" for r pv
    using that by (auto simp: cancelLocalForDevice_def cancel_entries_settled dest: map_of_SomeD)
  ultimately show ?thesis
    by (auto simp: settleLocal_def split: option.split)
qed

theorem validation_answers_witness:
  "let b = broker_run [Requested ''d'' ''r''] fresh_broker in
   map_of (br_pending (cancelLocalForDevice ''d'' b)) ''r'' = None \<and> settled 0 (cancelLocalForDevice ''d'' b)"
proof -
  let ?b = "broker_run [Requested ''d'' ''r''] fresh_broker"
  have p: "map_of (br_pending ?b) ''r'' = Some \<lparr>pv_deviceId = ''d'', pv_promise = 0\<rparr>"
    by (simp add: broker_run_def request_finish_def fresh_broker_def)
  note ans = validation_answers [OF refl, where evs = "[Requested ''d'' ''r'']" and d = "''d''", THEN conjunct2]
  from p show ?thesis
    using ans [THEN conjunct1, rule_format, of "''r''"]
      ans [THEN conjunct2, rule_format, of "''r''" "\<lparr>pv_deviceId = ''d'', pv_promise = 0\<rparr>"]
    by (simp add: Let_def)
qed

end
