(* ===== verification/AgentSocket.thy ===== *)
theory AgentSocket
  imports Jobs Broker
begin

section \<open>The agent's WebSocket\<close>

text \<open>
  The route \<open>/ws/agent\<close> of \<open>routes/websockets.ts\<close>: authentication of the device credential, the
  handler of each message, the queue that handles one message after the other, and the clean-up
  when the socket closes. A handler is one step on the state of the server: the database, the hub,
  the buffers and the validation broker. Steps of other connections come between handlers; where
  they matter inside one, the theorems say so.
\<close>

record server =
  sr_world :: world
  sr_broker :: broker

text \<open>What the route knows of the connection: the credential's identity and its local variables.\<close>

record agent_session =
  as_credentialId :: ident
  as_deviceId :: ident
  as_userId :: ident
  as_socket :: sock
  as_helloReceived :: bool
  as_ownedJobs :: "ident list"

subsection \<open>Authentication\<close>

definition is_token_char :: "char \<Rightarrow> bool" where
  "is_token_char c \<longleftrightarrow> is_upper_char c \<or> is_lower_char c \<or> is_digit_char c \<or> c = CHR ''_'' \<or> c = CHR ''-''"

text \<open>The match of \<open>/^Bearer ([A-Za-z0-9_-]{20,256})$/\<close>.\<close>

definition bearer_token :: "string \<Rightarrow> string option" where
  "bearer_token header =
     (if take 7 header = ''Bearer ''
      then (let token = drop 7 header in
            if 20 \<le> length token \<and> length token \<le> 256 \<and> list_all is_token_char token then Some token else None)
      else None)"

text \<open>
  \<open>authenticateAgent\<close>; \<open>hash\<close> is \<open>hashOpaqueToken\<close> with the credential secret, and an absent header
  is \<open>None\<close>.
\<close>

definition authenticateAgent ::
  "(string \<Rightarrow> string) \<Rightarrow> ms \<Rightarrow> string option \<Rightarrow> db \<Rightarrow> (js_error + ident \<times> ident \<times> ident) \<times> db" where
  "authenticateAgent hash now header d =
     (case Option.bind header bearer_token of
        None \<Rightarrow> (Inl (AppError 401 ''AGENT_CREDENTIAL_REQUIRED'' ''A device credential is required.''), d)
      | Some token \<Rightarrow>
          (case List.find (\<lambda>c. cred_credentialHash c = hash token) (db_credentials d) of
             None \<Rightarrow> (Inl (AppError 401 ''AGENT_CREDENTIAL_INVALID'' ''The device credential is invalid.''), d)
           | Some c \<Rightarrow>
               (case findDevice (cred_deviceId c) d of
                  None \<Rightarrow> (Inl (AppError 401 ''AGENT_CREDENTIAL_INVALID'' ''The device credential is invalid.''), d)
                | Some dev \<Rightarrow>
                    if cred_revokedAt c \<noteq> None \<or> dev_status dev = Revoked
                    then (Inl (AppError 401 ''AGENT_CREDENTIAL_INVALID'' ''The device credential is invalid.''), d)
                    else (Inr (cred_id c, dev_id dev, dev_userId dev),
                          d\<lparr>db_credentials := updateMany (\<lambda>r. cred_id r = cred_id c)
                              (\<lambda>r. r\<lparr>cred_lastUsedAt := Some now\<rparr>) (db_credentials d)\<rparr>))))"

subsection \<open>Operations of the hub on the server's state\<close>

definition on_hub :: "(hub \<Rightarrow> hub) \<Rightarrow> world \<Rightarrow> world" where
  "on_hub f w = w\<lparr>w_hub := f (w_hub w)\<rparr>"

definition hub_attach :: "ctx \<Rightarrow> ident \<Rightarrow> ident \<Rightarrow> sock \<Rightarrow> world \<Rightarrow> world" where
  "hub_attach cx deviceId userId socket w =
     on_hub (\<lambda>h. case attachAgent_begin deviceId userId (cx_uuid cx) h of
         (existing, owner) \<Rightarrow> attachAgent_finish existing owner
           (if hub_distributed h then cx_previousOwner cx else None) deviceId socket (cx_now cx) (cx_uuid cx)
           (cx_published cx) h) w"

definition hub_detach :: "ctx \<Rightarrow> ident \<Rightarrow> sock \<Rightarrow> world \<Rightarrow> bool \<times> world" where
  "hub_detach cx deviceId socket w =
     (case detachAgent_begin deviceId socket (w_hub w) of
        None \<Rightarrow> (False, w)
      | Some existing \<Rightarrow>
          (case detachAgent_finish deviceId (if hub_distributed (w_hub w) then cx_released cx else Some True) (w_hub w) of
             (ok, h) \<Rightarrow> (ok, w\<lparr>w_hub := h\<rparr>)))"

definition hub_heartbeat :: "ctx \<Rightarrow> ident \<Rightarrow> sock \<Rightarrow> world \<Rightarrow> bool \<times> world" where
  "hub_heartbeat cx deviceId socket w =
     (case heartbeat_begin deviceId socket (w_hub w) of
        None \<Rightarrow> (False, w)
      | Some connection \<Rightarrow>
          (case heartbeat_finish deviceId connection (cx_touched cx) (cx_now cx) (w_hub w) of
             (ok, h) \<Rightarrow> (ok, w\<lparr>w_hub := h\<rparr>)))"

definition isAgentOnline :: "ctx \<Rightarrow> ident \<Rightarrow> world \<Rightarrow> bool" where
  "isAgentOnline cx deviceId w =
     (if hub_distributed (w_hub w) then cx_online cx else isLocalAgentOnline deviceId (w_hub w))"

definition broadcast_device :: "ctx \<Rightarrow> ident \<Rightarrow> server_to_client \<Rightarrow> world \<Rightarrow> world" where
  "broadcast_device cx userId message w =
     on_hub (broadcastDevice (cx_published cx) (cx_now cx) (cx_uuid cx) userId message) w"

text \<open>
  Waiting for a forced flush: when it found a buffer, the links of the job's chain up to its own
  have run when it returns.
\<close>

fun run_links :: "int \<Rightarrow> ms \<Rightarrow> ident \<Rightarrow> nat \<Rightarrow> world \<Rightarrow> world" where
  "run_links m now j 0 w = w"
| "run_links m now j (Suc n) w =
     run_links m now j n
       (case buffer_step m (LinkRuns j now) (w_buffers w, w_db w) of (b, d) \<Rightarrow> w\<lparr>w_buffers := b, w_db := d\<rparr>)"

definition flush_and_wait :: "int \<Rightarrow> ctx \<Rightarrow> ident \<Rightarrow> world \<Rightarrow> world" where
  "flush_and_wait m cx j w =
     (case flushOutput j (w_buffers w) of
        (None, b) \<Rightarrow> w\<lparr>w_buffers := b\<rparr>
      | (Some n, b) \<Rightarrow> run_links m (cx_now cx) j n (w\<lparr>w_buffers := b\<rparr>))"

subsection \<open>Helpers of the route\<close>

definition assertJobOwner :: "agent_session \<Rightarrow> ident \<Rightarrow> db \<Rightarrow> js_error option" where
  "assertJobOwner s jobId d =
     (case List.find (\<lambda>r. job_id r = jobId \<and> job_deviceId r = as_deviceId s) (db_jobs d) of
        None \<Rightarrow> Some (AppError 403 ''JOB_FORBIDDEN'' ''Job does not belong to this device.'')
      | Some job \<Rightarrow> None)"

definition ensureJobOwner :: "agent_session \<Rightarrow> ident \<Rightarrow> db \<Rightarrow> js_error + agent_session" where
  "ensureJobOwner s jobId d =
     (if jobId \<in> set (as_ownedJobs s) then Inr s
      else (case assertJobOwner s jobId d of
              Some e \<Rightarrow> Inl e
            | None \<Rightarrow> Inr (s\<lparr>as_ownedJobs := as_ownedJobs s @ [jobId]\<rparr>)))"

definition updateConnectedDevice ::
  "ctx \<Rightarrow> agent_session \<Rightarrow> (device \<Rightarrow> device) \<Rightarrow> world \<Rightarrow> js_error option \<times> world" where
  "updateConnectedDevice cx s data w =
     (let P = (\<lambda>r. dev_id r = as_deviceId s \<and> dev_status r \<noteq> Revoked);
          d = w_db w
      in if countWhere P (db_devices d) = 0
         then (Some (AppError 401 ''AGENT_CREDENTIAL_INVALID'' ''The device credential is invalid.''),
               on_hub (close_socket (as_socket s) 4003 ''device revoked'') w)
         else (None, w\<lparr>w_db := d\<lparr>db_devices :=
                 updateMany P (\<lambda>r. (data r)\<lparr>dev_updatedAt := cx_now cx\<rparr>) (db_devices d)\<rparr>\<rparr>))"

definition close_if_open :: "sock \<Rightarrow> int \<Rightarrow> string \<Rightarrow> world \<Rightarrow> world" where
  "close_if_open s code reason w =
     (if sk_readyState (hub_sockets (w_hub w) s) = OPEN_STATE then on_hub (close_socket s code reason) w else w)"

fun close_reason :: "js_error \<Rightarrow> string" where
  "close_reason (AppError status code message) = message"
| "close_reason e = ''invalid protocol message''"

definition closeForError :: "sock \<Rightarrow> js_error \<Rightarrow> world \<Rightarrow> world" where
  "closeForError s e w = close_if_open s 1008 (take 123 (close_reason e)) w"

subsection \<open>Messages of the agent\<close>

text \<open>The jobs the agent says are running, reconciled one after the other.\<close>

fun reconcile_jobs :: "int \<Rightarrow> ctx \<Rightarrow> agent_session \<Rightarrow> job list \<Rightarrow> world \<Rightarrow> js_error option \<times> world" where
  "reconcile_jobs m cx s [] w = (None, w)"
| "reconcile_jobs m cx s (job # js) w =
     (case (if job_status job = Queued
            then transitionFromAgent cx (as_deviceId s) (job_id job) Dispatched None None w
            else (Inr None, w)) of
        (Inl e, w) \<Rightarrow> (Some e, w)
      | (Inr _, w) \<Rightarrow>
          (case transitionFromAgent cx (as_deviceId s) (job_id job)
                  (if job_status job = WaitingForInput then WaitingForInput else Running) None None w of
             (Inl e, w) \<Rightarrow> (Some e, w)
           | (Inr _, w) \<Rightarrow>
               reconcile_jobs m cx s js
                 (snd (sendToAgent cx (as_deviceId s)
                   (JobBufferRequest (job_id job) (latestSequence (job_id job) (w_db w))) w))))"

definition handle_hello ::
  "int \<Rightarrow> ms \<Rightarrow> ctx \<Rightarrow> agent_hello \<Rightarrow> agent_session \<Rightarrow> world \<Rightarrow> js_error option \<times> agent_session \<times> world" where
  "handle_hello m heartbeatIntervalMs cx hello s w =
     (if as_helloReceived s \<or> ah_deviceId hello \<noteq> as_deviceId s
      then (Some (AppError 403 ''HELLO_INVALID'' ''Agent identity does not match its credential.''), s, w)
      else
        (let w = hub_attach cx (as_deviceId s) (as_userId s) (as_socket s) w;
             s = s\<lparr>as_helloReceived := True\<rparr>
         in case updateConnectedDevice cx s
                (\<lambda>r. r\<lparr>dev_platform := ah_platform hello, dev_architecture := ah_architecture hello,
                       dev_agentVersion := ah_agentVersion hello, dev_status := Online,
                       dev_lastSeenAt := Some (cx_now cx)\<rparr>) w of
              (Some e, w) \<Rightarrow> (Some e, s, w)
            | (None, w) \<Rightarrow>
                (case sendToAgent cx (as_deviceId s) (AgentWelcome (as_deviceId s) heartbeatIntervalMs (cx_now cx)) w of
                   (False, w) \<Rightarrow> (Some (AppError 409 ''DEVICE_DISCONNECTED'' ''The agent connection was lost.''), s, w)
                 | (True, w) \<Rightarrow>
                     (let w = broadcast_device cx (as_userId s)
                                (ClientDeviceStatus (as_deviceId s) Online (cx_now cx)) w;
                          runningJobs = filter (\<lambda>r. job_id r \<in> set (ah_runningJobIds hello) \<and>
                              job_deviceId r = as_deviceId s \<and>
                              job_status r \<in> {Queued, Dispatched, Running, WaitingForInput, Disconnected})
                            (db_jobs (w_db w))
                      in case reconcile_jobs m cx s runningJobs w of (e, w) \<Rightarrow> (e, s, w)))))"

definition handle_finished ::
  "int \<Rightarrow> ctx \<Rightarrow> agent_session \<Rightarrow> ident \<Rightarrow> job_status \<Rightarrow> string option \<Rightarrow> int option \<Rightarrow>
   (job \<Rightarrow> server_to_client) option \<Rightarrow> world \<Rightarrow> js_error option \<times> world" where
  "handle_finished m cx s jobId target detail exitCode announce w =
     (case assertJobOwner s jobId (w_db w) of
        Some e \<Rightarrow> (Some e, w)
      | None \<Rightarrow>
          (case transitionFromAgent cx (as_deviceId s) jobId target detail exitCode (flush_and_wait m cx jobId w) of
             (Inl e, w) \<Rightarrow> (Some e, w)
           | (Inr None, w) \<Rightarrow> (None, w)
           | (Inr (Some job), w) \<Rightarrow>
               (None, case announce of
                        None \<Rightarrow> w
                      | Some msg \<Rightarrow> if job_status job = target
                                   then broadcast cx (job_userId job) (job_id job) (msg job) w else w)))"

definition report_status ::
  "ctx \<Rightarrow> agent_session \<Rightarrow> ident \<Rightarrow> job_status \<Rightarrow> string option \<Rightarrow> world \<Rightarrow> js_error option \<times> world" where
  "report_status cx s jobId target detail w =
     (case assertJobOwner s jobId (w_db w) of
        Some e \<Rightarrow> (Some e, w)
      | None \<Rightarrow>
          (case transitionFromAgent cx (as_deviceId s) jobId target detail None w of
             (Inl e, w) \<Rightarrow> (Some e, w) | (Inr _, w) \<Rightarrow> (None, w)))"

fun handle_agent ::
  "int \<Rightarrow> ms \<Rightarrow> ctx \<Rightarrow> agent_to_server \<Rightarrow> agent_session \<Rightarrow> server \<Rightarrow> js_error option \<times> agent_session \<times> server" where
  "handle_agent m hb cx (AgentHello hello) s sv =
     (case handle_hello m hb cx hello s (sr_world sv) of (e, s, w) \<Rightarrow> (e, s, sv\<lparr>sr_world := w\<rparr>))"
| "handle_agent m hb cx (AgentHeartbeat d) s sv =
     (if d \<noteq> as_deviceId s
      then (Some (AppError 403 ''DEVICE_FORBIDDEN'' ''Heartbeat identity mismatch.''), s, sv)
      else (case hub_heartbeat cx (as_deviceId s) (as_socket s) (sr_world sv) of
              (False, w) \<Rightarrow> (None, s, sv\<lparr>sr_world := w\<rparr>)
            | (True, w) \<Rightarrow>
                (case updateConnectedDevice cx s
                        (\<lambda>r. r\<lparr>dev_status := Online, dev_lastSeenAt := Some (cx_now cx)\<rparr>) w of
                   (e, w) \<Rightarrow> (e, s, sv\<lparr>sr_world := w\<rparr>))))"
| "handle_agent m hb cx (AgentStatus d st detail) s sv =
     (if d \<noteq> as_deviceId s
      then (Some (AppError 403 ''DEVICE_FORBIDDEN'' ''Status identity mismatch.''), s, sv)
      else (case updateConnectedDevice cx s
                   (\<lambda>r. r\<lparr>dev_status := st, dev_lastSeenAt := Some (cx_now cx)\<rparr>) (sr_world sv) of
              (Some e, w) \<Rightarrow> (Some e, s, sv\<lparr>sr_world := w\<rparr>)
            | (None, w) \<Rightarrow>
                (let w = broadcast_device cx (as_userId s) (ClientDeviceStatus (as_deviceId s) st (cx_now cx)) w;
                     w = (if st = Offline then on_hub (close_socket (as_socket s) 1000 ''agent went offline'') w else w)
                 in (None, s, sv\<lparr>sr_world := w\<rparr>))))"
| "handle_agent m hb cx (ValidationResult result) s sv =
     (case settle (cx_published cx) (cx_now cx) (cx_uuid cx) (as_deviceId s) result
             (sr_broker sv, w_hub (sr_world sv)) of
        (handled, b, h) \<Rightarrow> (None, s, sv\<lparr>sr_broker := b, sr_world := (sr_world sv)\<lparr>w_hub := h\<rparr>\<rparr>))"
| "handle_agent m hb cx (JobAccepted j) s sv =
     (case report_status cx s j Dispatched None (sr_world sv) of (e, w) \<Rightarrow> (e, s, sv\<lparr>sr_world := w\<rparr>))"
| "handle_agent m hb cx (JobStarted j pid) s sv =
     (case report_status cx s j Running None (sr_world sv) of (e, w) \<Rightarrow> (e, s, sv\<lparr>sr_world := w\<rparr>))"
| "handle_agent m hb cx (JobOutput j c) s sv =
     (case ensureJobOwner s j (w_db (sr_world sv)) of
        Inl e \<Rightarrow> (Some e, s, sv)
      | Inr s \<Rightarrow> (None, s, sv\<lparr>sr_world := relayOutput cx (as_userId s) (as_deviceId s) j c (sr_world sv)\<rparr>))"
| "handle_agent m hb cx (JobStatusReport j st detail) s sv =
     (case report_status cx s j st detail (sr_world sv) of (e, w) \<Rightarrow> (e, s, sv\<lparr>sr_world := w\<rparr>))"
| "handle_agent m hb cx (JobCompleted j code) s sv =
     (case handle_finished m cx s j Completed None (Some code)
             (Some (\<lambda>job. ClientJobCompleted (job_id job) code)) (sr_world sv) of
        (e, w) \<Rightarrow> (e, s, sv\<lparr>sr_world := w\<rparr>))"
| "handle_agent m hb cx (JobFailed j err code) s sv =
     (case handle_finished m cx s j Failed (Some err) code
             (Some (\<lambda>job. ClientJobFailed (job_id job) err (Some code))) (sr_world sv) of
        (e, w) \<Rightarrow> (e, s, sv\<lparr>sr_world := w\<rparr>))"
| "handle_agent m hb cx (JobCancelled j) s sv =
     (case handle_finished m cx s j Cancelled None None None (sr_world sv) of
        (e, w) \<Rightarrow> (e, s, sv\<lparr>sr_world := w\<rparr>))"
| "handle_agent m hb cx (JobInputAcknowledged j n) s sv =
     (assertJobOwner s j (w_db (sr_world sv)), s, sv)"
| "handle_agent m hb cx (JobBufferSync j chunks) s sv =
     (case assertJobOwner s j (w_db (sr_world sv)) of
        Some e \<Rightarrow> (Some e, s, sv)
      | None \<Rightarrow> (None, s, sv\<lparr>sr_world := snd (persistOutput m cx (as_deviceId s) j chunks (sr_world sv))\<rparr>))"

fun is_hello :: "agent_to_server \<Rightarrow> bool" where
  "is_hello (AgentHello h) = True"
| "is_hello _ = False"

definition processMessage ::
  "int \<Rightarrow> ms \<Rightarrow> ctx \<Rightarrow> agent_to_server \<Rightarrow> agent_session \<Rightarrow> server \<Rightarrow> js_error option \<times> agent_session \<times> server" where
  "processMessage m hb cx message s sv =
     (if \<not> as_helloReceived s \<and> \<not> is_hello message
      then (Some (AppError 400 ''HELLO_REQUIRED'' ''agent.hello must be the first message.''), s, sv)
      else handle_agent m hb cx message s sv)"

text \<open>A frame as it arrives: too large, not JSON, not in the schema, or a message.\<close>

datatype 'm raw = TooLarge | NotJson | NotInSchema | Parsed 'm

definition agent_frame ::
  "int \<Rightarrow> ms \<Rightarrow> ctx \<Rightarrow> agent_to_server raw \<Rightarrow> agent_session \<Rightarrow> server \<Rightarrow> agent_session \<times> server" where
  "agent_frame m hb cx raw s sv =
     (let fail = (\<lambda>e sv. sv\<lparr>sr_world := closeForError (as_socket s) e (sr_world sv)\<rparr>)
      in case raw of
           TooLarge \<Rightarrow> (s, sv\<lparr>sr_world := on_hub (close_socket (as_socket s) 1009 ''message too large'') (sr_world sv)\<rparr>)
         | NotJson \<Rightarrow> (s, fail (AppError 400 ''JSON_INVALID'' ''Message is not valid JSON.'') sv)
         | NotInSchema \<Rightarrow> (s, fail ZodError sv)
         | Parsed message \<Rightarrow>
             (case processMessage m hb cx message s sv of
                (None, s', sv') \<Rightarrow> (s', sv') | (Some e, s', sv') \<Rightarrow> (s', fail e sv')))"

text \<open>The timer that a connection without \<open>agent.hello\<close> runs into after ten seconds.\<close>

definition hello_timeout :: "agent_session \<Rightarrow> world \<Rightarrow> world" where
  "hello_timeout s w =
     (if \<not> as_helloReceived s then on_hub (close_socket (as_socket s) 1008 ''agent.hello required'') w else w)"

subsection \<open>When the socket closes\<close>

definition disconnect_device :: "ctx \<Rightarrow> ms \<Rightarrow> agent_session \<Rightarrow> world \<Rightarrow> world" where
  "disconnect_device cx disconnectedAt s w =
     (case findDevice (as_deviceId s) (w_db w) of
        None \<Rightarrow> w
      | Some dev \<Rightarrow>
          if dev_status dev = Revoked then w
          else
            (let d = w_db w;
                 P = (\<lambda>r. dev_id r = as_deviceId s \<and> dev_updatedAt r \<le> disconnectedAt \<and> dev_status r \<noteq> Revoked);
                 count = countWhere P (db_devices d);
                 w = w\<lparr>w_db := d\<lparr>db_devices := updateMany P
                       (\<lambda>r. r\<lparr>dev_status := Offline, dev_lastSeenAt := Some disconnectedAt, dev_updatedAt := cx_now cx\<rparr>)
                       (db_devices d)\<rparr>\<rparr>
             in if count = 1 \<and> \<not> isAgentOnline cx (as_deviceId s) w
                then broadcast_device cx (as_userId s) (ClientDeviceStatus (as_deviceId s) Offline disconnectedAt) w
                else w))"

fun announce_disconnected :: "ctx \<Rightarrow> job list \<Rightarrow> world \<Rightarrow> world" where
  "announce_disconnected cx [] w = w"
| "announce_disconnected cx (job # js) w =
     announce_disconnected cx js
       (broadcast cx (job_userId job) (job_id job)
         (ClientJobStatus (job_id job) Disconnected (Some (job_exitCode job))) w)"

definition disconnect_jobs :: "ctx \<Rightarrow> ms \<Rightarrow> agent_session \<Rightarrow> world \<Rightarrow> world" where
  "disconnect_jobs cx disconnectedAt s w =
     (let mine = (\<lambda>r. job_deviceId r = as_deviceId s \<and> job_updatedAt r \<le> disconnectedAt);
          affectedJobs = filter (\<lambda>r. mine r \<and> job_status r \<in> {Queued, Dispatched, Running, WaitingForInput})
                           (db_jobs (w_db w));
          rows = updateMany (\<lambda>r. mine r \<and> job_status r = Queued)
                   (\<lambda>r. r\<lparr>job_status := Disconnected, job_updatedAt := cx_now cx,
                         job_statusDetail := Some ''Agent disconnected before acknowledgement; execution is unknown.''\<rparr>)
                   (db_jobs (w_db w));
          rows = updateMany (\<lambda>r. mine r \<and> job_status r \<in> {Dispatched, Running, WaitingForInput})
                   (\<lambda>r. r\<lparr>job_status := Disconnected, job_updatedAt := cx_now cx,
                         job_statusDetail := Some ''Agent connection was lost.''\<rparr>) rows
      in announce_disconnected cx affectedJobs (w\<lparr>w_db := (w_db w)\<lparr>db_jobs := rows\<rparr>\<rparr>))"

definition agent_close :: "ctx \<Rightarrow> ms \<Rightarrow> agent_session \<Rightarrow> server \<Rightarrow> server" where
  "agent_close cx disconnectedAt s sv =
     (if \<not> as_helloReceived s then sv
      else (case hub_detach cx (as_deviceId s) (as_socket s) (sr_world sv) of
        (False, w) \<Rightarrow> sv\<lparr>sr_world := w\<rparr>
      | (True, w) \<Rightarrow>
          (case cancelForDevice (cx_published cx) (cx_now cx) (cx_uuid cx) (as_deviceId s) (sr_broker sv, w_hub w) of
             (b, h) \<Rightarrow>
               sv\<lparr>sr_broker := b,
                  sr_world := disconnect_jobs cx disconnectedAt s
                    (disconnect_device cx disconnectedAt s (w\<lparr>w_hub := h\<rparr>))\<rparr>)))"

subsection \<open>What a device can touch\<close>

text \<open>The job and its stored output are the same, and the tables are still consistent.\<close>

definition spares :: "ident \<Rightarrow> world \<Rightarrow> world \<Rightarrow> bool" where
  "spares k w w' \<longleftrightarrow> w_keyed w' \<and> findJob k (w_db w') = findJob k (w_db w) \<and>
     chunks_of k (db_chunks (w_db w')) = chunks_of k (db_chunks (w_db w))"

lemma spares_refl: "w_keyed w \<Longrightarrow> spares k w w"
  by (simp add: spares_def)

lemma spares_trans: "spares k w w' \<Longrightarrow> spares k w' w'' \<Longrightarrow> spares k w w''"
  by (simp add: spares_def)

lemma spares_tables:
  "w_keyed w \<Longrightarrow> db_jobs (w_db w') = db_jobs (w_db w) \<Longrightarrow> db_chunks (w_db w') = db_chunks (w_db w) \<Longrightarrow>
   db_nextId (w_db w') = db_nextId (w_db w) \<Longrightarrow> spares k w w'"
  by (simp add: spares_def w_keyed_def jobs_keyed_def chunks_keyed_def findJob_def)

definition foreign :: "ident \<Rightarrow> ident \<Rightarrow> world \<Rightarrow> bool" where
  "foreign k dv w \<longleftrightarrow> (\<exists>r. findJob k (w_db w) = Some r \<and> job_deviceId r \<noteq> dv)"

lemma foreign_spares: "foreign k dv w \<Longrightarrow> spares k w w' \<Longrightarrow> foreign k dv w'"
  by (simp add: foreign_def spares_def)

lemma on_hub_db [simp]: "w_db (on_hub f w) = w_db w" "w_buffers (on_hub f w) = w_buffers w"
  by (simp_all add: on_hub_def)

lemma close_if_open_db [simp]: "w_db (close_if_open s code reason w) = w_db w"
  by (simp add: close_if_open_def)

lemma updateJob_other:
  assumes "\<And>r. job_id (f r) = job_id r" and "k \<noteq> j"
  shows "findJob k (snd (updateJob now j f d)) = findJob k d"
  using assms by (cases "findJob k d") (auto simp: findJob_updateJob dest: findJob_SomeD)

lemma transition_spares:
  assumes keyed: "w_keyed w" and f: "foreign k dv w"
  shows "spares k w (snd (transitionFromAgent cx dv j t det code w))"
  using transitionFromAgent_db [of cx dv j t det code w]
proof (elim disjE exE conjE)
  assume "w_db (snd (transitionFromAgent cx dv j t det code w)) = w_db w"
  with keyed show ?thesis by (intro spares_tables) auto
next
  fix cur assume cur: "findJob j (w_db w) = Some cur" "job_deviceId cur = dv"
    and db: "w_db (snd (transitionFromAgent cx dv j t det code w)) =
      snd (updateJob (cx_now cx) j (transition_data (cx_now cx) t det code cur) (w_db w))"
  have "k \<noteq> j" using cur f by (auto simp: foreign_def)
  then show ?thesis
    using keyed by (simp add: spares_def db w_keyed_def updateJob_other frame_simps jobs_keyed_updateJob)
qed

lemma persist_spares:
  assumes keyed: "w_keyed w" and "k \<noteq> j \<or> foreign k dv w"
    and "w_db w' = snd (persistChunks m now dv j cs (w_db w))"
  shows "spares k w w'"
proof (cases "k = j")
  case True
  then have "map_option job_deviceId (findJob j (w_db w)) \<noteq> Some dv"
    using assms(2) by (auto simp: foreign_def)
  then have "w_db w' = w_db w"
    using assms(3) persist_other_device by simp
  with keyed show ?thesis by (intro spares_tables) auto
next
  case False
  then show ?thesis
    using keyed assms(3) persist_keyed [of "w_db w" m now dv j cs]
      persist_other_chunks [of "w_db w" k j] persist_other_job [of "w_db w" k j]
    by (simp add: spares_def w_keyed_def)
qed

lemma link_spares:
  assumes "w_keyed w" and "k \<noteq> j"
  shows "spares k w (case buffer_step m (LinkRuns j now) (w_buffers w, w_db w) of (b, d) \<Rightarrow> w\<lparr>w_buffers := b, w_db := d\<rparr>)"
proof (cases "queue_of j (w_buffers w)")
  case Nil
  with assms(1) show ?thesis by (auto intro: spares_tables)
next
  case (Cons t ts)
  with assms show ?thesis
    by (auto intro!: persist_spares [where dv = "tk_deviceId t" and j = j and cs = "tk_chunks t"])
qed

lemma run_links_spares: "w_keyed w \<Longrightarrow> k \<noteq> j \<Longrightarrow> spares k w (run_links m now j n w)"
proof (induction m now j n w rule: run_links.induct)
  case (1 m now j w)
  then show ?case by (simp add: spares_refl)
next
  case (2 m now j n w)
  let ?w = "case buffer_step m (LinkRuns j now) (w_buffers w, w_db w) of (b, d) \<Rightarrow> w\<lparr>w_buffers := b, w_db := d\<rparr>"
  have step: "spares k w ?w" using 2 by (intro link_spares) auto
  then have "w_keyed ?w" by (simp add: spares_def)
  with 2 step show ?case
    by (auto intro: spares_trans)
qed

lemma flush_spares: "w_keyed w \<Longrightarrow> k \<noteq> j \<Longrightarrow> spares k w (flush_and_wait m cx j w)"
proof -
  assume a: "w_keyed w" "k \<noteq> j"
  then have "w_keyed (w\<lparr>w_buffers := b\<rparr>)" for b by (simp add: w_keyed_def)
  with a run_links_spares [of "w\<lparr>w_buffers := _\<rparr>" k j m "cx_now cx"] show ?thesis
    by (auto simp: flush_and_wait_def spares_def split: prod.split option.split)
qed

lemma owner_not_foreign:
  assumes "assertJobOwner s j (w_db w) = None" and "foreign k (as_deviceId s) w" and "w_keyed w"
  shows "k \<noteq> j"
proof
  assume "k = j"
  obtain r where "r \<in> set (db_jobs (w_db w))" "job_id r = j" "job_deviceId r = as_deviceId s"
    using assms(1) by (auto simp: assertJobOwner_def split: option.splits dest: find_SomeD)
  with \<open>k = j\<close> assms(2,3) findJob_unique [of "w_db w" r] show False
    by (auto simp: foreign_def w_keyed_def)
qed

lemma reconcile_spares:
  assumes "w_keyed w" and "foreign k (as_deviceId s) w"
  shows "spares k w (snd (reconcile_jobs m cx s js w))"
  using assms
proof (induction js arbitrary: w)
  case Nil
  then show ?case by (simp add: spares_refl)
next
  case (Cons job js)
  obtain r1 w1 where t1: "(if job_status job = Queued
      then transitionFromAgent cx (as_deviceId s) (job_id job) Dispatched None None w else (Inr None, w)) = (r1, w1)"
    by force
  have s1: "spares k w w1"
    using t1 transition_spares [OF Cons.prems, of cx "job_id job" Dispatched None None] spares_refl [OF Cons.prems(1)]
    by (auto split: if_splits)
  then have k1: "w_keyed w1" and f1: "foreign k (as_deviceId s) w1"
    using Cons.prems(2) foreign_spares by (auto simp: spares_def)
  let ?t = "if job_status job = WaitingForInput then WaitingForInput else Running"
  obtain r2 w2 where t2: "transitionFromAgent cx (as_deviceId s) (job_id job) ?t None None w1 = (r2, w2)" by force
  have s2: "spares k w w2"
    using transition_spares [OF k1 f1, of cx "job_id job" ?t None None] t2 s1 by (auto intro: spares_trans)
  let ?w3 = "snd (sendToAgent cx (as_deviceId s)
      (JobBufferRequest (job_id job) (latestSequence (job_id job) (w_db w2))) w2)"
  have s3: "spares k w ?w3"
    using s2 by (simp add: spares_def w_keyed_def)
  then have "spares k ?w3 (snd (reconcile_jobs m cx s js ?w3))"
    using Cons.IH Cons.prems(2) foreign_spares by (auto simp: spares_def)
  with s3 s1 s2 show ?case
    by (cases r1; cases r2) (auto simp: t1 t2 intro: spares_trans)
qed

lemma updateConnectedDevice_tables:
  assumes "updateConnectedDevice cx s f w = (e, w')"
  shows "db_jobs (w_db w') = db_jobs (w_db w) \<and> db_chunks (w_db w') = db_chunks (w_db w) \<and>
    db_nextId (w_db w') = db_nextId (w_db w)"
  using assms by (auto simp: updateConnectedDevice_def Let_def split: if_splits)

lemma hub_attach_db [simp]: "w_db (hub_attach cx d u s w) = w_db w"
  by (simp add: hub_attach_def)

lemma broadcast_device_db [simp]: "w_db (broadcast_device cx u m w) = w_db w"
  by (simp add: broadcast_device_def)

lemma hello_spares:
  assumes keyed: "w_keyed w" and f: "foreign k (as_deviceId s) w"
    and h: "handle_hello m hb cx hello s w = (e, s', w')"
  shows "spares k w w'"
proof (cases "as_helloReceived s \<or> ah_deviceId hello \<noteq> as_deviceId s")
  case True
  with h keyed show ?thesis by (auto simp: handle_hello_def spares_refl)
next
  case False
  let ?s = "s\<lparr>as_helloReceived := True\<rparr>"
  let ?upd = "\<lambda>r. r\<lparr>dev_platform := ah_platform hello, dev_architecture := ah_architecture hello,
      dev_agentVersion := ah_agentVersion hello, dev_status := Online, dev_lastSeenAt := Some (cx_now cx)\<rparr>"
  obtain e1 w1 where u: "updateConnectedDevice cx ?s ?upd (hub_attach cx (as_deviceId s) (as_userId s) (as_socket s) w) = (e1, w1)"
    by force
  have s1: "spares k w w1"
    using updateConnectedDevice_tables [OF u] keyed by (intro spares_tables) auto
  obtain ok w2 where w2: "sendToAgent cx (as_deviceId s) (AgentWelcome (as_deviceId s) hb (cx_now cx)) w1 = (ok, w2)"
    by force
  let ?w3 = "broadcast_device cx (as_userId s) (ClientDeviceStatus (as_deviceId s) Online (cx_now cx)) w2"
  have db: "w_db w2 = w_db w1" using sendToAgent_D [OF w2] by simp
  have s2: "spares k w w2" and s3: "spares k w ?w3"
    using s1 by (simp_all add: spares_def w_keyed_def db)
  let ?js = "filter (\<lambda>r. job_id r \<in> set (ah_runningJobIds hello) \<and> job_deviceId r = as_deviceId s \<and>
      job_status r \<in> {Queued, Dispatched, Running, WaitingForInput, Disconnected}) (db_jobs (w_db ?w3))"
  have "spares k ?w3 (snd (reconcile_jobs m cx ?s ?js ?w3))"
    using s3 foreign_spares [OF f s3] by (intro reconcile_spares) (auto simp: spares_def)
  then have "spares k w (snd (reconcile_jobs m cx ?s ?js ?w3))"
    using s3 by (rule spares_trans [rotated])
  then show ?thesis
    using h False u w2 s1 s2 by (auto simp: handle_hello_def Let_def split: option.splits bool.splits prod.splits)
qed

lemma report_spares:
  assumes "w_keyed w" and "foreign k (as_deviceId s) w"
  shows "spares k w (snd (report_status cx s j t det w))"
  using assms spares_refl [OF assms(1), of k] transition_spares [OF assms, of cx j t det None]
  by (cases "transitionFromAgent cx (as_deviceId s) j t det None w")
    (auto simp: report_status_def split: option.split sum.split)

lemma finished_spares:
  assumes "w_keyed w" and "foreign k (as_deviceId s) w"
  shows "spares k w (snd (handle_finished m cx s j t det code ann w))"
proof (cases "assertJobOwner s j (w_db w)")
  case (Some e)
  with assms show ?thesis by (simp add: handle_finished_def spares_refl)
next
  case None
  have f: "spares k w (flush_and_wait m cx j w)"
    using owner_not_foreign [OF None assms(2,1)] assms(1) by (intro flush_spares) auto
  obtain r w1 where t: "transitionFromAgent cx (as_deviceId s) j t det code (flush_and_wait m cx j w) = (r, w1)"
    by force
  have "spares k (flush_and_wait m cx j w) w1"
    using transition_spares [of "flush_and_wait m cx j w" k "as_deviceId s" cx j t det code] f
      foreign_spares [OF assms(2) f] t by (auto simp: spares_def)
  with f have w1: "spares k w w1" by (rule spares_trans)
  then have "spares k w (broadcast cx u i msg w1)" for u i msg
    by (simp add: spares_def w_keyed_def)
  with w1 None t show ?thesis
    by (auto simp: handle_finished_def split: sum.split option.split)
qed



subsection \<open>Reconnecting\<close>

lemma transition_effect:
  assumes "findJob j (w_db w) = Some cur" and "job_deviceId cur = dv"
    and "\<not> isTerminalJobStatus (job_status cur)" and "canTransitionJob (job_status cur) t"
    and r: "transitionFromAgent cx dv j t det code w = (res, w')"
  shows "\<not> isl res" and "w_status i w' = (if i = j then Some t else w_status i w)"
    and "map_option job_deviceId (findJob i (w_db w')) = map_option job_deviceId (findJob i (w_db w))"
proof -
  have id: "job_id cur = j" using assms(1) by (auto dest: findJob_SomeD)
  have read: "transition_read dv j t (w_db w) = Inr (WriteOver cur)"
    using assms by (simp add: transition_read_def)
  then have w: "(res, w') = transition_write cx t det code cur w"
    using r by (simp add: transitionFromAgent_def)
  then show "\<not> isl res"
    using assms(1) id by (simp add: transition_write_def updateJob_snd Let_def)
  have db: "w_db w' = snd (updateJob (cx_now cx) j (transition_data (cx_now cx) t det code cur) (w_db w))"
    using w transition_write_db [of cx t det code cur w] id by (metis snd_conv)
  show "w_status i w' = (if i = j then Some t else w_status i w)"
    using assms(1) by (simp add: w_status_def db status_updateJob) (simp add: transition_data_def)
  show "map_option job_deviceId (findJob i (w_db w')) = map_option job_deviceId (findJob i (w_db w))"
    by (cases "findJob i (w_db w)") (auto simp: db findJob_updateJob transition_data_def)
qed

definition reconciled :: "job \<Rightarrow> job_status" where
  "reconciled job = (if job_status job = WaitingForInput then WaitingForInput else Running)"

definition owned_job :: "ident \<Rightarrow> job \<Rightarrow> world \<Rightarrow> bool" where
  "owned_job dv job w \<longleftrightarrow> w_status (job_id job) w = Some (job_status job) \<and>
     map_option job_deviceId (findJob (job_id job) (w_db w)) = Some dv"

lemma owned_jobD:
  assumes "owned_job dv job w"
  obtains cur where "findJob (job_id job) (w_db w) = Some cur" "job_deviceId cur = dv" "job_status cur = job_status job"
  using assms by (auto simp: owned_job_def w_status_def job_status_of_def)

text \<open>One job: its status ends up reconciled and no other job's changes.\<close>

lemma reconcile_one:
  assumes own: "owned_job dv job w" and live: "\<not> isTerminalJobStatus (job_status job)"
    and t1: "(if job_status job = Queued then transitionFromAgent cx dv (job_id job) Dispatched None None w
              else (Inr None, w)) = (r1, w1)"
    and t2: "transitionFromAgent cx dv (job_id job) (reconciled job) None None w1 = (r2, w2)"
  shows "\<not> isl r1 \<and> \<not> isl r2 \<and> (\<forall>i. w_status i w2 = (if i = job_id job then Some (reconciled job) else w_status i w) \<and>
    map_option job_deviceId (findJob i (w_db w2)) = map_option job_deviceId (findJob i (w_db w)))"
proof (cases "job_status job = Queued")
  case True
  obtain cur where cur: "findJob (job_id job) (w_db w) = Some cur" "job_deviceId cur = dv" "job_status cur = job_status job"
    using own by (rule owned_jobD)
  have c1: "canTransitionJob (job_status cur) Dispatched" "\<not> isTerminalJobStatus (job_status cur)"
    using True cur by (simp_all add: canTransitionJob_def isTerminal_simps)
  note e1 = transition_effect [OF cur(1,2) c1(2,1), of cx None None r1 w1]
  have t1': "transitionFromAgent cx dv (job_id job) Dispatched None None w = (r1, w1)"
    using t1 True by simp
  obtain cur1 where cur1: "findJob (job_id job) (w_db w1) = Some cur1" "job_deviceId cur1 = dv" "job_status cur1 = Dispatched"
    using e1(2,3) [OF t1', of "job_id job"] cur by (auto simp: w_status_def job_status_of_def)
  have c2: "canTransitionJob (job_status cur1) (reconciled job)" "\<not> isTerminalJobStatus (job_status cur1)"
    using True cur1 by (simp_all add: reconciled_def canTransitionJob_def isTerminal_simps)
  note e2 = transition_effect [OF cur1(1,2) c2(2,1) t2]
  show ?thesis
    using e1 [OF t1'] e2 by auto
next
  case False
  then have w1: "r1 = Inr None" "w1 = w" using t1 by auto
  obtain cur where cur: "findJob (job_id job) (w_db w) = Some cur" "job_deviceId cur = dv" "job_status cur = job_status job"
    using own by (rule owned_jobD)
  have c: "canTransitionJob (job_status cur) (reconciled job)"
    using False live cur by (cases "job_status job") (auto simp: reconciled_def canTransitionJob_def isTerminal_simps)
  show ?thesis
    using transition_effect [OF cur(1,2) _ c t2 [unfolded w1]] live cur w1 by auto
qed

lemma reconcile_all:
  assumes "distinct (map job_id js)" and "\<forall>job \<in> set js. owned_job (as_deviceId s) job w \<and> \<not> isTerminalJobStatus (job_status job)"
  shows "fst (reconcile_jobs m cx s js w) = None \<and>
    (\<forall>job \<in> set js. w_status (job_id job) (snd (reconcile_jobs m cx s js w)) = Some (reconciled job)) \<and>
    (\<forall>i. i \<in> job_id ` set js \<or> w_status i (snd (reconcile_jobs m cx s js w)) = w_status i w)"
  using assms
proof (induction js arbitrary: w)
  case (Cons job js)
  obtain r1 w1 where t1: "(if job_status job = Queued
      then transitionFromAgent cx (as_deviceId s) (job_id job) Dispatched None None w else (Inr None, w)) = (r1, w1)"
    by force
  obtain r2 w2 where t2: "transitionFromAgent cx (as_deviceId s) (job_id job) (reconciled job) None None w1 = (r2, w2)"
    by force
  define w3 where "w3 = snd (sendToAgent cx (as_deviceId s)
      (JobBufferRequest (job_id job) (latestSequence (job_id job) (w_db w2))) w2)"
  have one: "\<not> isl r1 \<and> \<not> isl r2 \<and> (\<forall>i. w_status i w2 = (if i = job_id job then Some (reconciled job) else w_status i w) \<and>
    map_option job_deviceId (findJob i (w_db w2)) = map_option job_deviceId (findJob i (w_db w)))"
    using Cons.prems(2) by (intro reconcile_one [OF _ _ t1 t2]) auto
  have db: "w_db w3 = w_db w2" by (simp add: w3_def)
  have eq: "reconcile_jobs m cx s (job # js) w = reconcile_jobs m cx s js w3"
    using one t1 t2 by (cases r1; cases r2) (simp_all add: w3_def reconciled_def)
  have st: "w_status i w3 = w_status i w2" for i
    by (simp add: w_status_def db)
  have rest: "\<forall>job' \<in> set js. owned_job (as_deviceId s) job' w3 \<and> \<not> isTerminalJobStatus (job_status job')"
  proof
    fix job' assume "job' \<in> set js"
    moreover from this have "job_id job' \<noteq> job_id job" using Cons.prems(1) by (auto, metis imageI)
    ultimately show "owned_job (as_deviceId s) job' w3 \<and> \<not> isTerminalJobStatus (job_status job')"
      using Cons.prems(2) one by (simp add: owned_job_def st db)
  qed
  have "w_status (job_id job) (snd (reconcile_jobs m cx s js w3)) = w_status (job_id job) w3"
    using Cons.IH [OF _ rest] Cons.prems(1) by auto
  with Cons.IH [OF _ rest] Cons.prems(1) one show ?case
    unfolding eq by (auto simp: st)
qed simp

text \<open>
  C16. A reconnecting agent's jobs are picked up. On a first \<open>agent.hello\<close> with the right identity, from a
  device that is not revoked and whose socket is open (on an instance without Redis), the handler
  never fails, and every unfinished job of the device that the agent lists as running ends up
  \<open>running\<close>, or \<open>waiting_for_input\<close> if it was waiting; every other job keeps its status.
\<close>

theorem hello_reconciles_running_jobs:
  assumes keyed: "w_keyed w" and first: "\<not> as_helloReceived s" and same: "ah_deviceId hello = as_deviceId s"
    and dev: "\<exists>r \<in> set (db_devices (w_db w)). dev_id r = as_deviceId s \<and> dev_status r \<noteq> Revoked"
    and hub: "\<not> hub_distributed (w_hub w)" "sk_readyState (hub_sockets (w_hub w) (as_socket s)) = OPEN_STATE"
    and run: "handle_hello m hb cx hello s w = (e, s', w')"
  shows "e = None \<and> as_helloReceived s' \<and>
    (\<forall>j. w_status j w' =
      (case findJob j (w_db w) of
         None \<Rightarrow> None
       | Some r \<Rightarrow> Some (if j \<in> set (ah_runningJobIds hello) \<and> job_deviceId r = as_deviceId s \<and>
                          \<not> isTerminalJobStatus (job_status r) then reconciled r else job_status r)))"
proof -
  let ?s = "s\<lparr>as_helloReceived := True\<rparr>"
  let ?upd = "\<lambda>r. r\<lparr>dev_platform := ah_platform hello, dev_architecture := ah_architecture hello,
      dev_agentVersion := ah_agentVersion hello, dev_status := Online, dev_lastSeenAt := Some (cx_now cx)\<rparr>"
  define w0 where "w0 = hub_attach cx (as_deviceId s) (as_userId s) (as_socket s) w"
  obtain e1 w1 where u: "updateConnectedDevice cx ?s ?upd w0 = (e1, w1)" by force
  have "countWhere (\<lambda>r. dev_id r = as_deviceId s \<and> dev_status r \<noteq> Revoked) (db_devices (w_db w0)) \<noteq> 0"
    using dev by (auto simp: w0_def countWhere_def filter_empty_conv)
  then have e1: "e1 = None" and hub1: "w_hub w1 = w_hub w0"
    using u by (auto simp: updateConnectedDevice_def Let_def split: if_splits)
  have jobs1: "db_jobs (w_db w1) = db_jobs (w_db w)"
    using updateConnectedDevice_tables [OF u] by (simp add: w0_def)
  obtain ok w2 where w2: "sendToAgent cx (as_deviceId s) (AgentWelcome (as_deviceId s) hb (cx_now cx)) w1 = (ok, w2)"
    by force
  have ok: "ok"
  proof -
    have "hub_distributed (w_hub w0) = hub_distributed (w_hub w)"
      "agent_of (as_deviceId s) (w_hub w0) \<noteq> None \<and>
       ac_socket (the (agent_of (as_deviceId s) (w_hub w0))) = as_socket s"
      "sk_readyState (hub_sockets (w_hub w0) (as_socket s)) = sk_readyState (hub_sockets (w_hub w) (as_socket s))"
      using hub(1) by (auto simp: w0_def hub_attach_def on_hub_def attachAgent_begin_def attachAgent_finish_def
          agent_of_def close_on_def Let_def split: option.split)
    with hub w2 show ?thesis
      by (auto simp: sendToAgent_def hub1 sendToLocalAgent_def send_def send_on_def split: option.splits)
  qed
  define w3 where "w3 = broadcast_device cx (as_userId s) (ClientDeviceStatus (as_deviceId s) Online (cx_now cx)) w2"
  have jobs3: "db_jobs (w_db w3) = db_jobs (w_db w)"
    using sendToAgent_D [OF w2] jobs1 by (simp add: w3_def)
  have find3: "findJob j (w_db w3) = findJob j (w_db w)" for j
    by (simp add: findJob_def jobs3)
  define js where "js = filter (\<lambda>r. job_id r \<in> set (ah_runningJobIds hello) \<and> job_deviceId r = as_deviceId s \<and>
      job_status r \<in> {Queued, Dispatched, Running, WaitingForInput, Disconnected}) (db_jobs (w_db w3))"
  have live: "st \<in> {Queued, Dispatched, Running, WaitingForInput, Disconnected} \<longleftrightarrow> \<not> isTerminalJobStatus st" for st
    by (cases st) (auto simp: isTerminal_simps)
  have res: "(e, s', w') = (case reconcile_jobs m cx ?s js w3 of (e, w) \<Rightarrow> (e, ?s, w))"
    using run first same u e1 w2 ok by (simp add: handle_hello_def w0_def w3_def js_def Let_def)
  have keys: "distinct (map job_id js)"
    using keyed by (auto simp: js_def jobs3 w_keyed_def jobs_keyed_def distinct_map_filter)
  have find: "findJob (job_id r) (w_db w) = Some r" if "r \<in> set (db_jobs (w_db w))" for r
    using keyed that findJob_unique by (auto simp: w_keyed_def)
  have own: "\<forall>job \<in> set js. owned_job (as_deviceId ?s) job w3 \<and> \<not> isTerminalJobStatus (job_status job)"
    using find by (auto simp: js_def jobs3 owned_job_def w_status_def job_status_of_def find3 live [symmetric])
  note all = reconcile_all [OF keys own, of m cx]
  have st: "w_status j w' = (case findJob j (w_db w) of
         None \<Rightarrow> None
       | Some r \<Rightarrow> Some (if j \<in> set (ah_runningJobIds hello) \<and> job_deviceId r = as_deviceId s \<and>
                          \<not> isTerminalJobStatus (job_status r) then reconciled r else job_status r))" for j
  proof (cases "j \<in> job_id ` set js")
    case True
    then obtain r where r: "r \<in> set js" "job_id r = j" by auto
    then have "findJob j (w_db w) = Some r" using find by (auto simp: js_def jobs3)
    with r all res show ?thesis
      by (auto simp: js_def live [symmetric] split: prod.splits)
  next
    case False
    then have "w_status j w' = w_status j w3"
      using all res by (auto split: prod.splits)
    moreover have "\<not> (j \<in> set (ah_runningJobIds hello) \<and> job_deviceId r = as_deviceId s \<and> \<not> isTerminalJobStatus (job_status r))"
      if "findJob j (w_db w) = Some r" for r
    proof
      assume "j \<in> set (ah_runningJobIds hello) \<and> job_deviceId r = as_deviceId s \<and> \<not> isTerminalJobStatus (job_status r)"
      with findJob_SomeD [OF that] have "r \<in> set js"
        unfolding js_def set_filter mem_Collect_eq live jobs3 by blast
      with False findJob_SomeD [OF that] show False by blast
    qed
    ultimately show ?thesis
      by (auto simp: w_status_def job_status_of_def find3 split: option.split)
  qed
  with all res show ?thesis
    by (auto split: prod.splits)
qed

definition example_session :: agent_session where
  "example_session = \<lparr>as_credentialId = ''c'', as_deviceId = ''d'', as_userId = ''u'', as_socket = 1,
     as_helloReceived = False, as_ownedJobs = []\<rparr>"

definition with_device :: "device \<Rightarrow> world \<Rightarrow> world" where
  "with_device dev w = w\<lparr>w_db := (w_db w)\<lparr>db_devices := dev # db_devices (w_db w)\<rparr>\<rparr>"

theorem hello_reconciles_running_jobs_witness:
  "w_status ''j'' (snd (snd (handle_hello 100 1000 example_ctx
      \<lparr>ah_deviceId = ''d'', ah_name = ''n'', ah_platform = ''linux'', ah_architecture = ''x64'', ah_agentVersion = ''1'',
       ah_protocolVersions = [1], ah_runningJobIds = [''j'']\<rparr> example_session
      (with_device (example_device ''d'' ''u'') (example_world [example_job ''j'' ''u'' ''d'' Disconnected]))))) =
   Some Running"
proof -
  let ?hello = "\<lparr>ah_deviceId = ''d'', ah_name = ''n'', ah_platform = ''linux'', ah_architecture = ''x64'',
     ah_agentVersion = ''1'', ah_protocolVersions = [1], ah_runningJobIds = [''j'']\<rparr>"
  let ?w = "with_device (example_device ''d'' ''u'') (example_world [example_job ''j'' ''u'' ''d'' Disconnected])"
  obtain e s' w' where r: "handle_hello 100 1000 example_ctx ?hello example_session ?w = (e, s', w')"
    by (metis prod_cases3)
  have "w_keyed ?w" "\<exists>r \<in> set (db_devices (w_db ?w)). dev_id r = as_deviceId example_session \<and> dev_status r \<noteq> Revoked"
    "\<not> hub_distributed (w_hub ?w)" "sk_readyState (hub_sockets (w_hub ?w) (as_socket example_session)) = OPEN_STATE"
    "findJob ''j'' (w_db ?w) = Some (example_job ''j'' ''u'' ''d'' Disconnected)"
    by (simp_all add: w_keyed_def with_device_def example_world_def example_defs jobs_keyed_def chunks_keyed_def
        example_device_def example_session_def fresh_hub_def open_socket_def OPEN_STATE_def findJob_def)
  then show ?thesis
    using hello_reconciles_running_jobs [OF _ _ _ _ _ _ r] r
    by (simp add: example_session_def example_job_def reconciled_def isTerminal_simps)
qed

subsection \<open>Disconnecting\<close>

lemma announce_disconnected_db [simp]: "w_db (announce_disconnected cx js w) = w_db w"
  by (induction cx js w rule: announce_disconnected.induct) simp_all

lemma disconnect_device_jobs [simp]: "db_jobs (w_db (disconnect_device cx at s w)) = db_jobs (w_db w)"
  by (simp add: disconnect_device_def Let_def split: option.split)

text \<open>The status of a job after the clean-up, as a function of its row.\<close>

definition disconnected_status :: "ms \<Rightarrow> ident \<Rightarrow> job \<Rightarrow> job_status" where
  "disconnected_status at dv r =
     (if job_deviceId r = dv \<and> job_updatedAt r \<le> at \<and> job_status r \<in> {Queued, Dispatched, Running, WaitingForInput}
      then Disconnected else job_status r)"

lemma disconnect_jobs_status:
  "w_status j (disconnect_jobs cx at s w) =
     map_option (disconnected_status at (as_deviceId s)) (findJob j (w_db w))"
proof -
  have "findJob j (d\<lparr>db_jobs := updateMany P f (updateMany Q g (db_jobs d))\<rparr>) =
      map_option (\<lambda>r. if P r then f r else r) (map_option (\<lambda>r. if Q r then g r else r) (findJob j d))"
    if "\<And>r. job_id (f r) = job_id r" "\<And>r. job_id (g r) = job_id r" for P Q f g d
    using that by (simp add: findJob_def find_updateMany)
  then show ?thesis
    by (cases "findJob j (w_db w)")
      (auto simp: disconnect_jobs_def Let_def w_status_def job_status_of_def disconnected_status_def)
qed

lemma agent_close_status:
  assumes "as_helloReceived s" and "hub_detach cx (as_deviceId s) (as_socket s) (sr_world sv) = (True, w1)"
  shows "w_status j (sr_world (agent_close cx at s sv)) =
    map_option (disconnected_status at (as_deviceId s)) (findJob j (w_db (sr_world sv)))"
proof -
  have "w_db w1 = w_db (sr_world sv)"
    using assms(2) by (auto simp: hub_detach_def split: option.splits prod.splits)
  then show ?thesis
    using assms by (simp add: agent_close_def disconnect_jobs_status cancelForDevice_def publishValidationCancel_def)
      (simp add: findJob_def)
qed

text \<open>
  What losing the agent does to its jobs, and where it goes wrong. The clean-up marks exactly the
  unfinished jobs of the device as disconnected whose row was last written before the socket
  closed. But the background write of output updates the row of its job: a running job whose
  buffered output is written between the close and the clean-up is passed over and stays
  \<open>running\<close> with no agent behind it.
\<close>

theorem late_output_write_keeps_job_running:
  assumes hello: "as_helloReceived s" and job: "findJob j (w_db w) = Some r" "job_deviceId r = as_deviceId s" "job_status r = Running"
    and inv: "output_inv m j (w_db w)" and queue: "queue_of j (w_buffers w) = t # ts" "tk_deviceId t = as_deviceId s"
    and new: "batch_ok (tk_chunks t)" "unseen j (tk_chunks t) (w_db w) \<noteq> []"
    and late: "at < now" and seen: "job_updatedAt r \<le> at"
    and conn: "\<not> hub_distributed (w_hub w)" "agent_of (as_deviceId s) (w_hub w) = Some c" "ac_socket c = as_socket s"
    and w1: "w1 = job_step m (cx0, BuffersMove (LinkRuns j now)) w"
  shows "w_status j (sr_world (agent_close cx at s \<lparr>sr_world = w, sr_broker = b\<rparr>)) = Some Disconnected \<and>
    w_status j (sr_world (agent_close cx at s \<lparr>sr_world = w1, sr_broker = b\<rparr>)) = Some Running"
proof -
  let ?d1 = "snd (persistChunks m now (as_deviceId s) j (tk_chunks t) (w_db w))"
  have w1: "w1 = w\<lparr>w_buffers := finish_link j (w_buffers w), w_db := ?d1\<rparr>"
    using queue unfolding w1 by simp
  have r1: "\<exists>r1. findJob j ?d1 = Some r1 \<and> job_updatedAt r1 = now \<and> job_status r1 = Running"
    using persisted_state(2) [OF inv job(1,2) new, of now] job(3) by auto
  have d0: "\<exists>w'. hub_detach cx (as_deviceId s) (as_socket s) w = (True, w')"
    and d1: "\<exists>w'. hub_detach cx (as_deviceId s) (as_socket s) w1 = (True, w')"
    using conn by (auto simp: hub_detach_def detachAgent_begin_def detachAgent_finish_def w1)
  from d0 d1 obtain w' w1' where det: "hub_detach cx (as_deviceId s) (as_socket s) w = (True, w')"
    "hub_detach cx (as_deviceId s) (as_socket s) w1 = (True, w1')" by auto
  from r1 obtain r1 where "findJob j (w_db w1) = Some r1" "job_updatedAt r1 = now" "job_status r1 = Running"
    by (auto simp: w1)
  then have "w_status j (sr_world (agent_close cx at s \<lparr>sr_world = w1, sr_broker = b\<rparr>)) = Some Running"
    using agent_close_status [OF hello, of cx "\<lparr>sr_world = w1, sr_broker = b\<rparr>" w1' j at] det(2) late
    by (simp add: disconnected_status_def)
  moreover have "w_status j (sr_world (agent_close cx at s \<lparr>sr_world = w, sr_broker = b\<rparr>)) = Some Disconnected"
    using agent_close_status [OF hello, of cx "\<lparr>sr_world = w, sr_broker = b\<rparr>" w' j at] det(1) job seen
    by (simp add: disconnected_status_def)
  ultimately show ?thesis by simp
qed

definition late_agent :: agent_connection where
  "late_agent = \<lparr>ac_owner = \<lparr>ow_instanceId = ''i'', ow_connectionId = ''c1'', ow_userId = ''u''\<rparr>, ac_socket = 1,
     ac_deviceId = ''d'', ac_lastHeartbeatAt = 0\<rparr>"

definition late_world :: world where
  "late_world = (let w = example_world [example_job ''j'' ''u'' ''d'' Running] in
     w\<lparr>w_hub := (w_hub w)\<lparr>hub_agents := [(''d'', late_agent)]\<rparr>,
       w_buffers := no_buffers\<lparr>bf_outputQueues := [(''j'', [\<lparr>tk_deviceId = ''d'',
         tk_chunks = [\<lparr>oc_sequence = 0, oc_stream = Stdout, oc_data = ''a''\<rparr>]\<rparr>])]\<rparr>\<rparr>)"

theorem late_output_write_keeps_job_running_witness:
  "w_status ''j'' (sr_world (agent_close example_ctx 6 (example_session\<lparr>as_helloReceived := True\<rparr>)
     \<lparr>sr_world = job_step 100 (example_ctx, BuffersMove (LinkRuns ''j'' 7)) late_world, sr_broker = fresh_broker\<rparr>)) =
   Some Running"
proof -
  have f: "findJob ''j'' (w_db late_world) = Some (example_job ''j'' ''u'' ''d'' Running)" "output_inv 100 ''j'' (w_db late_world)"
    "queue_of ''j'' (w_buffers late_world) =
       [\<lparr>tk_deviceId = ''d'', tk_chunks = [\<lparr>oc_sequence = 0, oc_stream = Stdout, oc_data = ''a''\<rparr>]\<rparr>]"
    "\<not> hub_distributed (w_hub late_world)"
    "agent_of (as_deviceId (example_session\<lparr>as_helloReceived := True\<rparr>)) (w_hub late_world) = Some late_agent"
    "unseen ''j'' [\<lparr>oc_sequence = 0, oc_stream = Stdout, oc_data = ''a''\<rparr>] (w_db late_world) \<noteq> []"
    by (simp_all add: late_world_def example_world_def example_defs findJob_def output_inv_def jobs_keyed_def
        chunks_keyed_def chunks_of_def sized_by_data_def queue_of_def fresh_hub_def agent_of_def unseen_def
        example_session_def)
  show ?thesis
    by (rule conjunct2 [OF late_output_write_keeps_job_running [OF _ f(1) _ _ f(2,3) _ _ _ _ _ f(4,5) _ refl]])
      (use f(6) in \<open>simp_all add: example_session_def example_job_def batch_ok_def late_agent_def\<close>)
qed

end
