(* ===== verification/Env.thy ===== *)
theory Env
  imports Schema
begin

section \<open>The server's configuration\<close>

text \<open>
  \<open>apps/server/src/env.ts\<close>: \<open>parseServerEnvironment\<close> reads the process environment, with the
  deployment's aliases, through a schema. Parameters: \<open>parse_url\<close> is \<open>new URL\<close> (\<open>None\<close> when it
  throws) and \<open>num\<close> is \<open>Number\<close> on strings followed by the integrality check.
\<close>

record url =
  url_protocol :: string
  url_hostname :: string
  url_origin :: string

record environment =
  env_NODE_ENV :: string
  env_HOST :: string
  env_PORT :: int
  env_DATABASE_URL :: string
  env_REDIS_URL :: "string option"
  env_REDIS_NAMESPACE :: string
  env_RELAY_ACK_TIMEOUT_MS :: int
  env_CRON_SECRET :: "string option"
  env_SESSION_SECRET :: string
  env_CREDENTIAL_SECRET :: string
  env_ALLOWED_ORIGINS :: "string list"
  env_ALLOW_REGISTRATION :: bool
  env_TRUST_PROXY :: bool
  env_SESSION_TTL_HOURS :: int
  env_PAIRING_CODE_TTL_MINUTES :: int
  env_JOB_RETENTION_DAYS :: int
  env_MAX_RETAINED_OUTPUT_BYTES :: int
  env_HEARTBEAT_INTERVAL_MS :: int
  env_OFFLINE_AFTER_MS :: int
  env_REPOSITORY_VALIDATION_TIMEOUT_MS :: int
  env_LOG_LEVEL :: string
  env_PUBLIC_URL :: "string option"
  env_GOOGLE_CLIENT_ID :: "string option"
  env_GOOGLE_CLIENT_SECRET :: "string option"
  env_GOOGLE_ALLOWED_EMAIL_DOMAINS :: "string list option"
  env_VAPID_PUBLIC_KEY :: "string option"
  env_VAPID_PRIVATE_KEY :: "string option"
  env_VAPID_SUBJECT :: "string option"

record server_environment = environment +
  env_cookieSecure :: bool
  env_googleEnabled :: bool
  env_pushEnabled :: bool

record defaults =
  serverPort :: int
  heartbeatIntervalMs :: int
  offlineAfterMs :: int
  pairingCodeTtlMinutes :: int
  sessionTtlHours :: int
  jobRetentionDays :: int
  maxRetainedOutputBytes :: int
  agentBufferBytes :: int
  commandTimeoutMs :: int

definition relayDockDefaults :: defaults where
  "relayDockDefaults = \<lparr>serverPort = 3000, heartbeatIntervalMs = 15000, offlineAfterMs = 45000,
     pairingCodeTtlMinutes = 10, sessionTtlHours = 168, jobRetentionDays = 30,
     maxRetainedOutputBytes = 10 * 1024 * 1024, agentBufferBytes = 4 * 1024 * 1024,
     commandTimeoutMs = 30000\<rparr>"

subsection \<open>Characters\<close>

text \<open>\<open>toLowerCase\<close> on 8-bit characters, which stays within them.\<close>

definition lower_char :: "char \<Rightarrow> char" where
  "lower_char c =
     (let n = of_char c :: nat in
      if 65 \<le> n \<and> n \<le> 90 \<or> 192 \<le> n \<and> n \<le> 222 \<and> n \<noteq> 215 then char_of (n + 32) else c)"

definition toLowerCase :: "string \<Rightarrow> string" where
  "toLowerCase s = map lower_char s"

definition startsWith :: "string \<Rightarrow> string \<Rightarrow> bool" where
  "startsWith p s \<longleftrightarrow> take (length p) s = p"

definition endsWith :: "string \<Rightarrow> string \<Rightarrow> bool" where
  "endsWith p s \<longleftrightarrow> startsWith (rev p) (rev s)"

subsection \<open>Schemas of single values\<close>

text \<open>A default of a schema is an input: it goes through the schema, transformations included.\<close>

definition zs_prefault :: "string \<Rightarrow> 'a schema \<Rightarrow> 'a schema" where
  "zs_prefault d s j = s (Some (case j of None \<Rightarrow> JStr d | Some v \<Rightarrow> v))"

definition booleanFromEnvironment :: "bool schema" where
  "booleanFromEnvironment = zs_transform (\<lambda>v. v = ''true'') (zs_enum [''true'', ''false''])"

definition zs_url :: "(string \<Rightarrow> url option) \<Rightarrow> string schema" where
  "zs_url parse_url = zs_refine (\<lambda>s. parse_url s \<noteq> None) zs_string"

definition redisUrl :: "(string \<Rightarrow> url option) \<Rightarrow> string schema" where
  "redisUrl parse_url =
     zs_refine (\<lambda>v. case parse_url v of None \<Rightarrow> False
       | Some u \<Rightarrow> url_protocol u = ''redis:'' \<or> url_protocol u = ''rediss:'') (zs_url parse_url)"

definition comma_separated :: "string \<Rightarrow> string list" where
  "comma_separated v = filter (\<lambda>s. length s > 0) (map js_trim (split_on (CHR '','') v))"

definition commaSeparatedOrigins :: "(string \<Rightarrow> url option) \<Rightarrow> string list schema" where
  "commaSeparatedOrigins parse_url =
     zs_refine (list_all (\<lambda>origin. case parse_url origin of None \<Rightarrow> False | Some u \<Rightarrow> url_origin u = origin))
       (zs_transform comma_separated zs_string)"

definition publicUrl :: "(string \<Rightarrow> url option) \<Rightarrow> string schema" where
  "publicUrl parse_url =
     zs_transform (\<lambda>v. case parse_url v of None \<Rightarrow> v | Some u \<Rightarrow> url_origin u) (zs_url parse_url)"

text \<open>\<open>/^[a-z0-9-]+(\.[a-z0-9-]+)+$/\<close>: at least two labels, none empty.\<close>

definition is_email_domain :: "string \<Rightarrow> bool" where
  "is_email_domain s =
     (let labels = split_on (CHR ''.'') s in
      2 \<le> length labels \<and>
      list_all (\<lambda>w. w \<noteq> '''' \<and> list_all (\<lambda>c. is_lower_char c \<or> is_digit_char c \<or> c = CHR ''-'') w) labels)"

definition commaSeparatedEmailDomains :: "string list schema" where
  "commaSeparatedEmailDomains =
     zs_refine (list_all is_email_domain)
       (zs_transform (\<lambda>v. filter (\<lambda>s. length s > 0) (map (\<lambda>s. toLowerCase (js_trim s)) (split_on (CHR '','') v)))
         zs_string)"

definition at_least :: "nat \<Rightarrow> string schema" where
  "at_least n = zs_refine (\<lambda>s. n \<le> length s) zs_string"

text \<open>\<open>z.coerce.number().int().min(lo).max(hi).default(d)\<close>\<close>

definition env_number :: "(string \<Rightarrow> int option) \<Rightarrow> int \<Rightarrow> int \<Rightarrow> int \<Rightarrow> int schema" where
  "env_number num lo hi d = zs_default d (zs_range lo hi (zs_coerce num))"

definition redisNamespace :: "string schema" where
  "redisNamespace =
     zs_prefault ''relaydock''
       (zs_refine (list_all (\<lambda>c. is_upper_char c \<or> is_lower_char c \<or> is_digit_char c \<or> c \<in> set ''._-''))
         (zs_text 1 100))"

subsection \<open>The schema\<close>

definition environment_fields ::
  "(string \<Rightarrow> url option) \<Rightarrow> (string \<Rightarrow> int option) \<Rightarrow> properties \<Rightarrow> environment option" where
  "environment_fields parse_url num ps = do {
     v_NODE_ENV \<leftarrow> zs_field ''NODE_ENV'' (zs_prefault ''development'' (zs_enum [''development'', ''test'', ''production''])) ps;
     v_HOST \<leftarrow> zs_field ''HOST'' (zs_prefault ''0.0.0.0'' (at_least 1)) ps;
     v_PORT \<leftarrow> zs_field ''PORT'' (env_number num 1 65535 (serverPort relayDockDefaults)) ps;
     v_DATABASE_URL \<leftarrow> zs_field ''DATABASE_URL'' (at_least 1) ps;
     v_REDIS_URL \<leftarrow> zs_field ''REDIS_URL'' (zs_optional (redisUrl parse_url)) ps;
     v_REDIS_NAMESPACE \<leftarrow> zs_field ''REDIS_NAMESPACE'' redisNamespace ps;
     v_RELAY_ACK_TIMEOUT_MS \<leftarrow> zs_field ''RELAY_ACK_TIMEOUT_MS'' (env_number num 250 10000 2000) ps;
     v_CRON_SECRET \<leftarrow> zs_field ''CRON_SECRET'' (zs_optional (at_least 32)) ps;
     v_SESSION_SECRET \<leftarrow> zs_field ''SESSION_SECRET'' (at_least 32) ps;
     v_CREDENTIAL_SECRET \<leftarrow> zs_field ''CREDENTIAL_SECRET'' (at_least 32) ps;
     v_ALLOWED_ORIGINS \<leftarrow> zs_field ''ALLOWED_ORIGINS''
       (zs_prefault ''http://localhost:5173,http://127.0.0.1:5173'' (commaSeparatedOrigins parse_url)) ps;
     v_ALLOW_REGISTRATION \<leftarrow> zs_field ''ALLOW_REGISTRATION'' (zs_prefault ''false'' booleanFromEnvironment) ps;
     v_TRUST_PROXY \<leftarrow> zs_field ''TRUST_PROXY'' (zs_prefault ''false'' booleanFromEnvironment) ps;
     v_SESSION_TTL_HOURS \<leftarrow> zs_field ''SESSION_TTL_HOURS'' (env_number num 1 (24 * 365) (sessionTtlHours relayDockDefaults)) ps;
     v_PAIRING_CODE_TTL_MINUTES \<leftarrow> zs_field ''PAIRING_CODE_TTL_MINUTES'' (env_number num 1 60 (pairingCodeTtlMinutes relayDockDefaults)) ps;
     v_JOB_RETENTION_DAYS \<leftarrow> zs_field ''JOB_RETENTION_DAYS'' (env_number num 1 3650 (jobRetentionDays relayDockDefaults)) ps;
     v_MAX_RETAINED_OUTPUT_BYTES \<leftarrow> zs_field ''MAX_RETAINED_OUTPUT_BYTES''
       (env_number num (64 * 1024) (1024 * 1024 * 1024) (maxRetainedOutputBytes relayDockDefaults)) ps;
     v_HEARTBEAT_INTERVAL_MS \<leftarrow> zs_field ''HEARTBEAT_INTERVAL_MS'' (env_number num 1000 300000 (heartbeatIntervalMs relayDockDefaults)) ps;
     v_OFFLINE_AFTER_MS \<leftarrow> zs_field ''OFFLINE_AFTER_MS'' (env_number num 2000 900000 (offlineAfterMs relayDockDefaults)) ps;
     v_REPOSITORY_VALIDATION_TIMEOUT_MS \<leftarrow> zs_field ''REPOSITORY_VALIDATION_TIMEOUT_MS'' (env_number num 1000 120000 15000) ps;
     v_LOG_LEVEL \<leftarrow> zs_field ''LOG_LEVEL'' (zs_prefault ''info''
       (zs_enum [''fatal'', ''error'', ''warn'', ''info'', ''debug'', ''trace'', ''silent''])) ps;
     v_PUBLIC_URL \<leftarrow> zs_field ''PUBLIC_URL'' (zs_optional (publicUrl parse_url)) ps;
     v_GOOGLE_CLIENT_ID \<leftarrow> zs_field ''GOOGLE_CLIENT_ID'' (zs_optional (at_least 1)) ps;
     v_GOOGLE_CLIENT_SECRET \<leftarrow> zs_field ''GOOGLE_CLIENT_SECRET'' (zs_optional (at_least 1)) ps;
     v_GOOGLE_ALLOWED_EMAIL_DOMAINS \<leftarrow> zs_field ''GOOGLE_ALLOWED_EMAIL_DOMAINS'' (zs_optional commaSeparatedEmailDomains) ps;
     v_VAPID_PUBLIC_KEY \<leftarrow> zs_field ''VAPID_PUBLIC_KEY'' (zs_optional (at_least 1)) ps;
     v_VAPID_PRIVATE_KEY \<leftarrow> zs_field ''VAPID_PRIVATE_KEY'' (zs_optional (at_least 1)) ps;
     v_VAPID_SUBJECT \<leftarrow> zs_field ''VAPID_SUBJECT'' (zs_optional (at_least 1)) ps;
     Some \<lparr>env_NODE_ENV = v_NODE_ENV, env_HOST = v_HOST, env_PORT = v_PORT, env_DATABASE_URL = v_DATABASE_URL,
       env_REDIS_URL = v_REDIS_URL, env_REDIS_NAMESPACE = v_REDIS_NAMESPACE,
       env_RELAY_ACK_TIMEOUT_MS = v_RELAY_ACK_TIMEOUT_MS, env_CRON_SECRET = v_CRON_SECRET,
       env_SESSION_SECRET = v_SESSION_SECRET, env_CREDENTIAL_SECRET = v_CREDENTIAL_SECRET,
       env_ALLOWED_ORIGINS = v_ALLOWED_ORIGINS, env_ALLOW_REGISTRATION = v_ALLOW_REGISTRATION,
       env_TRUST_PROXY = v_TRUST_PROXY, env_SESSION_TTL_HOURS = v_SESSION_TTL_HOURS,
       env_PAIRING_CODE_TTL_MINUTES = v_PAIRING_CODE_TTL_MINUTES, env_JOB_RETENTION_DAYS = v_JOB_RETENTION_DAYS,
       env_MAX_RETAINED_OUTPUT_BYTES = v_MAX_RETAINED_OUTPUT_BYTES,
       env_HEARTBEAT_INTERVAL_MS = v_HEARTBEAT_INTERVAL_MS, env_OFFLINE_AFTER_MS = v_OFFLINE_AFTER_MS,
       env_REPOSITORY_VALIDATION_TIMEOUT_MS = v_REPOSITORY_VALIDATION_TIMEOUT_MS, env_LOG_LEVEL = v_LOG_LEVEL,
       env_PUBLIC_URL = v_PUBLIC_URL, env_GOOGLE_CLIENT_ID = v_GOOGLE_CLIENT_ID,
       env_GOOGLE_CLIENT_SECRET = v_GOOGLE_CLIENT_SECRET,
       env_GOOGLE_ALLOWED_EMAIL_DOMAINS = v_GOOGLE_ALLOWED_EMAIL_DOMAINS,
       env_VAPID_PUBLIC_KEY = v_VAPID_PUBLIC_KEY, env_VAPID_PRIVATE_KEY = v_VAPID_PRIVATE_KEY,
       env_VAPID_SUBJECT = v_VAPID_SUBJECT\<rparr>
   }"

text \<open>The conditions on several values: the schema has no issue when none of them applies.\<close>

definition environment_refined :: "environment \<Rightarrow> bool" where
  "environment_refined e \<longleftrightarrow>
     \<not> (env_NODE_ENV e = ''production'' \<and> length (env_ALLOWED_ORIGINS e) = 0) \<and>
     \<not> env_OFFLINE_AFTER_MS e \<le> env_HEARTBEAT_INTERVAL_MS e \<and>
     \<not> (env_NODE_ENV e = ''production'' \<and> env_SESSION_SECRET e = env_CREDENTIAL_SECRET e) \<and>
     \<not> ((env_GOOGLE_CLIENT_ID e = None) \<noteq> (env_GOOGLE_CLIENT_SECRET e = None)) \<and>
     \<not> (env_GOOGLE_CLIENT_ID e \<noteq> None \<and> env_GOOGLE_CLIENT_SECRET e \<noteq> None \<and> env_PUBLIC_URL e = None) \<and>
     (let vapidSet = length (filter (\<lambda>v. v \<noteq> None) [env_VAPID_PUBLIC_KEY e, env_VAPID_PRIVATE_KEY e, env_VAPID_SUBJECT e])
      in \<not> (vapidSet > 0 \<and> vapidSet < 3)) \<and>
     (case env_VAPID_SUBJECT e of None \<Rightarrow> True
      | Some s \<Rightarrow> startsWith ''mailto:'' s \<or> startsWith ''https://'' s)"

definition environmentSchema ::
  "(string \<Rightarrow> url option) \<Rightarrow> (string \<Rightarrow> int option) \<Rightarrow> environment schema" where
  "environmentSchema parse_url num = zs_refine environment_refined (zs_object (environment_fields parse_url num))"

subsection \<open>The process environment\<close>

type_synonym env_source = "(string \<times> string) list"

definition emptyToUndefined :: "string option \<Rightarrow> string option" where
  "emptyToUndefined v = (case v of None \<Rightarrow> None | Some s \<Rightarrow> if js_trim s = '''' then None else Some s)"

text \<open>The chain \<open>a ?? b ?? c\<close>.\<close>

fun coalesce :: "'a option list \<Rightarrow> 'a option" where
  "coalesce [] = None"
| "coalesce (None # vs) = coalesce vs"
| "coalesce (Some v # vs) = Some v"

definition prefixed :: "env_source \<Rightarrow> string \<Rightarrow> string option" where
  "prefixed src name = coalesce [map_of src (''RELAYDOCK_'' @ name), map_of src name]"

definition normalizeEnvironment :: "env_source \<Rightarrow> properties" where
  "normalizeEnvironment src =
     (let sessionSecret = coalesce [map_of src ''RELAYDOCK_SESSION_PEPPER'', map_of src ''SESSION_SECRET''];
          credentialSecret = coalesce [map_of src ''RELAYDOCK_CREDENTIAL_PEPPER'', map_of src ''CREDENTIAL_SECRET'', sessionSecret];
          vapid = (\<lambda>name. coalesce [emptyToUndefined (map_of src (''RELAYDOCK_'' @ name)), emptyToUndefined (map_of src name)]);
          override = [
            (''HOST'', prefixed src ''HOST''),
            (''PORT'', prefixed src ''PORT''),
            (''REDIS_URL'', coalesce [map_of src ''RELAYDOCK_REDIS_URL'', map_of src ''REDIS_URL'', map_of src ''KV_URL'']),
            (''REDIS_NAMESPACE'', prefixed src ''REDIS_NAMESPACE''),
            (''RELAY_ACK_TIMEOUT_MS'', prefixed src ''RELAY_ACK_TIMEOUT_MS''),
            (''CRON_SECRET'', prefixed src ''CRON_SECRET''),
            (''SESSION_SECRET'', sessionSecret),
            (''CREDENTIAL_SECRET'', credentialSecret),
            (''ALLOWED_ORIGINS'', coalesce [map_of src ''RELAYDOCK_ALLOWED_ORIGINS'', map_of src ''RELAYDOCK_WEB_ORIGIN'', map_of src ''ALLOWED_ORIGINS'']),
            (''ALLOW_REGISTRATION'', prefixed src ''ALLOW_REGISTRATION''),
            (''TRUST_PROXY'', prefixed src ''TRUST_PROXY''),
            (''SESSION_TTL_HOURS'', prefixed src ''SESSION_TTL_HOURS''),
            (''PAIRING_CODE_TTL_MINUTES'', prefixed src ''PAIRING_CODE_TTL_MINUTES''),
            (''JOB_RETENTION_DAYS'', prefixed src ''JOB_RETENTION_DAYS''),
            (''MAX_RETAINED_OUTPUT_BYTES'', coalesce [map_of src ''RELAYDOCK_MAX_JOB_OUTPUT_BYTES'', map_of src ''MAX_RETAINED_OUTPUT_BYTES'']),
            (''HEARTBEAT_INTERVAL_MS'', prefixed src ''HEARTBEAT_INTERVAL_MS''),
            (''OFFLINE_AFTER_MS'', prefixed src ''OFFLINE_AFTER_MS''),
            (''REPOSITORY_VALIDATION_TIMEOUT_MS'', prefixed src ''REPOSITORY_VALIDATION_TIMEOUT_MS''),
            (''LOG_LEVEL'', prefixed src ''LOG_LEVEL''),
            (''PUBLIC_URL'', prefixed src ''PUBLIC_URL''),
            (''GOOGLE_CLIENT_ID'', prefixed src ''GOOGLE_CLIENT_ID''),
            (''GOOGLE_CLIENT_SECRET'', prefixed src ''GOOGLE_CLIENT_SECRET''),
            (''GOOGLE_ALLOWED_EMAIL_DOMAINS'', prefixed src ''GOOGLE_ALLOWED_EMAIL_DOMAINS''),
            (''VAPID_PUBLIC_KEY'', vapid ''VAPID_PUBLIC_KEY''),
            (''VAPID_PRIVATE_KEY'', vapid ''VAPID_PRIVATE_KEY''),
            (''VAPID_SUBJECT'', vapid ''VAPID_SUBJECT'')]
      in concat (map (\<lambda>(k, v). case v of None \<Rightarrow> [] | Some s \<Rightarrow> [(k, JStr s)]) override) @
         map (\<lambda>(k, s). (k, JStr s)) (filter (\<lambda>(k, s). k \<notin> fst ` set override) src))"

definition parseServerEnvironment ::
  "(string \<Rightarrow> url option) \<Rightarrow> (string \<Rightarrow> int option) \<Rightarrow> env_source \<Rightarrow> server_environment option" where
  "parseServerEnvironment parse_url num src =
     map_option (\<lambda>e. environment.extend e
         \<lparr>env_cookieSecure = (env_NODE_ENV e = ''production''),
          env_googleEnabled = (env_GOOGLE_CLIENT_ID e \<noteq> None \<and> env_GOOGLE_CLIENT_SECRET e \<noteq> None),
          env_pushEnabled = (env_VAPID_PUBLIC_KEY e \<noteq> None \<and> env_VAPID_PRIVATE_KEY e \<noteq> None \<and> env_VAPID_SUBJECT e \<noteq> None)\<rparr>)
       (environmentSchema parse_url num (Some (JObj (normalizeEnvironment src))))"

subsection \<open>What an accepted configuration satisfies\<close>

lemma env_number_SomeD:
  "env_number num lo hi d j = Some n \<Longrightarrow> lo \<le> d \<Longrightarrow> d \<le> hi \<Longrightarrow> lo \<le> n \<and> n \<le> hi"
  unfolding env_number_def by (rule zs_default_range)

lemma at_least_SomeD: "at_least n j = Some s \<Longrightarrow> n \<le> length s"
  by (auto simp: at_least_def dest: zs_refine_SomeD)

lemma origins_SomeD:
  "zs_prefault d (commaSeparatedOrigins parse_url) j = Some os \<Longrightarrow> origin \<in> set os \<Longrightarrow>
   \<exists>u. parse_url origin = Some u \<and> url_origin u = origin"
  by (fastforce simp: zs_prefault_def commaSeparatedOrigins_def list_all_iff dest!: zs_refine_SomeD split: option.splits)

lemma redisUrl_SomeD:
  "zs_optional (redisUrl parse_url) j = Some (Some s) \<Longrightarrow>
   \<exists>u. parse_url s = Some u \<and> (url_protocol u = ''redis:'' \<or> url_protocol u = ''rediss:'')"
  by (auto simp: redisUrl_def dest!: zs_optional_SomeD zs_refine_SomeD split: option.splits)

text \<open>Each field is what its schema makes of its property.\<close>

lemma environment_fields_D:
  assumes "environment_fields parse_url num ps = Some e"
  shows "zs_field ''PORT'' (env_number num 1 65535 3000) ps = Some (env_PORT e)"
    and "zs_field ''REDIS_URL'' (zs_optional (redisUrl parse_url)) ps = Some (env_REDIS_URL e)"
    and "zs_field ''RELAY_ACK_TIMEOUT_MS'' (env_number num 250 10000 2000) ps = Some (env_RELAY_ACK_TIMEOUT_MS e)"
    and "zs_field ''SESSION_SECRET'' (at_least 32) ps = Some (env_SESSION_SECRET e)"
    and "zs_field ''CREDENTIAL_SECRET'' (at_least 32) ps = Some (env_CREDENTIAL_SECRET e)"
    and "zs_field ''ALLOWED_ORIGINS''
       (zs_prefault ''http://localhost:5173,http://127.0.0.1:5173'' (commaSeparatedOrigins parse_url)) ps =
       Some (env_ALLOWED_ORIGINS e)"
    and "zs_field ''SESSION_TTL_HOURS'' (env_number num 1 8760 168) ps = Some (env_SESSION_TTL_HOURS e)"
    and "zs_field ''PAIRING_CODE_TTL_MINUTES'' (env_number num 1 60 10) ps = Some (env_PAIRING_CODE_TTL_MINUTES e)"
    and "zs_field ''JOB_RETENTION_DAYS'' (env_number num 1 3650 30) ps = Some (env_JOB_RETENTION_DAYS e)"
    and "zs_field ''MAX_RETAINED_OUTPUT_BYTES'' (env_number num 65536 1073741824 10485760) ps =
       Some (env_MAX_RETAINED_OUTPUT_BYTES e)"
    and "zs_field ''HEARTBEAT_INTERVAL_MS'' (env_number num 1000 300000 15000) ps = Some (env_HEARTBEAT_INTERVAL_MS e)"
    and "zs_field ''OFFLINE_AFTER_MS'' (env_number num 2000 900000 45000) ps = Some (env_OFFLINE_AFTER_MS e)"
    and "zs_field ''REPOSITORY_VALIDATION_TIMEOUT_MS'' (env_number num 1000 120000 15000) ps =
       Some (env_REPOSITORY_VALIDATION_TIMEOUT_MS e)"
  using assms unfolding environment_fields_def
  by (clarsimp simp: bind_eq_Some_conv relayDockDefaults_def)+

lemmas environment_fields_ranges =
  environment_fields_D(1,3,7-13) [unfolded zs_field_def, THEN env_number_SomeD]

definition within_bounds :: "'a environment_scheme \<Rightarrow> bool" where
  "within_bounds e \<longleftrightarrow>
     env_PORT e \<in> {1..65535} \<and> env_RELAY_ACK_TIMEOUT_MS e \<in> {250..10000} \<and>
     env_SESSION_TTL_HOURS e \<in> {1..8760} \<and> env_PAIRING_CODE_TTL_MINUTES e \<in> {1..60} \<and>
     env_JOB_RETENTION_DAYS e \<in> {1..3650} \<and> env_MAX_RETAINED_OUTPUT_BYTES e \<in> {65536..1073741824} \<and>
     env_HEARTBEAT_INTERVAL_MS e \<in> {1000..300000} \<and> env_OFFLINE_AFTER_MS e \<in> {2000..900000} \<and>
     env_REPOSITORY_VALIDATION_TIMEOUT_MS e \<in> {1000..120000}"

lemma environment_fields_bounds: "environment_fields parse_url num ps = Some e \<Longrightarrow> within_bounds e"
  unfolding within_bounds_def by (simp add: environment_fields_ranges)

lemma environmentSchema_SomeD:
  assumes "environmentSchema parse_url num (Some (JObj ps)) = Some e"
  shows "environment_fields parse_url num ps = Some e" and "environment_refined e"
  using assms by (auto simp: environmentSchema_def dest: zs_refine_SomeD)

text \<open>
  C26. What the server may rely on once its configuration is accepted, whatever the process environment
  holds: every number lies in its range, the agents' timeout exceeds their heartbeat interval, both
  secrets have at least 32 characters and differ in production, where at least one browser origin
  is allowed and cookies are secure; every allowed origin is a URL's origin, a Redis URL has the
  protocol of Redis; Google sign-in is on exactly when one of its two values is set, and then there
  is a public URL; notifications are on exactly when one of the three VAPID values is set.
\<close>

theorem accepted_environment:
  assumes "parseServerEnvironment parse_url num src = Some e"
  shows "within_bounds e \<and> env_HEARTBEAT_INTERVAL_MS e < env_OFFLINE_AFTER_MS e \<and>
    32 \<le> length (env_SESSION_SECRET e) \<and> 32 \<le> length (env_CREDENTIAL_SECRET e) \<and>
    (env_NODE_ENV e = ''production'' \<longrightarrow>
       env_SESSION_SECRET e \<noteq> env_CREDENTIAL_SECRET e \<and> env_ALLOWED_ORIGINS e \<noteq> [] \<and> env_cookieSecure e) \<and>
    (\<forall>origin \<in> set (env_ALLOWED_ORIGINS e). \<exists>u. parse_url origin = Some u \<and> url_origin u = origin) \<and>
    (\<forall>s. env_REDIS_URL e = Some s \<longrightarrow> (\<exists>u. parse_url s = Some u \<and> (url_protocol u = ''redis:'' \<or> url_protocol u = ''rediss:''))) \<and>
    (env_googleEnabled e \<longleftrightarrow> env_GOOGLE_CLIENT_ID e \<noteq> None \<or> env_GOOGLE_CLIENT_SECRET e \<noteq> None) \<and>
    (env_googleEnabled e \<longrightarrow> env_PUBLIC_URL e \<noteq> None) \<and>
    (env_pushEnabled e \<longleftrightarrow> env_VAPID_PUBLIC_KEY e \<noteq> None \<or> env_VAPID_PRIVATE_KEY e \<noteq> None \<or> env_VAPID_SUBJECT e \<noteq> None)"
proof -
  obtain b where b: "environmentSchema parse_url num (Some (JObj (normalizeEnvironment src))) = Some b"
    and e: "e = environment.extend b
         \<lparr>env_cookieSecure = (env_NODE_ENV b = ''production''),
          env_googleEnabled = (env_GOOGLE_CLIENT_ID b \<noteq> None \<and> env_GOOGLE_CLIENT_SECRET b \<noteq> None),
          env_pushEnabled = (env_VAPID_PUBLIC_KEY b \<noteq> None \<and> env_VAPID_PRIVATE_KEY b \<noteq> None \<and> env_VAPID_SUBJECT b \<noteq> None)\<rparr>"
    using assms by (auto simp: parseServerEnvironment_def)
  note fields = environmentSchema_SomeD(1) [OF b] and refined = environmentSchema_SomeD(2) [OF b]
  note D = environment_fields_D [OF fields, unfolded zs_field_def]
  have "within_bounds b" "32 \<le> length (env_SESSION_SECRET b)" "32 \<le> length (env_CREDENTIAL_SECRET b)"
    using environment_fields_bounds [OF fields] D(4,5) [THEN at_least_SomeD] by blast+
  moreover have "\<forall>origin \<in> set (env_ALLOWED_ORIGINS b). \<exists>u. parse_url origin = Some u \<and> url_origin u = origin"
    using origins_SomeD [OF D(6)] by blast
  moreover have "\<forall>s. env_REDIS_URL b = Some s \<longrightarrow> (\<exists>u. parse_url s = Some u \<and> (url_protocol u = ''redis:'' \<or> url_protocol u = ''rediss:''))"
    using D(2) redisUrl_SomeD by metis
  ultimately show ?thesis
    using refined by (auto simp: e environment.extend_def environment_refined_def within_bounds_def Let_def split: if_splits)
qed

definition example_url :: "string \<Rightarrow> url option" where
  "example_url s = (if startsWith ''http://'' s
     then Some \<lparr>url_protocol = ''http:'', url_hostname = drop 7 s, url_origin = s\<rparr> else None)"

definition example_source :: env_source where
  "example_source = [(''DATABASE_URL'', ''db''), (''SESSION_SECRET'', replicate 32 (CHR ''s'')), (''RELAYDOCK_PORT'', ''x''), (''PORT'', ''80'')]"

definition example_number :: "string \<Rightarrow> int option" where
  "example_number s = (if s = ''x'' then Some 8080 else None)"

theorem accepted_environment_witness:
  "map_option (\<lambda>e. env_HEARTBEAT_INTERVAL_MS e < env_OFFLINE_AFTER_MS e \<and> env_PORT e = 8080)
     (parseServerEnvironment example_url example_number example_source) = Some True"
proof -
  have "map_option (\<lambda>e. env_PORT e = 8080) (parseServerEnvironment example_url example_number example_source) = Some True"
    by code_simp
  then obtain e where "parseServerEnvironment example_url example_number example_source = Some e" "env_PORT e = 8080"
    by auto
  then show ?thesis using accepted_environment by simp
qed

end
