(* ===== verification/Services.thy ===== *)
theory Services
  imports AgentSocket Env
begin

section \<open>Requests, errors, tokens, the audit log, sessions and maintenance\<close>

text \<open>
  What the HTTP routes share: \<open>lib/crypto.ts\<close>, \<open>lib/errors.ts\<close>, \<open>services/audit.ts\<close>, \<open>services/sessions.ts\<close>
  and \<open>services/maintenance.ts\<close>. A route is a function of its surroundings (\<open>http\<close>), the request
  and the state of the server; it yields an error or a response.

  Parameters, in \<open>lib\<close>: the keyed hash, password hashing and verification, which throws as \<open>None\<close>,
  the formats the schema library checks, \<open>new URL\<close>, \<open>Number\<close> on strings, and the rank of a string in the
  database's collation.
\<close>

record lib =
  lib_hmac :: "string \<Rightarrow> string \<Rightarrow> string"
  lib_hash :: "string \<Rightarrow> string \<Rightarrow> string"
  lib_verify :: "string \<Rightarrow> string \<Rightarrow> bool option"
  lib_uuid :: "string \<Rightarrow> bool"
  lib_email :: "string \<Rightarrow> bool"
  lib_url :: "string \<Rightarrow> url option"
  lib_number :: "string \<Rightarrow> int option"
  lib_collate :: "string \<Rightarrow> nat"

text \<open>
  The surroundings of a request: the library, the configuration, the clock and Redis (\<open>ctx\<close>), and
  what the request draws at random: identifiers of new rows and random bytes, by the order of use.
\<close>

record http =
  hx_lib :: lib
  hx_env :: server_environment
  hx_ctx :: ctx
  hx_id :: "nat \<Rightarrow> ident"
  hx_bytes :: "nat \<Rightarrow> nat list"

abbreviation hx_now :: "http \<Rightarrow> ms" where
  "hx_now hx \<equiv> cx_now (hx_ctx hx)"

record auth_context =
  ax_sessionId :: ident
  ax_csrfTokenHash :: string
  ax_userId :: ident
  ax_email :: string
  ax_createdAt :: ms

text \<open>A header that is repeated has several values.\<close>

record request =
  rq_id :: ident
  rq_ip :: string
  rq_headers :: "(string \<times> string list) list"
  rq_cookies :: "(string \<times> string) list"
  rq_params :: properties
  rq_query :: properties
  rq_body :: "json option"
  rq_auth :: "auth_context option"

definition header :: "request \<Rightarrow> string \<Rightarrow> string option" where
  "header rq name = (case map_of (rq_headers rq) name of Some (v # vs) \<Rightarrow> Some v | _ \<Rightarrow> None)"

record cookie_options =
  co_path :: string
  co_httpOnly :: bool
  co_secure :: bool

datatype cookie =
    SetCookie string string cookie_options int
  | ClearCookie string cookie_options

record response =
  rs_status :: int
  rs_body :: "json option"
  rs_cookies :: "cookie list"
  rs_location :: "string option"

definition json_reply :: "int \<Rightarrow> json \<Rightarrow> response" where
  "json_reply status body = \<lparr>rs_status = status, rs_body = Some body, rs_cookies = [], rs_location = None\<rparr>"

definition no_content :: response where
  "no_content = \<lparr>rs_status = 204, rs_body = None, rs_cookies = [], rs_location = None\<rparr>"

definition redirect :: "string \<Rightarrow> response" where
  "redirect location = \<lparr>rs_status = 302, rs_body = None, rs_cookies = [], rs_location = Some location\<rparr>"

definition on_db :: "(db \<Rightarrow> db) \<Rightarrow> server \<Rightarrow> server" where
  "on_db f sv = sv\<lparr>sr_world := (sr_world sv)\<lparr>w_db := f (w_db (sr_world sv))\<rparr>\<rparr>"

abbreviation sdb :: "server \<Rightarrow> db" where
  "sdb sv \<equiv> w_db (sr_world sv)"

lemma sdb_on_db [simp]: "sdb (on_db f sv) = f (sdb sv)"
  by (simp add: on_db_def)

subsection \<open>Tokens and pairing codes\<close>

definition base64_alphabet :: string where
  "base64_alphabet = ''ABCDEFGHIJKLMNOPQRSTUVWXYZabcdefghijklmnopqrstuvwxyz0123456789-_''"

definition base64_char :: "nat \<Rightarrow> char" where
  "base64_char n = base64_alphabet ! (n mod 64)"

fun base64url :: "nat list \<Rightarrow> string" where
  "base64url [] = []"
| "base64url [a] = [base64_char (a div 4), base64_char (a mod 4 * 16)]"
| "base64url [a, b] = [base64_char (a div 4), base64_char (a mod 4 * 16 + b div 16), base64_char (b mod 16 * 4)]"
| "base64url (a # b # c # bs) =
     base64_char (a div 4) # base64_char (a mod 4 * 16 + b div 16) # base64_char (b mod 16 * 4 + c div 64) #
     base64_char (c mod 64) # base64url bs"

definition createOpaqueToken :: "string \<Rightarrow> nat list \<Rightarrow> string" where
  "createOpaqueToken pre bytes = pre @ ''_'' @ base64url bytes"

definition hashOpaqueToken :: "lib \<Rightarrow> string \<Rightarrow> string \<Rightarrow> string" where
  "hashOpaqueToken l token secret = lib_hmac l secret token"

definition constantTimeEqual :: "string \<Rightarrow> string \<Rightarrow> bool" where
  "constantTimeEqual left right \<longleftrightarrow> utf8_length left = utf8_length right \<and> left = right"

definition hashPassword :: "lib \<Rightarrow> string \<Rightarrow> string \<Rightarrow> string" where
  "hashPassword l salt password = lib_hash l salt password"

definition verifyPassword :: "lib \<Rightarrow> string \<Rightarrow> string \<Rightarrow> bool" where
  "verifyPassword l passwordHash password =
     (case lib_verify l passwordHash password of Some ok \<Rightarrow> ok | None \<Rightarrow> False)"

definition pairing_alphabet :: string where
  "pairing_alphabet = ''ABCDEFGHJKLMNPQRSTUVWXYZ23456789''"

definition createPairingCode :: "nat list \<Rightarrow> string" where
  "createPairingCode bytes =
     (let characters = map (\<lambda>byte. pairing_alphabet ! (byte mod length pairing_alphabet)) bytes
      in take 4 characters @ ''-'' @ drop 4 characters)"

subsection \<open>Errors\<close>

text \<open>
  The response to an error; no caller gives an \<open>AppError\<close> details, and the details of a failed parse
  are the schema library's. \<open>404\<close> answers a request no route matches.
\<close>

definition error_body :: "string \<Rightarrow> string \<Rightarrow> ident \<Rightarrow> json" where
  "error_body code message requestId =
     JObj [(''error'', JObj [(''code'', JStr code), (''message'', JStr message), (''requestId'', JStr requestId)])]"

fun error_response :: "ident \<Rightarrow> js_error \<Rightarrow> response" where
  "error_response requestId (AppError status code message) = json_reply status (error_body code message requestId)"
| "error_response requestId ZodError =
     json_reply 400 (error_body ''VALIDATION_ERROR'' ''The request did not match the expected format.'' requestId)"
| "error_response requestId (StatusError status message) =
     json_reply status (error_body
       (if status \<ge> 500 then ''INTERNAL_ERROR'' else ''REQUEST_ERROR'')
       (if status \<ge> 500 then ''An unexpected error occurred.'' else message) requestId)"
| "error_response requestId (PrismaError code) =
     json_reply 500 (error_body ''INTERNAL_ERROR'' ''An unexpected error occurred.'' requestId)"
| "error_response requestId (PlainError message) =
     json_reply 500 (error_body ''INTERNAL_ERROR'' ''An unexpected error occurred.'' requestId)"

definition not_found_response :: "ident \<Rightarrow> response" where
  "not_found_response requestId =
     json_reply 404 (error_body ''NOT_FOUND'' ''The requested resource does not exist.'' requestId)"

subsection \<open>The audit log\<close>

record audit_input =
  ai_action :: string
  ai_userId :: "ident option"
  ai_deviceId :: "ident option"
  ai_metadata :: "json option"

definition audit_record :: "ident \<Rightarrow> ms \<Rightarrow> request \<Rightarrow> audit_input \<Rightarrow> db \<Rightarrow> db" where
  "audit_record i now rq input d =
     d\<lparr>db_audit := db_audit d @ [\<lparr>aud_id = i, aud_userId = ai_userId input, aud_deviceId = ai_deviceId input,
        aud_action = ai_action input, aud_ipAddress = Some (take 100 (rq_ip rq)),
        aud_userAgent = map_option (take 500) (header rq ''user-agent''), aud_metadata = ai_metadata input,
        aud_createdAt = now\<rparr>]\<rparr>"

subsection \<open>Sessions\<close>

definition SESSION_COOKIE :: string where
  "SESSION_COOKIE = ''relaydock_session''"

definition CSRF_COOKIE :: string where
  "CSRF_COOKIE = ''relaydock_csrf''"

definition CSRF_HEADER :: string where
  "CSRF_HEADER = ''x-csrf-token''"

definition LAST_USED_REFRESH_MS :: ms where
  "LAST_USED_REFRESH_MS = 60000"

definition cookieOptions :: "server_environment \<Rightarrow> bool \<Rightarrow> cookie_options" where
  "cookieOptions env httpOnly = \<lparr>co_path = ''/'', co_httpOnly = httpOnly, co_secure = env_cookieSecure env\<rparr>"

definition setCookies :: "server_environment \<Rightarrow> string \<Rightarrow> string \<Rightarrow> cookie list" where
  "setCookies env sessionToken csrfToken =
     (let maxAge = env_SESSION_TTL_HOURS env * 60 * 60
      in [SetCookie SESSION_COOKIE sessionToken (cookieOptions env True) maxAge,
          SetCookie CSRF_COOKIE csrfToken (cookieOptions env False) maxAge])"

text \<open>\<open>create\<close>; \<open>n\<close> is the number of the first random draw. The result is the CSRF token and the cookies.\<close>

definition session_row :: "http \<Rightarrow> nat \<Rightarrow> ident \<Rightarrow> string \<Rightarrow> string \<Rightarrow> session" where
  "session_row hx n userId sessionToken csrfToken =
     \<lparr>ses_id = hx_id hx n, ses_userId = userId,
      ses_tokenHash = hashOpaqueToken (hx_lib hx) sessionToken (env_SESSION_SECRET (hx_env hx)),
      ses_csrfTokenHash = hashOpaqueToken (hx_lib hx) csrfToken (env_SESSION_SECRET (hx_env hx)),
      ses_expiresAt = hx_now hx + env_SESSION_TTL_HOURS (hx_env hx) * 60 * 60 * 1000,
      ses_lastUsedAt = hx_now hx, ses_createdAt = hx_now hx, ses_revokedAt = None\<rparr>"

definition session_create :: "http \<Rightarrow> nat \<Rightarrow> ident \<Rightarrow> db \<Rightarrow> (string \<times> cookie list) \<times> db" where
  "session_create hx n userId d =
     (let sessionToken = createOpaqueToken ''rds'' (hx_bytes hx n);
          csrfToken = createOpaqueToken ''csrf'' (hx_bytes hx (Suc n))
      in ((csrfToken, setCookies (hx_env hx) sessionToken csrfToken),
          d\<lparr>db_sessions := db_sessions d @ [session_row hx n userId sessionToken csrfToken]\<rparr>))"

definition findUser :: "ident \<Rightarrow> db \<Rightarrow> user option" where
  "findUser i d = List.find (\<lambda>r. usr_id r = i) (db_users d)"

definition authenticate :: "http \<Rightarrow> request \<Rightarrow> db \<Rightarrow> (js_error + auth_context) \<times> db" where
  "authenticate hx rq d =
     (case map_of (rq_cookies rq) SESSION_COOKIE of
        None \<Rightarrow> (Inl (AppError 401 ''AUTHENTICATION_REQUIRED'' ''Sign in to continue.''), d)
      | Some rawToken \<Rightarrow>
          if length rawToken > 256
          then (Inl (AppError 401 ''AUTHENTICATION_REQUIRED'' ''Sign in to continue.''), d)
          else
            (let invalid = (Inl (AppError 401 ''SESSION_INVALID'' ''The session has expired. Sign in again.''), d);
                 now = hx_now hx
             in case List.find (\<lambda>r. ses_tokenHash r = hashOpaqueToken (hx_lib hx) rawToken (env_SESSION_SECRET (hx_env hx)))
                       (db_sessions d) of
                  None \<Rightarrow> invalid
                | Some session \<Rightarrow>
                    if ses_revokedAt session \<noteq> None \<or> ses_expiresAt session \<le> now then invalid
                    else (case findUser (ses_userId session) d of
                            None \<Rightarrow> invalid
                          | Some user \<Rightarrow>
                              (Inr \<lparr>ax_sessionId = ses_id session, ax_csrfTokenHash = ses_csrfTokenHash session,
                                    ax_userId = usr_id user, ax_email = usr_email user, ax_createdAt = usr_createdAt user\<rparr>,
                               if now - ses_lastUsedAt session > LAST_USED_REFRESH_MS
                               then d\<lparr>db_sessions := updateMany (\<lambda>r. ses_id r = ses_id session)
                                        (\<lambda>r. r\<lparr>ses_lastUsedAt := now\<rparr>) (db_sessions d)\<rparr>
                               else d))))"

definition requireCsrf :: "http \<Rightarrow> request \<Rightarrow> js_error option" where
  "requireCsrf hx rq =
     (case rq_auth rq of
        None \<Rightarrow> Some (AppError 401 ''AUTHENTICATION_REQUIRED'' ''Sign in to continue.'')
      | Some auth \<Rightarrow>
          (case (header rq CSRF_HEADER, map_of (rq_cookies rq) CSRF_COOKIE) of
             (Some headerToken, Some cookieToken) \<Rightarrow>
               if \<not> constantTimeEqual headerToken cookieToken \<or>
                  \<not> constantTimeEqual (hashOpaqueToken (hx_lib hx) headerToken (env_SESSION_SECRET (hx_env hx)))
                      (ax_csrfTokenHash auth)
               then Some (AppError 403 ''CSRF_INVALID'' ''The CSRF token is missing or invalid.'')
               else None
           | _ \<Rightarrow> Some (AppError 403 ''CSRF_INVALID'' ''The CSRF token is missing or invalid.'')))"

definition revokeCurrent :: "http \<Rightarrow> request \<Rightarrow> db \<Rightarrow> cookie list \<times> db" where
  "revokeCurrent hx rq d =
     ([ClearCookie SESSION_COOKIE (cookieOptions (hx_env hx) True), ClearCookie CSRF_COOKIE (cookieOptions (hx_env hx) False)],
      case rq_auth rq of
        None \<Rightarrow> d
      | Some auth \<Rightarrow> d\<lparr>db_sessions := updateMany (\<lambda>r. ses_id r = ax_sessionId auth \<and> ses_revokedAt r = None)
            (\<lambda>r. r\<lparr>ses_revokedAt := Some (hx_now hx)\<rparr>) (db_sessions d)\<rparr>)"

definition csrfFromRequest :: "request \<Rightarrow> js_error + string" where
  "csrfFromRequest rq =
     (case map_of (rq_cookies rq) CSRF_COOKIE of
        None \<Rightarrow> Inl (AppError 401 ''SESSION_INVALID'' ''The session is missing its CSRF token.'')
      | Some token \<Rightarrow> Inr token)"

subsection \<open>Maintenance\<close>

record timers =
  tm_heartbeatTimer :: bool
  tm_cleanupTimer :: bool

definition maintenance_start :: "ms \<Rightarrow> server \<Rightarrow> timers \<times> server" where
  "maintenance_start now sv =
     (let distributed = hub_distributed (w_hub (sr_world sv))
      in (\<lparr>tm_heartbeatTimer = True, tm_cleanupTimer = (\<not> distributed)\<rparr>,
          if distributed then sv
          else on_db (\<lambda>d. d\<lparr>db_devices := updateMany (\<lambda>r. dev_status r = Online)
                 (\<lambda>r. r\<lparr>dev_status := Offline, dev_updatedAt := now\<rparr>) (db_devices d)\<rparr>) sv))"

definition maintenance_stop :: "timers \<Rightarrow> timers" where
  "maintenance_stop t = \<lparr>tm_heartbeatTimer = False, tm_cleanupTimer = False\<rparr>"

text \<open>Deleting jobs deletes their output.\<close>

definition delete_jobs :: "(job \<Rightarrow> bool) \<Rightarrow> db \<Rightarrow> db" where
  "delete_jobs P d =
     d\<lparr>db_jobs := deleteMany P (db_jobs d),
       db_chunks := deleteMany (\<lambda>c. \<exists>r \<in> set (db_jobs d). P r \<and> job_id r = ch_jobId c) (db_chunks d)\<rparr>"

definition cleanup :: "server_environment \<Rightarrow> ms \<Rightarrow> db \<Rightarrow> (nat \<times> nat \<times> nat) \<times> db" where
  "cleanup env now d =
     (let jobCutoff = now - env_JOB_RETENTION_DAYS env * 86400000;
          housekeepingCutoff = now - 86400000;
          before = (\<lambda>t cutoff. case t of None \<Rightarrow> False | Some x \<Rightarrow> x < cutoff);
          oldJob = (\<lambda>r. job_status r \<in> {Completed, Failed, Cancelled} \<and> before (job_finishedAt r) jobCutoff);
          oldSession = (\<lambda>r. ses_expiresAt r < now \<or> before (ses_revokedAt r) housekeepingCutoff);
          oldCode = (\<lambda>r. pc_expiresAt r < now \<or> before (pc_usedAt r) housekeepingCutoff)
      in ((countWhere oldJob (db_jobs d), countWhere oldSession (db_sessions d), countWhere oldCode (db_pairingCodes d)),
          (delete_jobs oldJob d)\<lparr>db_sessions := deleteMany oldSession (db_sessions d),
            db_pairingCodes := deleteMany oldCode (db_pairingCodes d)\<rparr>))"

text \<open>\<open>terminate\<close> ends a connection at once; its close handler runs later.\<close>

definition terminate_socket :: "sock \<Rightarrow> hub \<Rightarrow> hub" where
  "terminate_socket s h = h\<lparr>hub_sockets := (hub_sockets h)(s := (hub_sockets h s)\<lparr>sk_readyState := 2\<rparr>)\<rparr>"

definition expireStaleConnections :: "server_environment \<Rightarrow> ms \<Rightarrow> server \<Rightarrow> server" where
  "expireStaleConnections env now sv =
     sv\<lparr>sr_world := on_hub (\<lambda>h. fold (\<lambda>c. terminate_socket (ac_socket c))
       (staleAgents (env_OFFLINE_AFTER_MS env) now h) h) (sr_world sv)\<rparr>"

subsection \<open>Pairing codes and tokens as they come back\<close>

lemma pairing_alphabet_length: "length pairing_alphabet = 32"
  by (simp add: pairing_alphabet_def)

lemma pairing_alphabet_chars: "c \<in> set pairing_alphabet \<Longrightarrow> is_upper_char c \<or> is_digit_char c"
  unfolding pairing_alphabet_def by (auto simp: is_upper_char_def is_digit_char_def)

lemma pairing_char: "pairing_alphabet ! (byte mod length pairing_alphabet) \<in> set pairing_alphabet"
  by (rule nth_mem) (simp add: pairing_alphabet_length)

lemma upper_lower_code_char:
  assumes "is_upper_char c \<or> is_digit_char c"
  shows "upper_char (lower_char c) = [c]"
proof -
  have "of_char c < (256 :: nat)"
    by simp
  with assms show ?thesis
    by (auto simp: upper_char_def lower_char_def is_upper_char_def is_digit_char_def Let_def)
qed

lemma toUpperCase_toLowerCase_code:
  "list_all (\<lambda>c. is_upper_char c \<or> is_digit_char c \<or> c = CHR ''-'') s \<Longrightarrow> toUpperCase (toLowerCase s) = s"
proof (induction s)
  case (Cons c s)
  have "upper_char (lower_char (CHR ''-'')) = ''-''"
    by (simp add: upper_char_def lower_char_def)
  with Cons show ?case
    by (auto simp: toUpperCase_def toLowerCase_def upper_lower_code_char)
qed (simp_all add: toUpperCase_def toLowerCase_def)

text \<open>What is typed is normalized by the characters of the code alone.\<close>

lemma normalizePairingCode_cong:
  "filter (\<lambda>c. is_upper_char c \<or> is_digit_char c) (toUpperCase s) =
   filter (\<lambda>c. is_upper_char c \<or> is_digit_char c) (toUpperCase t) \<Longrightarrow>
   normalizePairingCode s = normalizePairingCode t"
  by (simp add: normalizePairingCode_def)

lemma createPairingCode_form:
  assumes "length bytes = 8"
  shows "pairing_code_form (createPairingCode bytes)"
proof -
  let ?cs = "map (\<lambda>byte. pairing_alphabet ! (byte mod length pairing_alphabet)) bytes"
  have "list_all (\<lambda>c. is_upper_char c \<or> is_digit_char c) ?cs"
    by (simp add: list_all_iff pairing_alphabet_chars pairing_char)
  then show ?thesis
    using assms by (simp add: createPairingCode_def Let_def pairing_code_form_def nth_append take_map drop_map
        list_all_iff) (auto dest: in_set_takeD in_set_dropD)
qed

lemma pairing_code_form_chars:
  assumes "pairing_code_form s"
  shows "list_all (\<lambda>c. is_upper_char c \<or> is_digit_char c \<or> c = CHR ''-'') s"
proof -
  have "s = take 4 s @ s ! 4 # drop 5 s"
    using assms id_take_nth_drop [of 4 s] by (simp add: pairing_code_form_def)
  then show ?thesis
    using assms by (auto simp: pairing_code_form_def list_all_iff) (metis Un_iff insert_iff list.simps(15) set_append)
qed

lemma bytes_per_char: "i < 32 \<Longrightarrow> card {b :: nat. b < 256 \<and> b mod 32 = i} = 8"
proof -
  assume i: "i < (32 :: nat)"
  have "b \<in> (\<lambda>k. 32 * k + i) ` {..<8}" if "b < 256" "b mod 32 = i" for b
    using that by (intro image_eqI [of _ _ "b div 32"]) auto
  then have "{b. b < 256 \<and> b mod 32 = i} = (\<lambda>k. 32 * k + i) ` {..<8}"
    using i by auto
  then show ?thesis
    by (simp add: card_image inj_on_def)
qed

text \<open>
  A pairing code survives being read and typed: \<open>normalizePairingCode\<close> returns the printed code for
  the code itself, for its lower-case form and for the form without the hyphen. And the code is
  drawn without bias: of the 256 values of a random byte, each character of the alphabet gets
  exactly eight.
\<close>

theorem pairing_code_round_trip:
  assumes "length bytes = 8"
  shows "normalizePairingCode (createPairingCode bytes) = createPairingCode bytes \<and>
    normalizePairingCode (toLowerCase (createPairingCode bytes)) = createPairingCode bytes \<and>
    normalizePairingCode (filter (\<lambda>c. c \<noteq> CHR ''-'') (createPairingCode bytes)) = createPairingCode bytes \<and>
    (\<forall>c \<in> set pairing_alphabet. card {b. b < 256 \<and> pairing_alphabet ! (b mod length pairing_alphabet) = c} = 8)"
proof -
  let ?s = "createPairingCode bytes"
  note form = createPairingCode_form [OF assms]
  note chars = pairing_code_form_chars [OF form]
  have fixed: "normalizePairingCode ?s = ?s"
    by (rule normalizePairingCode_fixed [OF form])
  moreover have "normalizePairingCode (toLowerCase ?s) = normalizePairingCode ?s"
    by (rule normalizePairingCode_cong) (simp add: toUpperCase_toLowerCase_code chars toUpperCase_code_chars)
  moreover have "normalizePairingCode (filter (\<lambda>c. c \<noteq> CHR ''-'') ?s) = normalizePairingCode ?s"
  proof (rule normalizePairingCode_cong)
    have "list_all (\<lambda>c. is_upper_char c \<or> is_digit_char c \<or> c = CHR ''-'') (filter (\<lambda>c. c \<noteq> CHR ''-'') ?s)"
      using chars by (auto simp: list_all_iff)
    then have up: "toUpperCase (filter (\<lambda>c. c \<noteq> CHR ''-'') ?s) = filter (\<lambda>c. c \<noteq> CHR ''-'') ?s"
      by (rule toUpperCase_code_chars)
    show "filter (\<lambda>c. is_upper_char c \<or> is_digit_char c) (toUpperCase (filter (\<lambda>c. c \<noteq> CHR ''-'') ?s)) =
        filter (\<lambda>c. is_upper_char c \<or> is_digit_char c) (toUpperCase ?s)"
      unfolding up toUpperCase_code_chars [OF chars] filter_filter
      by (rule filter_cong) (auto simp: hyphen_not_code_char)
  qed
  moreover have "card {b. b < 256 \<and> pairing_alphabet ! (b mod length pairing_alphabet) = c} = 8"
    if "c \<in> set pairing_alphabet" for c
  proof -
    have dist: "distinct pairing_alphabet"
      by (simp add: pairing_alphabet_def)
    from that obtain i where i: "i < 32" "c = pairing_alphabet ! i"
      by (auto simp: in_set_conv_nth pairing_alphabet_length)
    have "{b. b < 256 \<and> pairing_alphabet ! (b mod length pairing_alphabet) = c} = {b. b < 256 \<and> b mod 32 = i}"
      using i nth_eq_iff_index_eq [OF dist] by (auto simp: pairing_alphabet_length)
    with i show ?thesis by (simp add: bytes_per_char)
  qed
  ultimately show ?thesis by simp
qed

theorem pairing_code_round_trip_witness:
  "createPairingCode [0, 1, 2, 3, 255, 40, 23, 24] = ''ABCD-9JZ2'' \<and>
   normalizePairingCode (toLowerCase ''ABCD-9JZ2'') = ''ABCD-9JZ2''"
proof -
  have "createPairingCode [0, 1, 2, 3, 255, 40, 23, 24] = ''ABCD-9JZ2''"
    by (simp add: createPairingCode_def pairing_alphabet_def)
  then show ?thesis
    using pairing_code_round_trip [of "[0, 1, 2, 3, 255, 40, 23, 24]"] by simp
qed

lemma base64_char_token: "is_token_char (base64_char n)"
proof -
  have "list_all is_token_char base64_alphabet"
    by (simp add: base64_alphabet_def is_token_char_def is_upper_char_def is_lower_char_def is_digit_char_def)
  moreover have "length base64_alphabet = 64"
    by (simp add: base64_alphabet_def)
  ultimately show ?thesis
    by (simp add: base64_char_def list_all_iff)
qed

lemma base64url_chars: "list_all is_token_char (base64url bs)"
  by (induction bs rule: base64url.induct) (simp_all add: base64_char_token)

lemma base64url_length: "length (base64url bs) = (4 * length bs + 2) div 3"
  by (induction bs rule: base64url.induct) auto

lemma credential_is_bearer:
  assumes "length bytes = 32"
  shows "bearer_token (''Bearer '' @ createOpaqueToken ''rdc'' bytes) = Some (createOpaqueToken ''rdc'' bytes)"
  using assms base64url_chars [of bytes]
  by (simp add: bearer_token_def createOpaqueToken_def base64url_length)
    (simp add: is_token_char_def is_lower_char_def)

subsection \<open>The life of a session\<close>

definition SESSION_INVALID :: js_error where
  "SESSION_INVALID = AppError 401 ''SESSION_INVALID'' ''The session has expired. Sign in again.''"

lemma find_appended:
  "\<forall>r \<in> set rows. \<not> P r \<Longrightarrow> List.find P (rows @ [x]) = (if P x then Some x else None)"
  by (induction rows) auto

text \<open>A session found by its token's hash decides the outcome of \<open>authenticate\<close>.\<close>

lemma authenticate_by_session:
  assumes "map_of (rq_cookies rq) SESSION_COOKIE = Some token" and "length token \<le> 256"
    and "List.find (\<lambda>r. ses_tokenHash r = hashOpaqueToken (hx_lib hx) token (env_SESSION_SECRET (hx_env hx))) (db_sessions d) = Some s"
    and "findUser (ses_userId s) d = Some usr"
  shows "fst (authenticate hx rq d) =
    (if ses_revokedAt s = None \<and> hx_now hx < ses_expiresAt s
     then Inr \<lparr>ax_sessionId = ses_id s, ax_csrfTokenHash = ses_csrfTokenHash s, ax_userId = usr_id usr,
               ax_email = usr_email usr, ax_createdAt = usr_createdAt usr\<rparr>
     else Inl SESSION_INVALID)"
    and "\<exists>t. snd (authenticate hx rq d) =
      d\<lparr>db_sessions := updateMany (\<lambda>r. ses_id r = ses_id s) (\<lambda>r. r\<lparr>ses_lastUsedAt := t r\<rparr>) (db_sessions d)\<rparr>"
proof -
  show "fst (authenticate hx rq d) =
    (if ses_revokedAt s = None \<and> hx_now hx < ses_expiresAt s
     then Inr \<lparr>ax_sessionId = ses_id s, ax_csrfTokenHash = ses_csrfTokenHash s, ax_userId = usr_id usr,
               ax_email = usr_email usr, ax_createdAt = usr_createdAt usr\<rparr>
     else Inl SESSION_INVALID)"
    using assms by (simp add: authenticate_def Let_def SESSION_INVALID_def not_less)
  have keep: "d = d\<lparr>db_sessions := updateMany (\<lambda>r. ses_id r = ses_id s) (\<lambda>r. r\<lparr>ses_lastUsedAt := ses_lastUsedAt r\<rparr>) (db_sessions d)\<rparr>"
    by (simp add: updateMany_def)
  show "\<exists>t. snd (authenticate hx rq d) =
      d\<lparr>db_sessions := updateMany (\<lambda>r. ses_id r = ses_id s) (\<lambda>r. r\<lparr>ses_lastUsedAt := t r\<rparr>) (db_sessions d)\<rparr>"
  proof (cases "ses_revokedAt s = None \<and> hx_now hx < ses_expiresAt s \<and> hx_now hx - ses_lastUsedAt s > LAST_USED_REFRESH_MS")
    case True
    then show ?thesis
      using assms by (intro exI [of _ "\<lambda>r. hx_now hx"]) (auto simp: authenticate_def Let_def)
  next
    case False
    then have "snd (authenticate hx rq d) = d"
      using assms by (auto simp: authenticate_def Let_def)
    with keep show ?thesis
      by (intro exI [of _ ses_lastUsedAt]) (rule trans)
  qed
qed


definition example_environment :: server_environment where
  "example_environment = \<lparr>env_NODE_ENV = ''test'', env_HOST = ''h'', env_PORT = 3000, env_DATABASE_URL = ''db'',
     env_REDIS_URL = None, env_REDIS_NAMESPACE = ''relaydock'', env_RELAY_ACK_TIMEOUT_MS = 2000, env_CRON_SECRET = None,
     env_SESSION_SECRET = ''s'', env_CREDENTIAL_SECRET = ''c'', env_ALLOWED_ORIGINS = [''http://localhost:5173''],
     env_ALLOW_REGISTRATION = True, env_TRUST_PROXY = False, env_SESSION_TTL_HOURS = 1,
     env_PAIRING_CODE_TTL_MINUTES = 10, env_JOB_RETENTION_DAYS = 30, env_MAX_RETAINED_OUTPUT_BYTES = 1000,
     env_HEARTBEAT_INTERVAL_MS = 15000, env_OFFLINE_AFTER_MS = 45000, env_REPOSITORY_VALIDATION_TIMEOUT_MS = 15000,
     env_LOG_LEVEL = ''info'', env_PUBLIC_URL = None, env_GOOGLE_CLIENT_ID = None, env_GOOGLE_CLIENT_SECRET = None,
     env_GOOGLE_ALLOWED_EMAIL_DOMAINS = None, env_VAPID_PUBLIC_KEY = None, env_VAPID_PRIVATE_KEY = None,
     env_VAPID_SUBJECT = None, env_cookieSecure = False, env_googleEnabled = False, env_pushEnabled = False\<rparr>"

text \<open>A library for examples: the keyed hash puts the key in front, a password's hash is the password.\<close>

definition example_lib :: lib where
  "example_lib = \<lparr>lib_hmac = (\<lambda>k t. k @ t), lib_hash = (\<lambda>salt p. p), lib_verify = (\<lambda>h p. Some (h = p)),
     lib_uuid = (\<lambda>s. True), lib_email = (\<lambda>s. True), lib_url = example_url, lib_number = example_number,
     lib_collate = length\<rparr>"

definition example_http :: "ms \<Rightarrow> http" where
  "example_http now = \<lparr>hx_lib = example_lib, hx_env = example_environment, hx_ctx = example_ctx\<lparr>cx_now := now\<rparr>,
     hx_id = (\<lambda>n. replicate n (CHR ''i'')), hx_bytes = (\<lambda>n. replicate 32 n)\<rparr>"

definition example_request :: request where
  "example_request = \<lparr>rq_id = ''q'', rq_ip = ''127.0.0.1'', rq_headers = [], rq_cookies = [], rq_params = [], rq_query = [],
     rq_body = None, rq_auth = None\<rparr>"

definition example_user :: "ident \<Rightarrow> user" where
  "example_user i = \<lparr>usr_id = i, usr_email = i, usr_passwordHash = Some ''p'', usr_googleSub = None, usr_createdAt = 0, usr_updatedAt = 0\<rparr>"


subsection \<open>What maintenance removes\<close>

lemma find_deleteMany_key:
  assumes "distinct (map key rows)"
  shows "List.find (\<lambda>r. key r = k) (deleteMany P rows) =
    (case List.find (\<lambda>r. key r = k) rows of None \<Rightarrow> None | Some r \<Rightarrow> if P r then None else Some r)"
proof -
  have none: "List.find (\<lambda>r. key r = key a) rows = None" if "key a \<notin> key ` set rows" for a rows
    using that by (auto simp: find_None_iff_all image_iff)
  show ?thesis
    using assms by (induction rows) (auto simp: none)
qed

definition references_ok :: "db \<Rightarrow> bool" where
  "references_ok d \<longleftrightarrow> (\<forall>c \<in> set (db_chunks d). \<exists>r \<in> set (db_jobs d). job_id r = ch_jobId c)"

lemma delete_jobs_references: "references_ok d \<Longrightarrow> references_ok (delete_jobs P d)"
  by (fastforce simp: references_ok_def delete_jobs_def)

lemma delete_jobs_chunks_of:
  assumes "jobs_keyed d" and "r \<in> set (db_jobs d)" and "\<not> P r"
  shows "chunks_of (job_id r) (db_chunks (delete_jobs P d)) = chunks_of (job_id r) (db_chunks d)"
proof -
  have "\<not> (\<exists>q \<in> set (db_jobs d). P q \<and> job_id q = job_id r)"
    using assms by (metis findJob_unique option.inject)
  then show ?thesis
    by (auto simp: delete_jobs_def deleteMany_def chunks_of_def intro!: arg_cong [where f = "sort_key ch_sequence"] filter_cong)
qed

text \<open>
  C25. The retention clean-up takes nothing that is still in use. After it, at every later time, each
  request is authenticated with the same outcome as without it, each pairing code is as usable as
  before, every unfinished job keeps its row and all of its output, and no output is left without
  its job.
\<close>

theorem cleanup_spares_live:
  assumes keys: "distinct (map ses_tokenHash (db_sessions d))" "distinct (map pc_codeHash (db_pairingCodes d))" "jobs_keyed d"
    and refs: "references_ok d" and clean: "cleanup env now d = (counts, d')"
  shows "(now \<le> hx_now hx \<longrightarrow> fst (authenticate hx rq d') = fst (authenticate hx rq d)) \<and>
    (now \<le> t \<longrightarrow>
      (\<exists>c. List.find (\<lambda>r. pc_codeHash r = h) (db_pairingCodes d') = Some c \<and> isPairingCodeUsable (pc_expiresAt c) (pc_usedAt c) t) =
      (\<exists>c. List.find (\<lambda>r. pc_codeHash r = h) (db_pairingCodes d) = Some c \<and> isPairingCodeUsable (pc_expiresAt c) (pc_usedAt c) t)) \<and>
    (\<forall>r \<in> set (db_jobs d). \<not> isTerminalJobStatus (job_status r) \<longrightarrow>
      r \<in> set (db_jobs d') \<and> chunks_of (job_id r) (db_chunks d') = chunks_of (job_id r) (db_chunks d)) \<and>
    references_ok d'"
proof -
  obtain oldJob oldSession oldCode where d': "d' = (delete_jobs oldJob d)\<lparr>db_sessions := deleteMany oldSession (db_sessions d),
      db_pairingCodes := deleteMany oldCode (db_pairingCodes d)\<rparr>"
    and job: "\<And>r. oldJob r \<Longrightarrow> isTerminalJobStatus (job_status r)"
    and session: "\<And>r. oldSession r \<Longrightarrow> ses_revokedAt r = None \<Longrightarrow> ses_expiresAt r < now"
    and code: "\<And>r. oldCode r \<Longrightarrow> pc_usedAt r = None \<Longrightarrow> pc_expiresAt r < now"
    using clean by (force simp: cleanup_def Let_def isTerminalJobStatus_def split: option.splits)
  have users: "findUser u d' = findUser u d" and sessions: "db_sessions d' = deleteMany oldSession (db_sessions d)" for u
    by (simp_all add: d' findUser_def delete_jobs_def)
  have "fst (authenticate hx rq d') = fst (authenticate hx rq d)" if "now \<le> hx_now hx"
    using that by (auto dest: session simp: authenticate_def Let_def users sessions find_deleteMany_key [OF keys(1)] split: option.splits)
  moreover have "(\<exists>c. List.find (\<lambda>r. pc_codeHash r = h) (db_pairingCodes d') = Some c \<and> isPairingCodeUsable (pc_expiresAt c) (pc_usedAt c) t) =
      (\<exists>c. List.find (\<lambda>r. pc_codeHash r = h) (db_pairingCodes d) = Some c \<and> isPairingCodeUsable (pc_expiresAt c) (pc_usedAt c) t)"
    if "now \<le> t"
    using that by (auto dest: code simp: d' find_deleteMany_key [OF keys(2)] isPairingCodeUsable_def split: option.splits)
  moreover have "r \<in> set (db_jobs d') \<and> chunks_of (job_id r) (db_chunks d') = chunks_of (job_id r) (db_chunks d)"
    if "r \<in> set (db_jobs d)" "\<not> isTerminalJobStatus (job_status r)" for r
    using that job delete_jobs_chunks_of [OF keys(3)] by (auto simp: d') (auto simp: delete_jobs_def)
  moreover have "references_ok d'"
    using delete_jobs_references [OF refs, of oldJob] by (simp add: d' references_ok_def)
  ultimately show ?thesis by blast
qed

theorem cleanup_spares_live_witness:
  "example_job ''j'' ''u'' ''d'' Running \<in> set (db_jobs (snd (cleanup example_environment 1000 (example_db [example_job ''j'' ''u'' ''d'' Running]))))"
proof -
  let ?d = "example_db [example_job ''j'' ''u'' ''d'' Running]"
  have "distinct (map ses_tokenHash (db_sessions ?d))" "distinct (map pc_codeHash (db_pairingCodes ?d))" "jobs_keyed ?d" "references_ok ?d"
    by (simp_all add: example_defs jobs_keyed_def references_ok_def)
  from cleanup_spares_live [OF this, of example_environment 1000 _ _ "example_http 2000" example_request 0 "''h''"]
  show ?thesis
    by (cases "cleanup example_environment 1000 ?d") (simp add: example_db_def example_job_def isTerminal_simps)
qed

end
