(* ===== verification/Routes.thy ===== *)
theory Routes
  imports Services
begin

section \<open>What the HTTP routes share\<close>

text \<open>
  The guards that run before a route (\<open>app.ts\<close>), the serializers of rows (\<open>lib/serializers.ts\<close>),
  creation of rows under a unique key, and the request to an agent to validate a path.
\<close>

type_synonym outcome = "(js_error + response) \<times> server"

definition fail :: "js_error \<Rightarrow> server \<Rightarrow> outcome" where
  "fail e sv = (Inl e, sv)"

definition reply :: "response \<Rightarrow> server \<Rightarrow> outcome" where
  "reply r sv = (Inr r, sv)"

lemmas outcome_simps [simp] = fail_def reply_def

subsection \<open>Guards\<close>

text \<open>The \<open>onRequest\<close> hook: the origin of a browser's request; \<open>path\<close> is the URL up to its query.\<close>

definition origin_guard :: "server_environment \<Rightarrow> string \<Rightarrow> request \<Rightarrow> js_error option" where
  "origin_guard env path rq =
     (if path = ''/api/auth/google/callback'' then None
      else (case header rq ''origin'' of
              Some origin \<Rightarrow>
                if origin \<notin> set (env_ALLOWED_ORIGINS env)
                then Some (AppError 403 ''ORIGIN_FORBIDDEN'' ''This browser origin is not allowed.'') else None
            | None \<Rightarrow>
                if header rq ''sec-fetch-site'' = Some ''cross-site''
                then Some (AppError 403 ''ORIGIN_FORBIDDEN'' ''Cross-site browser requests are not allowed.'') else None))"

definition requireAuth :: "http \<Rightarrow> request \<Rightarrow> (request \<Rightarrow> server \<Rightarrow> outcome) \<Rightarrow> server \<Rightarrow> outcome" where
  "requireAuth hx rq k sv =
     (case authenticate hx rq (sdb sv) of
        (Inl e, d) \<Rightarrow> fail e (on_db (\<lambda>_. d) sv)
      | (Inr a, d) \<Rightarrow> k (rq\<lparr>rq_auth := Some a\<rparr>) (on_db (\<lambda>_. d) sv))"

definition requireAuthCsrf :: "http \<Rightarrow> request \<Rightarrow> (request \<Rightarrow> server \<Rightarrow> outcome) \<Rightarrow> server \<Rightarrow> outcome" where
  "requireAuthCsrf hx rq k =
     requireAuth hx rq (\<lambda>rq sv. case requireCsrf hx rq of Some e \<Rightarrow> fail e sv | None \<Rightarrow> k rq sv)"

text \<open>\<open>userId\<close> and \<open>ownerId\<close> of the routes.\<close>

definition with_owner :: "request \<Rightarrow> (ident \<Rightarrow> server \<Rightarrow> outcome) \<Rightarrow> server \<Rightarrow> outcome" where
  "with_owner rq k sv =
     (case rq_auth rq of
        None \<Rightarrow> fail (AppError 401 ''AUTHENTICATION_REQUIRED'' ''Sign in.'') sv
      | Some a \<Rightarrow> k (ax_userId a) sv)"

text \<open>A schema's \<open>parse\<close>, which throws when the value does not match.\<close>

definition with_parsed :: "'a option \<Rightarrow> ('a \<Rightarrow> server \<Rightarrow> outcome) \<Rightarrow> server \<Rightarrow> outcome" where
  "with_parsed p k sv = (case p of None \<Rightarrow> fail ZodError sv | Some x \<Rightarrow> k x sv)"

definition uuid_field :: "lib \<Rightarrow> string \<Rightarrow> properties \<Rightarrow> string option" where
  "uuid_field l name ps = zs_field name (zs_refine (lib_uuid l) zs_string) ps"

definition audited :: "http \<Rightarrow> nat \<Rightarrow> request \<Rightarrow> string \<Rightarrow> ident option \<Rightarrow> ident option \<Rightarrow> json option \<Rightarrow> db \<Rightarrow> db" where
  "audited hx n rq action user device metadata d =
     audit_record (hx_id hx n) (hx_now hx) rq
       \<lparr>ai_action = action, ai_userId = user, ai_deviceId = device, ai_metadata = metadata\<rparr> d"

subsection \<open>Rows under a unique key\<close>

definition createUnique :: "('r \<Rightarrow> 'k) \<Rightarrow> 'r \<Rightarrow> 'r list \<Rightarrow> js_error + 'r list" where
  "createUnique key r rows = (if key r \<in> key ` set rows then Inl (PrismaError ''P2002'') else Inr (rows @ [r]))"

lemma find_appended_key:
  assumes "k \<notin> key ` set rows" and "key x = k"
  shows "List.find (\<lambda>r. key r = k) (rows @ [x]) = Some x"
  using assms by (subst find_appended) (auto simp: image_iff)

lemma countWhere_unique:
  assumes "distinct (map key rows)" and "r \<in> set rows" and "\<And>q. P q \<longleftrightarrow> key q = key r \<and> Q q" and "Q r"
  shows "countWhere P rows = 1"
proof -
  have "{q. P q} \<inter> set rows = {r}"
    using assms by (auto simp: distinct_map inj_on_def)
  then show ?thesis
    using assms(1) distinct_length_filter [of rows P] by (simp add: countWhere_def distinct_map)
qed

lemma countWhere_none: "\<forall>r \<in> set rows. \<not> P r \<Longrightarrow> countWhere P rows = 0"
  by (simp add: countWhere_def filter_empty_conv)

lemma countWhere_append: "countWhere P (xs @ ys) = countWhere P xs + countWhere P ys"
  by (simp add: countWhere_def)

lemma countWhere_delete_one:
  assumes "distinct (map key rows)" and "r \<in> set rows" and "P r"
  shows "countWhere P rows = Suc (countWhere P (deleteMany (\<lambda>q. key q = key r \<and> P q) rows))"
proof -
  have "countWhere P rows = countWhere (\<lambda>q. key q = key r \<and> P q) rows + countWhere P (deleteMany (\<lambda>q. key q = key r \<and> P q) rows)"
    by (induction rows) (auto simp: countWhere_def)
  then show ?thesis
    using countWhere_unique [OF assms(1,2), of "\<lambda>q. key q = key r \<and> P q" P] assms(3) by simp
qed

text \<open>An update whose new key another row has fails.\<close>

definition updateKeyed :: "('r \<Rightarrow> ident) \<Rightarrow> ('r \<Rightarrow> 'k) \<Rightarrow> ident \<Rightarrow> ('r \<Rightarrow> 'r) \<Rightarrow> 'r list \<Rightarrow> (js_error + 'r) \<times> 'r list" where
  "updateKeyed ident key i f rows =
     (case List.find (\<lambda>r. ident r = i) rows of
        None \<Rightarrow> (Inl (PrismaError ''P2025''), rows)
      | Some r \<Rightarrow>
          if \<exists>q \<in> set rows. ident q \<noteq> i \<and> key q = key (f r)
          then (Inl (PrismaError ''P2002''), rows)
          else (Inr (f r), updateMany (\<lambda>r. ident r = i) f rows))"

subsection \<open>Serializers\<close>

definition timestamp :: "ms \<Rightarrow> json" where
  "timestamp t = JDate t"

text \<open>\<open>stringArraySchema\<close> and \<open>jsonStringArray\<close>; the column holds an array of strings.\<close>

definition jsonStringArray :: "string list \<Rightarrow> string list option" where
  "jsonStringArray xs = (if length xs \<le> 100 then Some xs else None)"

definition serializeUser :: "ident \<Rightarrow> string \<Rightarrow> ms \<Rightarrow> json" where
  "serializeUser i email createdAt = JObj [(''id'', JStr i), (''email'', JStr email), (''createdAt'', timestamp createdAt)]"

definition serializeDevice :: "nat option \<Rightarrow> device \<Rightarrow> json" where
  "serializeDevice repositoryCount dev =
     JObj ([(''id'', JStr (dev_id dev)), (''name'', JStr (dev_name dev)), (''platform'', JStr (dev_platform dev)),
       (''architecture'', JStr (dev_architecture dev)), (''agentVersion'', JStr (dev_agentVersion dev)),
       (''status'', JStr (device_status_name (dev_status dev))),
       (''lastSeenAt'', timestamp (case dev_lastSeenAt dev of None \<Rightarrow> dev_createdAt dev | Some t \<Rightarrow> t)),
       (''createdAt'', timestamp (dev_createdAt dev)), (''updatedAt'', timestamp (dev_updatedAt dev))] @
      (case repositoryCount of None \<Rightarrow> [] | Some n \<Rightarrow> [(''repositoryCount'', JNum (int n))]))"

definition serializeRepository :: "device option \<Rightarrow> repository \<Rightarrow> json option" where
  "serializeRepository dev r = do {
     args \<leftarrow> jsonStringArray (repo_shellArgs r);
     names \<leftarrow> jsonStringArray (repo_inheritedEnvironment r);
     Some (JObj ([(''id'', JStr (repo_id r)), (''deviceId'', JStr (repo_deviceId r)), (''name'', JStr (repo_name r)),
       (''absolutePath'', JStr (repo_absolutePath r)), (''description'', nullable JStr (repo_description r)),
       (''enabled'', JBool (repo_enabled r)), (''allowCustomCommands'', JBool (repo_allowCustomCommands r)),
       (''shell'', JStr (repo_shell r)), (''shellArgs'', JArr (map JStr args)),
       (''inheritedEnvironment'', JArr (map JStr names))] @
       (case repo_isGitRepository r of None \<Rightarrow> [] | Some b \<Rightarrow> [(''isGitRepository'', JBool b)]) @
       [(''branch'', nullable JStr (repo_branch r)), (''createdAt'', timestamp (repo_createdAt r)),
        (''updatedAt'', timestamp (repo_updatedAt r))] @
       (case dev of None \<Rightarrow> []
        | Some dv \<Rightarrow> [(''device'', JObj [(''id'', JStr (dev_id dv)), (''name'', JStr (dev_name dv)),
                      (''status'', JStr (device_status_name (dev_status dv)))])])))
   }"

definition serializeAction :: "action \<Rightarrow> json" where
  "serializeAction a =
     JObj [(''id'', JStr (act_id a)), (''repositoryId'', JStr (act_repositoryId a)), (''name'', JStr (act_name a)),
       (''command'', JStr (act_command a)), (''workingDirectory'', JStr (act_workingDirectory a)),
       (''interactive'', JBool (act_interactive a)), (''persistent'', JBool (act_persistent a)),
       (''confirmationRequired'', JBool (act_confirmationRequired a)), (''createdAt'', timestamp (act_createdAt a)),
       (''updatedAt'', timestamp (act_updatedAt a))]"

definition serializeJob :: "(ident \<times> string) option \<Rightarrow> (ident \<times> string) option \<Rightarrow> job \<Rightarrow> json" where
  "serializeJob repo dev j =
     JObj ([(''id'', JStr (job_id j)), (''deviceId'', JStr (job_deviceId j)), (''repositoryId'', JStr (job_repositoryId j)),
       (''actionId'', nullable JStr (job_actionId j)), (''command'', JStr (job_command j)),
       (''workingDirectory'', JStr (job_workingDirectory j)), (''status'', JStr (status_name (job_status j))),
       (''interactive'', JBool (job_interactive j)), (''persistent'', JBool (job_persistent j)),
       (''exitCode'', nullable JNum (job_exitCode j)), (''startedAt'', nullable timestamp (job_startedAt j)),
       (''finishedAt'', nullable timestamp (job_finishedAt j)), (''createdAt'', timestamp (job_createdAt j)),
       (''updatedAt'', timestamp (job_updatedAt j))] @
       (case repo of None \<Rightarrow> [] | Some (i, n) \<Rightarrow> [(''repository'', JObj [(''id'', JStr i), (''name'', JStr n)])]) @
       (case dev of None \<Rightarrow> [] | Some (i, n) \<Rightarrow> [(''device'', JObj [(''id'', JStr i), (''name'', JStr n)])]))"

text \<open>The repository and the device a query includes with a job.\<close>

definition included_repository :: "db \<Rightarrow> job \<Rightarrow> (ident \<times> string) option" where
  "included_repository d j = map_option (\<lambda>r. (repo_id r, repo_name r)) (findRepository (job_repositoryId j) d)"

definition included_device :: "db \<Rightarrow> job \<Rightarrow> (ident \<times> string) option" where
  "included_device d j = map_option (\<lambda>r. (dev_id r, dev_name r)) (findDevice (job_deviceId j) d)"

text \<open>Answering with a repository, whose serialization can throw.\<close>

definition reply_repository :: "int \<Rightarrow> device option \<Rightarrow> repository \<Rightarrow> server \<Rightarrow> outcome" where
  "reply_repository status dev r sv =
     (case serializeRepository dev r of
        None \<Rightarrow> fail ZodError sv
      | Some j \<Rightarrow> reply (json_reply status (JObj [(''repository'', j)])) sv)"

subsection \<open>Operations of the hub and the broker on the server\<close>

definition server_isAgentOnline :: "http \<Rightarrow> ident \<Rightarrow> server \<Rightarrow> bool" where
  "server_isAgentOnline hx deviceId sv = isAgentOnline (hx_ctx hx) deviceId (sr_world sv)"

definition server_sendToAgent :: "http \<Rightarrow> ident \<Rightarrow> server_to_agent \<Rightarrow> server \<Rightarrow> bool \<times> server" where
  "server_sendToAgent hx deviceId message sv =
     (case sendToAgent (hx_ctx hx) deviceId message (sr_world sv) of (ok, w) \<Rightarrow> (ok, sv\<lparr>sr_world := w\<rparr>))"

definition server_closeDevice :: "http \<Rightarrow> ident \<Rightarrow> string \<Rightarrow> server \<Rightarrow> server" where
  "server_closeDevice hx deviceId reason sv =
     (let cx = hx_ctx hx in
      sv\<lparr>sr_world := on_hub (\<lambda>h. if hub_distributed h
            then closeDevice_routed deviceId reason (cx_owner cx) (cx_now cx) (cx_uuid cx) (cx_published cx) h
            else closeDevice deviceId reason h) (sr_world sv)\<rparr>)"

definition server_cancelForDevice :: "http \<Rightarrow> ident \<Rightarrow> server \<Rightarrow> server" where
  "server_cancelForDevice hx deviceId sv =
     (case cancelForDevice (cx_published (hx_ctx hx)) (hx_now hx) (cx_uuid (hx_ctx hx)) deviceId
             (sr_broker sv, w_hub (sr_world sv)) of
        (b, h) \<Rightarrow> sv\<lparr>sr_broker := b, sr_world := (sr_world sv)\<lparr>w_hub := h\<rparr>\<rparr>)"

text \<open>
  \<open>validations.request\<close> up to the promise it returns: the checks, the new entry with its timer, and the
  message to the agent, which drops the entry again when it is not sent.
\<close>

definition validation_request :: "http \<Rightarrow> ident \<Rightarrow> ident \<Rightarrow> string \<Rightarrow> server \<Rightarrow> (js_error + nat) \<times> server" where
  "validation_request hx deviceId repositoryId absolutePath sv =
     (case request_begin repositoryId (sr_broker sv) of
        Some e \<Rightarrow> (Inl e, sv)
      | None \<Rightarrow>
          (case request_finish deviceId repositoryId (server_isAgentOnline hx deviceId sv) (sr_broker sv) of
             (Inl e, b) \<Rightarrow> (Inl e, sv)
           | (Inr p, b) \<Rightarrow>
               (case server_sendToAgent hx deviceId (RepositoryValidate repositoryId absolutePath) (sv\<lparr>sr_broker := b\<rparr>) of
                  (True, sv) \<Rightarrow> (Inr p, sv)
                | (False, sv) \<Rightarrow> (Inr p, sv\<lparr>sr_broker := send_failed repositoryId (sr_broker sv)\<rparr>))))"

subsection \<open>Frames\<close>

lemma sendToAgent_db [simp]: "w_db (snd (sendToAgent cx i m w)) = w_db w"
  by (simp add: sendToAgent_def split: prod.splits)

lemma server_sendToAgent_db [simp]: "sdb (snd (server_sendToAgent hx i m sv)) = sdb sv"
  by (simp add: server_sendToAgent_def split: prod.splits) (metis sendToAgent_db snd_conv)

lemma server_send_local:
  assumes "\<not> hub_distributed (w_hub (sr_world sv))" and "server_sendToAgent hx i m sv = (sent, sv')"
  shows "(case agent_of i (w_hub (sr_world sv)) of
     None \<Rightarrow> \<not> sent
   | Some c \<Rightarrow> sent = (sk_readyState (hub_sockets (w_hub (sr_world sv)) (ac_socket c)) = OPEN_STATE) \<and>
       (sent \<longrightarrow> sk_sent (hub_sockets (w_hub (sr_world sv')) (ac_socket c)) =
         sk_sent (hub_sockets (w_hub (sr_world sv)) (ac_socket c)) @ [ToAgent m]))"
  using assms by (auto simp: server_sendToAgent_def sendToAgent_def sendToLocalAgent_def send_def send_on_def split: option.split if_splits)

lemma server_closeDevice_db [simp]: "sdb (server_closeDevice hx i r sv) = sdb sv"
  by (simp add: server_closeDevice_def Let_def on_hub_def)

lemma server_cancelForDevice_db [simp]: "sdb (server_cancelForDevice hx i sv) = sdb sv"
  by (simp add: server_cancelForDevice_def split: prod.splits)

lemma on_db_on_db [simp]: "on_db f (on_db g sv) = on_db (\<lambda>d. f (g d)) sv"
  by (simp add: on_db_def)

lemma on_db_hub [simp]: "w_hub (sr_world (on_db f sv)) = w_hub (sr_world sv)" "sr_broker (on_db f sv) = sr_broker sv"
  by (simp_all add: on_db_def)

lemma audited_tables [simp]:
  "db_users (audited hx n rq a u dv md d) = db_users d" "db_sessions (audited hx n rq a u dv md d) = db_sessions d"
  "db_devices (audited hx n rq a u dv md d) = db_devices d" "db_credentials (audited hx n rq a u dv md d) = db_credentials d"
  "db_pairingCodes (audited hx n rq a u dv md d) = db_pairingCodes d"
  "db_repositories (audited hx n rq a u dv md d) = db_repositories d" "db_actions (audited hx n rq a u dv md d) = db_actions d"
  "db_jobs (audited hx n rq a u dv md d) = db_jobs d" "db_chunks (audited hx n rq a u dv md d) = db_chunks d"
  "db_push (audited hx n rq a u dv md d) = db_push d" "db_nextId (audited hx n rq a u dv md d) = db_nextId d"
  by (simp_all add: audited_def audit_record_def)

end
