(* ===== verification/DeviceRoutes.thy ===== *)
theory DeviceRoutes
  imports Routes
begin

section \<open>Routes of devices\<close>

text \<open>
  \<open>routes/devices.ts\<close>: pairing codes and pairing, listing, renaming, revoking and deleting devices, and
  registering repositories. Pairing and registering have an await that other requests can come
  between: pairing looks its code up before the transaction that claims it, and registering waits for
  the agent. Both are two definitions; the whole route is their composition.
\<close>

record pairing_input =
  pi_code :: string
  pi_name :: string
  pi_platform :: string
  pi_architecture :: string
  pi_agentVersion :: string

definition pairingInputSchema :: "pairing_input schema" where
  "pairingInputSchema = zs_object (\<lambda>ps. do {
     code \<leftarrow> zs_field ''code'' (zs_text 8 20) ps;
     name \<leftarrow> zs_field ''name'' (zs_trimmed 1 100) ps;
     platform \<leftarrow> zs_field ''platform'' (zs_trimmed 1 50) ps;
     architecture \<leftarrow> zs_field ''architecture'' (zs_trimmed 1 50) ps;
     agentVersion \<leftarrow> zs_field ''agentVersion'' (zs_trimmed 1 50) ps;
     Some \<lparr>pi_code = code, pi_name = name, pi_platform = platform, pi_architecture = architecture,
           pi_agentVersion = agentVersion\<rparr>
   })"

definition renameInputSchema :: "string schema" where
  "renameInputSchema = zs_object (zs_field ''name'' (zs_trimmed 1 100))"

record repository_input =
  ri_name :: string
  ri_absolutePath :: string
  ri_description :: "string option"
  ri_allowCustomCommands :: bool
  ri_shell :: string
  ri_shellArgs :: "string list"
  ri_inheritedEnvironment :: "string list"

definition environmentNameSchema :: "string schema" where
  "environmentNameSchema = zs_refine environmentName zs_string"

definition default_environment :: "string list" where
  "default_environment = [''PATH'', ''HOME'', ''USER'', ''LOGNAME'', ''SHELL'', ''TMPDIR'', ''TERM'', ''LANG'']"

definition repositoryInputSchema :: "repository_input schema" where
  "repositoryInputSchema = zs_object (\<lambda>ps. do {
     name \<leftarrow> zs_field ''name'' (zs_trimmed 1 100) ps;
     absolutePath \<leftarrow> zs_field ''absolutePath'' (zs_trimmed 1 4096) ps;
     description \<leftarrow> zs_field ''description'' (zs_optional (zs_trimmed 0 1000)) ps;
     allowCustomCommands \<leftarrow> zs_field ''allowCustomCommands'' (zs_default False zs_boolean) ps;
     shell \<leftarrow> zs_field ''shell'' (zs_default ''/bin/zsh'' (zs_trimmed 1 4096)) ps;
     shellArgs \<leftarrow> zs_field ''shellArgs'' (zs_default [''-lc''] (zs_length 0 20 (zs_array (zs_text 0 1000)))) ps;
     inheritedEnvironment \<leftarrow> zs_field ''inheritedEnvironment''
       (zs_default default_environment (zs_length 0 100 (zs_array environmentNameSchema))) ps;
     Some \<lparr>ri_name = name, ri_absolutePath = absolutePath, ri_description = description,
           ri_allowCustomCommands = allowCustomCommands, ri_shell = shell, ri_shellArgs = shellArgs,
           ri_inheritedEnvironment = inheritedEnvironment\<rparr>
   })"

definition pathLooksAbsolute :: "string \<Rightarrow> bool" where
  "pathLooksAbsolute value \<longleftrightarrow> posix_isAbsolute value \<or> win32_isAbsolute value"

definition findUserDevice :: "ident \<Rightarrow> ident \<Rightarrow> db \<Rightarrow> device option" where
  "findUserDevice userId deviceId d = List.find (\<lambda>r. dev_id r = deviceId \<and> dev_userId r = userId) (db_devices d)"

definition DEVICE_NOT_FOUND :: js_error where
  "DEVICE_NOT_FOUND = AppError 404 ''DEVICE_NOT_FOUND'' ''Device not found.''"

definition repositories_of :: "ident \<Rightarrow> db \<Rightarrow> repository list" where
  "repositories_of deviceId d = filter (\<lambda>r. repo_deviceId r = deviceId) (db_repositories d)"

subsection \<open>Pairing\<close>

definition post_pairing_codes :: "http \<Rightarrow> request \<Rightarrow> server \<Rightarrow> outcome" where
  "post_pairing_codes hx rq =
     requireAuthCsrf hx rq (\<lambda>rq sv.
       let code = createPairingCode (hx_bytes hx 0);
           expiresAt = hx_now hx + env_PAIRING_CODE_TTL_MINUTES (hx_env hx) * 60000
       in with_owner rq (\<lambda>userId sv.
            case createUnique pc_codeHash
                   \<lparr>pc_id = hx_id hx 0, pc_userId = userId,
                    pc_codeHash = hashOpaqueToken (hx_lib hx) code (env_SESSION_SECRET (hx_env hx)),
                    pc_expiresAt = expiresAt, pc_usedAt = None, pc_createdAt = hx_now hx\<rparr> (db_pairingCodes (sdb sv)) of
              Inl e \<Rightarrow> fail e sv
            | Inr rows \<Rightarrow>
                reply (json_reply 201 (JObj [(''code'', JStr code), (''expiresAt'', JDate expiresAt)]))
                  (on_db (\<lambda>d. d\<lparr>db_pairingCodes := rows\<rparr>) sv)) sv)"

definition PAIRING_CODE_INVALID :: js_error where
  "PAIRING_CODE_INVALID = AppError 400 ''PAIRING_CODE_INVALID'' ''The pairing code is invalid or expired.''"

definition pair_lookup :: "http \<Rightarrow> pairing_input \<Rightarrow> db \<Rightarrow> js_error + pairing_code" where
  "pair_lookup hx input d =
     (let code = normalizePairingCode (pi_code input) in
      case (if code = '''' then None
            else List.find (\<lambda>r. pc_codeHash r = hashOpaqueToken (hx_lib hx) code (env_SESSION_SECRET (hx_env hx)))
                   (db_pairingCodes d)) of
        None \<Rightarrow> Inl PAIRING_CODE_INVALID
      | Some pairingCode \<Rightarrow>
          if isPairingCodeUsable (pc_expiresAt pairingCode) (pc_usedAt pairingCode) (hx_now hx)
          then Inr pairingCode else Inl PAIRING_CODE_INVALID)"

definition new_device :: "http \<Rightarrow> pairing_code \<Rightarrow> pairing_input \<Rightarrow> device" where
  "new_device hx pairingCode input =
     \<lparr>dev_id = hx_id hx 0, dev_userId = pc_userId pairingCode, dev_name = pi_name input,
      dev_platform = pi_platform input, dev_architecture = pi_architecture input,
      dev_agentVersion = pi_agentVersion input, dev_status = Offline, dev_lastSeenAt = None,
      dev_createdAt = hx_now hx, dev_updatedAt = hx_now hx\<rparr>"

text \<open>The transaction: claim the code, create the device and its credential, all or nothing.\<close>

definition pair_claim :: "http \<Rightarrow> pairing_code \<Rightarrow> pairing_input \<Rightarrow> string \<Rightarrow> db \<Rightarrow> (js_error + device) \<times> db" where
  "pair_claim hx pairingCode input credential d =
     (let claim = (\<lambda>r. pc_id r = pc_id pairingCode \<and> pc_usedAt r = None \<and> pc_expiresAt r > hx_now hx) in
      if countWhere claim (db_pairingCodes d) \<noteq> 1
      then (Inl (AppError 400 ''PAIRING_CODE_INVALID'' ''The pairing code was already used.''), d)
      else
        (let dev = new_device hx pairingCode input in
         case createUnique dev_id dev (db_devices d) of
           Inl e \<Rightarrow> (Inl e, d)
         | Inr devices \<Rightarrow>
             (case createUnique cred_credentialHash
                     \<lparr>cred_id = hx_id hx 1, cred_deviceId = dev_id dev,
                      cred_credentialHash = hashOpaqueToken (hx_lib hx) credential (env_CREDENTIAL_SECRET (hx_env hx)),
                      cred_createdAt = hx_now hx, cred_lastUsedAt = None, cred_revokedAt = None\<rparr> (db_credentials d) of
                Inl e \<Rightarrow> (Inl e, d)
              | Inr credentials \<Rightarrow>
                  (Inr dev, d\<lparr>db_pairingCodes := updateMany claim (\<lambda>r. r\<lparr>pc_usedAt := Some (hx_now hx)\<rparr>) (db_pairingCodes d),
                     db_devices := devices, db_credentials := credentials\<rparr>))))"

definition post_pair :: "http \<Rightarrow> request \<Rightarrow> server \<Rightarrow> outcome" where
  "post_pair hx rq =
     with_parsed (pairingInputSchema (rq_body rq)) (\<lambda>input sv.
       case pair_lookup hx input (sdb sv) of
         Inl e \<Rightarrow> fail e sv
       | Inr pairingCode \<Rightarrow>
           (let credential = createOpaqueToken ''rdc'' (hx_bytes hx 0) in
            case pair_claim hx pairingCode input credential (sdb sv) of
              (Inl e, d) \<Rightarrow> fail e (on_db (\<lambda>_. d) sv)
            | (Inr dev, d) \<Rightarrow>
                reply (json_reply 201 (JObj [(''deviceId'', JStr (dev_id dev)), (''credential'', JStr credential)]))
                  (on_db (\<lambda>_. audited hx 2 rq ''device.paired'' (Some (pc_userId pairingCode)) (Some (dev_id dev)) None d) sv)))"

subsection \<open>Reading and renaming\<close>

definition get_devices :: "http \<Rightarrow> request \<Rightarrow> server \<Rightarrow> outcome" where
  "get_devices hx rq =
     requireAuth hx rq (\<lambda>rq. with_owner rq (\<lambda>userId sv.
       let devices = sort_key (\<lambda>r. - dev_createdAt r) (filter (\<lambda>r. dev_userId r = userId) (db_devices (sdb sv)))
       in reply (json_reply 200 (JObj [(''devices'', JArr (map (\<lambda>r. serializeDevice
              (Some (length (repositories_of (dev_id r) (sdb sv)))) r) devices))])) sv))"

definition get_device :: "http \<Rightarrow> request \<Rightarrow> server \<Rightarrow> outcome" where
  "get_device hx rq =
     requireAuth hx rq (\<lambda>rq. with_parsed (uuid_field (hx_lib hx) ''deviceId'' (rq_params rq)) (\<lambda>deviceId.
       with_owner rq (\<lambda>userId sv.
         case findUserDevice userId deviceId (sdb sv) of
           None \<Rightarrow> fail DEVICE_NOT_FOUND sv
         | Some dev \<Rightarrow>
             (let d = sdb sv;
                  repositories = sort_key (\<lambda>r. lib_collate (hx_lib hx) (repo_name r)) (repositories_of deviceId d);
                  recentJobs = take 20 (sort_key (\<lambda>r. - job_createdAt r)
                    (filter (\<lambda>r. job_deviceId r = deviceId \<and> job_userId r = userId) (db_jobs d)))
              in case those (map (serializeRepository None) repositories) of
                   None \<Rightarrow> fail ZodError sv
                 | Some rs \<Rightarrow>
                     reply (json_reply 200 (JObj [
                       (''device'', serializeDevice (Some (length (repositories_of deviceId d))) dev),
                       (''repositories'', JArr rs),
                       (''recentJobs'', JArr (map (\<lambda>j. serializeJob (included_repository d j) None j) recentJobs))])) sv))))"

definition patch_device :: "http \<Rightarrow> request \<Rightarrow> server \<Rightarrow> outcome" where
  "patch_device hx rq =
     requireAuthCsrf hx rq (\<lambda>rq. with_parsed (uuid_field (hx_lib hx) ''deviceId'' (rq_params rq)) (\<lambda>deviceId.
       with_parsed (renameInputSchema (rq_body rq)) (\<lambda>name. with_owner rq (\<lambda>ownerId sv.
         case findUserDevice ownerId deviceId (sdb sv) of
           None \<Rightarrow> fail DEVICE_NOT_FOUND sv
         | Some existing \<Rightarrow>
             (case updateUnique (\<lambda>r. dev_id r = deviceId) (\<lambda>r. r\<lparr>dev_name := name, dev_updatedAt := hx_now hx\<rparr>)
                     (db_devices (sdb sv)) of
                (Inl e, rows) \<Rightarrow> fail e sv
              | (Inr dev, rows) \<Rightarrow>
                  (let sv = on_db (\<lambda>d. d\<lparr>db_devices := rows\<rparr>) sv;
                       sv = (if name \<noteq> dev_name existing
                             then on_db (audited hx 0 rq ''device.renamed'' (Some ownerId) (Some deviceId)
                                    (Some (JObj [(''deviceId'', JStr deviceId), (''previousName'', JStr (dev_name existing)),
                                       (''deviceName'', JStr name)]))) sv
                             else sv)
                   in reply (json_reply 200 (JObj [(''device'',
                        serializeDevice (Some (length (repositories_of deviceId (sdb sv)))) dev)])) sv))))))"

subsection \<open>Revoking\<close>

definition is_active :: "job_status \<Rightarrow> bool" where
  "is_active st \<longleftrightarrow> st \<in> {Queued, Dispatched, Running, WaitingForInput}"

definition request_cancellations :: "http \<Rightarrow> ident \<Rightarrow> job list \<Rightarrow> server \<Rightarrow> server" where
  "request_cancellations hx deviceId jobs sv =
     fold (\<lambda>job sv. snd (server_sendToAgent hx deviceId (JobCancel (job_id job)) sv)) jobs sv"

definition revoke_transaction :: "http \<Rightarrow> request \<Rightarrow> ident \<Rightarrow> device \<Rightarrow> db \<Rightarrow> (js_error + unit) \<times> db" where
  "revoke_transaction hx rq ownerId dev d =
     (case updateUnique (\<lambda>r. dev_id r = dev_id dev) (\<lambda>r. r\<lparr>dev_status := Revoked, dev_updatedAt := hx_now hx\<rparr>) (db_devices d) of
        (Inl e, rows) \<Rightarrow> (Inl e, d)
      | (Inr _, rows) \<Rightarrow>
          (Inr (), audited hx 0 rq ''device.revoked'' (Some ownerId) (Some (dev_id dev))
             (Some (JObj [(''deviceId'', JStr (dev_id dev)), (''deviceName'', JStr (dev_name dev))]))
             (d\<lparr>db_devices := rows,
                db_credentials := updateMany (\<lambda>r. cred_deviceId r = dev_id dev \<and> cred_revokedAt r = None)
                  (\<lambda>r. r\<lparr>cred_revokedAt := Some (hx_now hx)\<rparr>) (db_credentials d),
                db_jobs := updateMany (\<lambda>r. job_deviceId r = dev_id dev \<and> is_active (job_status r))
                  (\<lambda>r. r\<lparr>job_status := Disconnected, job_statusDetail := Some ''Device was revoked.'', job_updatedAt := hx_now hx\<rparr>)
                  (db_jobs d)\<rparr>)))"

definition announce_revocation :: "http \<Rightarrow> ident \<Rightarrow> device \<Rightarrow> job list \<Rightarrow> world \<Rightarrow> world" where
  "announce_revocation hx ownerId dev jobs w =
     fold (\<lambda>job. broadcast (hx_ctx hx) ownerId (job_id job) (ClientJobStatus (job_id job) Disconnected (Some (job_exitCode job)))) jobs
       (broadcast_device (hx_ctx hx) ownerId
         (ClientDeviceStatus (dev_id dev) Revoked (case dev_lastSeenAt dev of None \<Rightarrow> hx_now hx | Some t \<Rightarrow> t)) w)"

definition delete_device :: "http \<Rightarrow> request \<Rightarrow> server \<Rightarrow> outcome" where
  "delete_device hx rq =
     requireAuthCsrf hx rq (\<lambda>rq. with_parsed (uuid_field (hx_lib hx) ''deviceId'' (rq_params rq)) (\<lambda>deviceId.
       with_owner rq (\<lambda>ownerId sv.
         case findUserDevice ownerId deviceId (sdb sv) of
           None \<Rightarrow> fail DEVICE_NOT_FOUND sv
         | Some dev \<Rightarrow>
             (let affectedJobs = filter (\<lambda>r. job_deviceId r = deviceId \<and> is_active (job_status r)) (db_jobs (sdb sv));
                  sv = request_cancellations hx deviceId affectedJobs sv
              in case revoke_transaction hx rq ownerId dev (sdb sv) of
                   (Inl e, d) \<Rightarrow> fail e (on_db (\<lambda>_. d) sv)
                 | (Inr _, d) \<Rightarrow>
                     (let sv = on_db (\<lambda>_. d) sv;
                          sv = sv\<lparr>sr_world := announce_revocation hx ownerId dev affectedJobs (sr_world sv)\<rparr>;
                          sv = server_closeDevice hx deviceId ''device revoked'' sv;
                          sv = server_cancelForDevice hx deviceId sv
                      in reply no_content sv)))))"

subsection \<open>Deleting for good\<close>

text \<open>
  The transaction. Deleting jobs deletes their output; deleting repositories deletes their actions and
  is refused while a job refers to one; deleting the device deletes its credentials, is refused while
  a job or a repository refers to it, and clears it from the audit log.
\<close>

definition delete_repositories :: "(repository \<Rightarrow> bool) \<Rightarrow> db \<Rightarrow> js_error + db" where
  "delete_repositories P d =
     (let gone = repo_id ` {r \<in> set (db_repositories d). P r} in
      if \<exists>j \<in> set (db_jobs d). job_repositoryId j \<in> gone then Inl (PrismaError ''P2003'')
      else Inr (d\<lparr>db_repositories := deleteMany P (db_repositories d),
                  db_actions := deleteMany (\<lambda>a. act_repositoryId a \<in> gone) (db_actions d)\<rparr>))"

definition delete_device_row :: "ident \<Rightarrow> db \<Rightarrow> js_error + db" where
  "delete_device_row deviceId d =
     (if (\<exists>j \<in> set (db_jobs d). job_deviceId j = deviceId) \<or> (\<exists>r \<in> set (db_repositories d). repo_deviceId r = deviceId)
      then Inl (PrismaError ''P2003'')
      else Inr (d\<lparr>db_devices := deleteMany (\<lambda>r. dev_id r = deviceId) (db_devices d),
                  db_credentials := deleteMany (\<lambda>r. cred_deviceId r = deviceId) (db_credentials d),
                  db_audit := updateMany (\<lambda>r. aud_deviceId r = Some deviceId) (\<lambda>r. r\<lparr>aud_deviceId := None\<rparr>) (db_audit d)\<rparr>))"

definition purge_transaction :: "http \<Rightarrow> request \<Rightarrow> ident \<Rightarrow> ident \<Rightarrow> db \<Rightarrow> (js_error + unit) \<times> db" where
  "purge_transaction hx rq ownerId deviceId d =
     (case findUserDevice ownerId deviceId d of
        None \<Rightarrow> (Inl DEVICE_NOT_FOUND, d)
      | Some dev \<Rightarrow>
          if dev_status dev \<noteq> Revoked
          then (Inl (AppError 409 ''DEVICE_NOT_REVOKED'' ''Revoke the device before deleting it permanently.''), d)
          else (case delete_repositories (\<lambda>r. repo_deviceId r = deviceId) (delete_jobs (\<lambda>r. job_deviceId r = deviceId) d) of
                  Inl e \<Rightarrow> (Inl e, d)
                | Inr d1 \<Rightarrow>
                    (case delete_device_row deviceId d1 of
                       Inl e \<Rightarrow> (Inl e, d)
                     | Inr d2 \<Rightarrow>
                         (Inr (), audited hx 0 rq ''device.deleted'' (Some ownerId) None
                            (Some (JObj [(''deviceId'', JStr deviceId), (''deviceName'', JStr (dev_name dev))])) d2))))"

definition delete_device_permanent :: "http \<Rightarrow> request \<Rightarrow> server \<Rightarrow> outcome" where
  "delete_device_permanent hx rq =
     requireAuthCsrf hx rq (\<lambda>rq. with_parsed (uuid_field (hx_lib hx) ''deviceId'' (rq_params rq)) (\<lambda>deviceId.
       with_owner rq (\<lambda>ownerId sv.
         case purge_transaction hx rq ownerId deviceId (sdb sv) of
           (Inl e, d) \<Rightarrow> fail e (on_db (\<lambda>_. d) sv)
         | (Inr _, d) \<Rightarrow>
             reply no_content (server_cancelForDevice hx deviceId
               (server_closeDevice hx deviceId ''device deleted'' (on_db (\<lambda>_. d) sv))))))"

subsection \<open>Repositories of a device\<close>

definition get_device_repositories :: "http \<Rightarrow> request \<Rightarrow> server \<Rightarrow> outcome" where
  "get_device_repositories hx rq =
     requireAuth hx rq (\<lambda>rq. with_parsed (uuid_field (hx_lib hx) ''deviceId'' (rq_params rq)) (\<lambda>deviceId.
       with_owner rq (\<lambda>ownerId sv.
         case findUserDevice ownerId deviceId (sdb sv) of
           None \<Rightarrow> fail DEVICE_NOT_FOUND sv
         | Some dev \<Rightarrow>
             (case those (map (serializeRepository None)
                     (sort_key (\<lambda>r. lib_collate (hx_lib hx) (repo_name r)) (repositories_of deviceId (sdb sv)))) of
                None \<Rightarrow> fail ZodError sv
              | Some rs \<Rightarrow> reply (json_reply 200 (JObj [(''repositories'', JArr rs)])) sv))))"

definition new_repository :: "http \<Rightarrow> ident \<Rightarrow> repository_input \<Rightarrow> repository" where
  "new_repository hx deviceId input =
     \<lparr>repo_id = hx_id hx 0, repo_deviceId = deviceId, repo_name = ri_name input,
      repo_absolutePath = ri_absolutePath input, repo_description = ri_description input, repo_enabled = False,
      repo_allowCustomCommands = ri_allowCustomCommands input, repo_shell = ri_shell input,
      repo_shellArgs = ri_shellArgs input, repo_inheritedEnvironment = ri_inheritedEnvironment input,
      repo_isGitRepository = None, repo_branch = None, repo_repositoryRoot = None,
      repo_createdAt = hx_now hx, repo_updatedAt = hx_now hx\<rparr>"

definition repo_key :: "repository \<Rightarrow> ident \<times> string" where
  "repo_key r = (repo_deviceId r, repo_absolutePath r)"

text \<open>
  Up to the wait for the agent: the row is created, disabled, and the request is under way (the
  promise's number), or its failure is already known.
\<close>

definition register_begin ::
  "http \<Rightarrow> ident \<Rightarrow> ident \<Rightarrow> repository_input \<Rightarrow> server \<Rightarrow> (js_error + repository \<times> (js_error + nat)) \<times> server" where
  "register_begin hx ownerId deviceId input sv =
     (if \<not> pathLooksAbsolute (ri_absolutePath input)
      then (Inl (AppError 400 ''PATH_NOT_ABSOLUTE'' ''Repository path must be absolute.''), sv)
      else (case findUserDevice ownerId deviceId (sdb sv) of
        None \<Rightarrow> (Inl DEVICE_NOT_FOUND, sv)
      | Some dev \<Rightarrow>
          if dev_status dev = Revoked
          then (Inl (AppError 409 ''DEVICE_REVOKED'' ''A revoked device cannot register repositories.''), sv)
          else if \<not> server_isAgentOnline hx deviceId sv
          then (Inl (AppError 409 ''DEVICE_OFFLINE'' ''The device must be online to validate a path.''), sv)
          else
            (case createUnique repo_key (new_repository hx deviceId input) (db_repositories (sdb sv)) of
               Inl e \<Rightarrow> (Inl (AppError 409 ''REPOSITORY_EXISTS'' ''That path is already registered.''), sv)
             | Inr rows \<Rightarrow>
                 (case validation_request hx deviceId (hx_id hx 0) (ri_absolutePath input)
                         (on_db (\<lambda>d. d\<lparr>db_repositories := rows\<rparr>) sv) of
                    (promise, sv) \<Rightarrow> (Inr (new_repository hx deviceId input, promise), sv)))))"

text \<open>The update with the agent's result; an invalid result is an error.\<close>

definition validated_path :: "string \<Rightarrow> js_error + validation_result \<Rightarrow> js_error + validation_result \<times> string" where
  "validated_path message outcome =
     (case outcome of
        Inl e \<Rightarrow> Inl e
      | Inr v \<Rightarrow>
          (case (vr_valid v, vr_canonicalPath v) of
             (True, Some path) \<Rightarrow> Inr (v, path)
           | _ \<Rightarrow> Inl (AppError 422 ''REPOSITORY_INVALID'' (case vr_error v of None \<Rightarrow> message | Some m \<Rightarrow> m))))"

definition set_validated :: "ms \<Rightarrow> validation_result \<Rightarrow> string \<Rightarrow> bool \<Rightarrow> repository \<Rightarrow> repository" where
  "set_validated now v path enabled r =
     r\<lparr>repo_absolutePath := path, repo_repositoryRoot := Some (case vr_repositoryRoot v of None \<Rightarrow> path | Some root \<Rightarrow> root),
       repo_isGitRepository := Some (vr_isGitRepository v), repo_branch := vr_branch v, repo_enabled := enabled,
       repo_updatedAt := now\<rparr>"

text \<open>Once the promise is settled: enable the row, or remove it again and pass the error on.\<close>

definition register_finish ::
  "http \<Rightarrow> request \<Rightarrow> ident \<Rightarrow> ident \<Rightarrow> repository \<Rightarrow> js_error + validation_result \<Rightarrow> server \<Rightarrow> outcome" where
  "register_finish hx rq ownerId deviceId repository outcome sv =
     (let result = (case validated_path ''The agent could not validate this repository path.'' outcome of
            Inl e \<Rightarrow> (Inl e, db_repositories (sdb sv))
          | Inr (v, path) \<Rightarrow> updateKeyed repo_id repo_key (repo_id repository) (set_validated (hx_now hx) v path True)
                              (db_repositories (sdb sv)))
      in case result of
           (Inl e, rows) \<Rightarrow>
             (case delete_repositories (\<lambda>r. repo_id r = repo_id repository \<and> \<not> repo_enabled r) (sdb sv) of
                Inl e' \<Rightarrow> fail e' sv
              | Inr d \<Rightarrow> fail e (on_db (\<lambda>_. d) sv))
         | (Inr repository, rows) \<Rightarrow>
             reply_repository 201 None repository
               (on_db (\<lambda>d. audited hx 1 rq ''repository.created'' (Some ownerId) (Some deviceId)
                   (Some (JObj [(''repositoryId'', JStr (repo_id repository))])) (d\<lparr>db_repositories := rows\<rparr>)) sv))"

text \<open>The whole route, with the outcome the promise is settled with when it is waited for.\<close>

definition post_device_repositories :: "(nat \<Rightarrow> js_error + validation_result) \<Rightarrow> http \<Rightarrow> request \<Rightarrow> server \<Rightarrow> outcome" where
  "post_device_repositories answer hx rq =
     requireAuthCsrf hx rq (\<lambda>rq. with_parsed (uuid_field (hx_lib hx) ''deviceId'' (rq_params rq)) (\<lambda>deviceId.
       with_parsed (repositoryInputSchema (rq_body rq)) (\<lambda>input. with_owner rq (\<lambda>ownerId sv.
         case register_begin hx ownerId deviceId input sv of
           (Inl e, sv) \<Rightarrow> fail e sv
         | (Inr (repository, promise), sv) \<Rightarrow>
             register_finish hx rq ownerId deviceId repository
               (case promise of Inl e \<Rightarrow> Inl e | Inr p \<Rightarrow> answer p) sv))))"

subsection \<open>Pairing works once\<close>

text \<open>A code that is used up can be claimed by no one, not even by a request that has looked it up before.\<close>

lemma pair_claim_used:
  assumes "\<forall>r \<in> set (db_pairingCodes d). pc_id r = pc_id pc \<longrightarrow> pc_usedAt r \<noteq> None"
  shows "pair_claim hx pc input cred d = (Inl (AppError 400 ''PAIRING_CODE_INVALID'' ''The pairing code was already used.''), d)"
  using assms by (auto simp: pair_claim_def countWhere_none)

text \<open>
  C12. Pairing works exactly once. As long as a code has not expired and was not used, whatever form of it
  is typed, the request creates a device of the user who asked for the code, and an agent that sends
  the returned credential is authenticated as that device; after that the code is spent: later requests
  do not find it usable, and requests that had looked it up before the claim fail in the transaction and
  change nothing.
\<close>

theorem pairing_works_once:
  assumes row: "List.find (\<lambda>r. pc_codeHash r = hashOpaqueToken (hx_lib hx) code (env_SESSION_SECRET (hx_env hx))) (db_pairingCodes d) = Some pc"
    and usable: "pc_usedAt pc = None" "hx_now hx < pc_expiresAt pc"
    and typed: "normalizePairingCode (pi_code input) = code" "code \<noteq> ''''"
    and keys: "distinct (map pc_id (db_pairingCodes d))" "hx_id hx 0 \<notin> dev_id ` set (db_devices d)"
      "hashOpaqueToken (hx_lib hx) cred (env_CREDENTIAL_SECRET (hx_env hx)) \<notin> cred_credentialHash ` set (db_credentials d)"
    and cred: "cred = createOpaqueToken ''rdc'' (hx_bytes hx 0)" "length (hx_bytes hx 0) = 32"
  shows "\<exists>dev d1. pair_lookup hx input d = Inr pc \<and> pair_claim hx pc input cred d = (Inr dev, d1) \<and>
    dev_userId dev = pc_userId pc \<and> findDevice (dev_id dev) d1 = Some dev \<and>
    fst (authenticateAgent (\<lambda>t. hashOpaqueToken (hx_lib hx) t (env_CREDENTIAL_SECRET (hx_env hx))) now (Some (''Bearer '' @ cred)) d1) =
      Inr (hx_id hx 1, dev_id dev, pc_userId pc) \<and>
    (\<forall>hx1 input1 cred1. pair_claim hx1 pc input1 cred1 d1 =
      (Inl (AppError 400 ''PAIRING_CODE_INVALID'' ''The pairing code was already used.''), d1)) \<and>
    (\<forall>hx1. hx_lib hx1 = hx_lib hx \<and> hx_env hx1 = hx_env hx \<longrightarrow> pair_lookup hx1 input d1 = Inl PAIRING_CODE_INVALID)"
proof -
  let ?claim = "\<lambda>r. pc_id r = pc_id pc \<and> pc_usedAt r = None \<and> pc_expiresAt r > hx_now hx"
  let ?hash = "\<lambda>r. pc_codeHash r = hashOpaqueToken (hx_lib hx) code (env_SESSION_SECRET (hx_env hx))"
  let ?dev = "new_device hx pc input"
  let ?c = "\<lparr>cred_id = hx_id hx 1, cred_deviceId = dev_id ?dev,
     cred_credentialHash = hashOpaqueToken (hx_lib hx) cred (env_CREDENTIAL_SECRET (hx_env hx)),
     cred_createdAt = hx_now hx, cred_lastUsedAt = None, cred_revokedAt = None\<rparr>"
  define d1 where "d1 = d\<lparr>db_pairingCodes := updateMany ?claim (\<lambda>r. r\<lparr>pc_usedAt := Some (hx_now hx)\<rparr>) (db_pairingCodes d),
     db_devices := db_devices d @ [?dev], db_credentials := db_credentials d @ [?c]\<rparr>"
  have pc: "pc \<in> set (db_pairingCodes d)" "?claim pc"
    using row usable by (auto dest: find_SomeD)
  have one: "countWhere ?claim (db_pairingCodes d) = 1"
    by (rule countWhere_unique [OF keys(1) pc(1), where Q = "\<lambda>r. pc_usedAt r = None \<and> pc_expiresAt r > hx_now hx"]) (use pc in auto)
  have dev: "dev_id ?dev = hx_id hx 0" "dev_userId ?dev = pc_userId pc" "dev_status ?dev = Offline"
    by (simp_all add: new_device_def)
  have claimed: "pair_claim hx pc input cred d = (Inr ?dev, d1)"
    using one keys(2,3) by (simp add: pair_claim_def createUnique_def d1_def dev Let_def)
  have lookup: "pair_lookup hx input d = Inr pc"
    using typed row usable by (simp add: pair_lookup_def Let_def isPairingCodeUsable_def)
  have found: "findDevice (dev_id ?dev) d1 = Some ?dev"
    using find_appended_key [OF keys(2), of ?dev] by (simp add: findDevice_def d1_def dev)
  have "List.find (\<lambda>c. cred_credentialHash c = hashOpaqueToken (hx_lib hx) cred (env_CREDENTIAL_SECRET (hx_env hx))) (db_credentials d1) = Some ?c"
    using find_appended_key [OF keys(3), of ?c] by (simp add: d1_def)
  then have auth: "fst (authenticateAgent (\<lambda>t. hashOpaqueToken (hx_lib hx) t (env_CREDENTIAL_SECRET (hx_env hx))) now (Some (''Bearer '' @ cred)) d1) =
      Inr (hx_id hx 1, dev_id ?dev, pc_userId pc)"
    using found credential_is_bearer [OF cred(2)] by (simp add: authenticateAgent_def cred(1) dev)
  have spent: "\<forall>r \<in> set (db_pairingCodes d1). pc_id r = pc_id pc \<longrightarrow> pc_usedAt r \<noteq> None"
    using keys(1) pc by (auto simp: d1_def set_updateMany distinct_map inj_on_def)
  have "List.find ?hash (db_pairingCodes d1) = Some (pc\<lparr>pc_usedAt := Some (hx_now hx)\<rparr>)"
    using row pc by (simp add: d1_def find_updateMany)
  then have "pair_lookup hx1 input d1 = Inl PAIRING_CODE_INVALID" if "hx_lib hx1 = hx_lib hx" "hx_env hx1 = hx_env hx" for hx1
    using typed that by (simp add: pair_lookup_def Let_def isPairingCodeUsable_def)
  then show ?thesis
    using claimed lookup found auth dev pair_claim_used [OF spent] by blast
qed

definition example_pairing :: pairing_input where
  "example_pairing = \<lparr>pi_code = ''abcd9jz2'', pi_name = ''laptop'', pi_platform = ''linux'', pi_architecture = ''x64'', pi_agentVersion = ''1''\<rparr>"

definition example_code :: pairing_code where
  "example_code = \<lparr>pc_id = ''p'', pc_userId = ''u'', pc_codeHash = ''s'' @ ''ABCD-9JZ2'', pc_expiresAt = 600000, pc_usedAt = None, pc_createdAt = 0\<rparr>"

theorem pairing_works_once_witness:
  "pair_lookup (example_http 5) example_pairing (empty_db\<lparr>db_pairingCodes := [example_code]\<rparr>) = Inr example_code"
proof -
  let ?d = "empty_db\<lparr>db_pairingCodes := [example_code]\<rparr>" and ?hx = "example_http 5"
  have a: "List.find (\<lambda>r. pc_codeHash r = hashOpaqueToken (hx_lib ?hx) ''ABCD-9JZ2'' (env_SESSION_SECRET (hx_env ?hx))) (db_pairingCodes ?d) = Some example_code"
    "pc_usedAt example_code = None" "hx_now ?hx < pc_expiresAt example_code"
    by (simp_all add: example_http_def example_lib_def example_environment_def hashOpaqueToken_def example_code_def)
  have b: "normalizePairingCode (pi_code example_pairing) = ''ABCD-9JZ2''" "''ABCD-9JZ2'' \<noteq> ''''"
    by (simp_all add: example_pairing_def) code_simp
  have c: "distinct (map pc_id (db_pairingCodes ?d))" "hx_id ?hx 0 \<notin> dev_id ` set (db_devices ?d)"
    "hashOpaqueToken (hx_lib ?hx) (createOpaqueToken ''rdc'' (hx_bytes ?hx 0)) (env_CREDENTIAL_SECRET (hx_env ?hx)) \<notin>
       cred_credentialHash ` set (db_credentials ?d)" "length (hx_bytes ?hx 0) = 32"
    by (simp_all add: empty_db_def example_http_def)
  show ?thesis
    using pairing_works_once [OF a b c(1-3) refl c(4)] by blast
qed

end
