(* ===== verification/RepositoryRoutes.thy ===== *)
theory RepositoryRoutes
  imports DeviceRoutes
begin

section \<open>Routes of repositories and actions\<close>

text \<open>
  \<open>routes/repositories.ts\<close>. Changing a repository's path waits for the agent, like registering one;
  the route is in two parts, before and after that wait.
\<close>

record update_repository =
  ur_name :: "string option"
  ur_absolutePath :: "string option"
  ur_description :: "string option"
  ur_allowCustomCommands :: "bool option"
  ur_shell :: "string option"
  ur_shellArgs :: "string list option"
  ur_inheritedEnvironment :: "string list option"
  ur_enabled :: "bool option"

definition updateRepositorySchema :: "update_repository schema" where
  "updateRepositorySchema =
     zs_refine (\<lambda>u. ur_name u \<noteq> None \<or> ur_absolutePath u \<noteq> None \<or> ur_description u \<noteq> None \<or> ur_allowCustomCommands u \<noteq> None \<or>
         ur_shell u \<noteq> None \<or> ur_shellArgs u \<noteq> None \<or> ur_inheritedEnvironment u \<noteq> None \<or> ur_enabled u \<noteq> None)
       (zs_object (\<lambda>ps. do {
          name \<leftarrow> zs_field ''name'' (zs_optional (zs_trimmed 1 100)) ps;
          absolutePath \<leftarrow> zs_field ''absolutePath'' (zs_optional (zs_trimmed 1 4096)) ps;
          description \<leftarrow> zs_field ''description'' (zs_optional (zs_trimmed 0 1000)) ps;
          allowCustomCommands \<leftarrow> zs_field ''allowCustomCommands'' (zs_optional zs_boolean) ps;
          shell \<leftarrow> zs_field ''shell'' (zs_optional (zs_trimmed 1 4096)) ps;
          shellArgs \<leftarrow> zs_field ''shellArgs'' (zs_optional (zs_length 0 20 (zs_array (zs_text 0 1000)))) ps;
          inheritedEnvironment \<leftarrow> zs_field ''inheritedEnvironment''
            (zs_optional (zs_length 0 100 (zs_array environmentNameSchema))) ps;
          enabled \<leftarrow> zs_field ''enabled'' (zs_optional zs_boolean) ps;
          Some \<lparr>ur_name = name, ur_absolutePath = absolutePath, ur_description = description,
                ur_allowCustomCommands = allowCustomCommands, ur_shell = shell, ur_shellArgs = shellArgs,
                ur_inheritedEnvironment = inheritedEnvironment, ur_enabled = enabled\<rparr>
        }))"

record action_input =
  an_name :: string
  an_command :: string
  an_workingDirectory :: string
  an_interactive :: bool
  an_persistent :: bool
  an_confirmationRequired :: bool

definition actionSchema :: "action_input schema" where
  "actionSchema = zs_object (\<lambda>ps. do {
     name \<leftarrow> zs_field ''name'' (zs_trimmed 1 100) ps;
     command \<leftarrow> zs_field ''command'' (zs_text 1 MAX_COMMAND_BYTES) ps;
     workingDirectory \<leftarrow> zs_field ''workingDirectory'' (zs_default '''' (zs_text 0 4096)) ps;
     interactive \<leftarrow> zs_field ''interactive'' (zs_default False zs_boolean) ps;
     persistent \<leftarrow> zs_field ''persistent'' (zs_default False zs_boolean) ps;
     confirmationRequired \<leftarrow> zs_field ''confirmationRequired'' (zs_default False zs_boolean) ps;
     Some \<lparr>an_name = name, an_command = command, an_workingDirectory = workingDirectory, an_interactive = interactive,
           an_persistent = persistent, an_confirmationRequired = confirmationRequired\<rparr>
   })"

record update_action =
  ua_name :: "string option"
  ua_command :: "string option"
  ua_workingDirectory :: "string option"
  ua_interactive :: "bool option"
  ua_persistent :: "bool option"
  ua_confirmationRequired :: "bool option"

text \<open>\<open>partial()\<close>: a missing property stays missing; the defaults are not applied.\<close>

definition updateActionSchema :: "update_action schema" where
  "updateActionSchema =
     zs_refine (\<lambda>u. ua_name u \<noteq> None \<or> ua_command u \<noteq> None \<or> ua_workingDirectory u \<noteq> None \<or> ua_interactive u \<noteq> None \<or>
         ua_persistent u \<noteq> None \<or> ua_confirmationRequired u \<noteq> None)
       (zs_object (\<lambda>ps. do {
          name \<leftarrow> zs_field ''name'' (zs_optional (zs_trimmed 1 100)) ps;
          command \<leftarrow> zs_field ''command'' (zs_optional (zs_text 1 MAX_COMMAND_BYTES)) ps;
          workingDirectory \<leftarrow> zs_field ''workingDirectory'' (zs_optional (zs_text 0 4096)) ps;
          interactive \<leftarrow> zs_field ''interactive'' (zs_optional zs_boolean) ps;
          persistent \<leftarrow> zs_field ''persistent'' (zs_optional zs_boolean) ps;
          confirmationRequired \<leftarrow> zs_field ''confirmationRequired'' (zs_optional zs_boolean) ps;
          Some \<lparr>ua_name = name, ua_command = command, ua_workingDirectory = workingDirectory, ua_interactive = interactive,
                ua_persistent = persistent, ua_confirmationRequired = confirmationRequired\<rparr>
        }))"

definition validateCommand :: "string \<Rightarrow> js_error option" where
  "validateCommand command =
     (if utf8_length command > int MAX_COMMAND_BYTES
      then Some (AppError 400 ''COMMAND_TOO_LARGE'' ''The command exceeds the protocol limit.'') else None)"

definition workingDirectory :: "string option \<Rightarrow> js_error + string" where
  "workingDirectory value =
     (case normalizeWorkingDirectory value of
        Inl message \<Rightarrow> Inl (AppError 400 ''WORKING_DIRECTORY_INVALID'' message)
      | Inr directory \<Rightarrow> Inr directory)"

text \<open>The rows a user reaches: through the device, or through the repository's device.\<close>

definition owns_device :: "ident \<Rightarrow> ident \<Rightarrow> db \<Rightarrow> bool" where
  "owns_device userId deviceId d = (case findDevice deviceId d of None \<Rightarrow> False | Some dev \<Rightarrow> dev_userId dev = userId)"

definition findUserRepository :: "ident \<Rightarrow> ident \<Rightarrow> db \<Rightarrow> repository option" where
  "findUserRepository userId repositoryId d =
     List.find (\<lambda>r. repo_id r = repositoryId \<and> owns_device userId (repo_deviceId r) d) (db_repositories d)"

definition findUserAction :: "ident \<Rightarrow> ident \<Rightarrow> db \<Rightarrow> action option" where
  "findUserAction userId actionId d =
     List.find (\<lambda>a. act_id a = actionId \<and>
         (case findRepository (act_repositoryId a) d of None \<Rightarrow> False | Some r \<Rightarrow> owns_device userId (repo_deviceId r) d))
       (db_actions d)"

definition REPOSITORY_NOT_FOUND :: js_error where
  "REPOSITORY_NOT_FOUND = AppError 404 ''REPOSITORY_NOT_FOUND'' ''Repository not found.''"

definition ACTION_NOT_FOUND :: js_error where
  "ACTION_NOT_FOUND = AppError 404 ''ACTION_NOT_FOUND'' ''Action not found.''"

subsection \<open>Repositories\<close>

definition get_repository :: "http \<Rightarrow> request \<Rightarrow> server \<Rightarrow> outcome" where
  "get_repository hx rq =
     requireAuth hx rq (\<lambda>rq. with_parsed (uuid_field (hx_lib hx) ''repositoryId'' (rq_params rq)) (\<lambda>repositoryId.
       with_owner rq (\<lambda>userId sv.
         case findUserRepository userId repositoryId (sdb sv) of
           None \<Rightarrow> fail REPOSITORY_NOT_FOUND sv
         | Some r \<Rightarrow> reply_repository 200 (findDevice (repo_deviceId r) (sdb sv)) r sv)))"

definition path_changed :: "update_repository \<Rightarrow> repository \<Rightarrow> string option" where
  "path_changed input r =
     (case ur_absolutePath input of
        None \<Rightarrow> None
      | Some nextPath \<Rightarrow> if nextPath \<noteq> repo_absolutePath r then Some nextPath else None)"

definition set_enabled :: "ms \<Rightarrow> ident \<Rightarrow> bool \<Rightarrow> db \<Rightarrow> (js_error + repository) \<times> db" where
  "set_enabled now repositoryId enabled d =
     (case updateUnique (\<lambda>r. repo_id r = repositoryId) (\<lambda>r. r\<lparr>repo_enabled := enabled, repo_updatedAt := now\<rparr>) (db_repositories d) of
        (res, rows) \<Rightarrow> (res, d\<lparr>db_repositories := rows\<rparr>))"

text \<open>
  Up to the wait, when the path changes: the checks, the row is disabled meanwhile, and the request is
  sent. The result is the promise, or the failure that is already known.
\<close>

definition change_path_begin :: "http \<Rightarrow> repository \<Rightarrow> string \<Rightarrow> server \<Rightarrow> (js_error + (js_error + nat)) \<times> server" where
  "change_path_begin hx r nextPath sv =
     (if \<not> pathLooksAbsolute nextPath
      then (Inl (AppError 400 ''PATH_NOT_ABSOLUTE'' ''Repository path must be absolute.''), sv)
      else if \<not> server_isAgentOnline hx (repo_deviceId r) sv
      then (Inl (AppError 409 ''DEVICE_OFFLINE'' ''The device must be online to change a path.''), sv)
      else (case set_enabled (hx_now hx) (repo_id r) False (sdb sv) of
              (Inl e, d) \<Rightarrow> (Inl e, sv)
            | (Inr _, d) \<Rightarrow>
                (case validation_request hx (repo_deviceId r) (repo_id r) nextPath (on_db (\<lambda>_. d) sv) of
                   (promise, sv) \<Rightarrow> (Inr promise, sv))))"

text \<open>After the wait: the new path with the requested or the former state, or the former state and the error.\<close>

definition change_path_finish ::
  "http \<Rightarrow> repository \<Rightarrow> update_repository \<Rightarrow> js_error + validation_result \<Rightarrow> server \<Rightarrow> js_error option \<times> server" where
  "change_path_finish hx r input outcome sv =
     (let wasEnabled = repo_enabled r;
          enabled = (case ur_enabled input of None \<Rightarrow> wasEnabled | Some b \<Rightarrow> b);
          result = (case validated_path ''The agent could not validate this path.'' outcome of
            Inl e \<Rightarrow> (Inl e, db_repositories (sdb sv))
          | Inr (v, path) \<Rightarrow> updateKeyed repo_id repo_key (repo_id r) (set_validated (hx_now hx) v path enabled)
                              (db_repositories (sdb sv)))
      in case result of
           (Inr _, rows) \<Rightarrow> (None, on_db (\<lambda>d. d\<lparr>db_repositories := rows\<rparr>) sv)
         | (Inl e, rows) \<Rightarrow>
             (case set_enabled (hx_now hx) (repo_id r) wasEnabled (sdb sv) of
                (Inl e', d) \<Rightarrow> (Some e', sv)
              | (Inr _, d) \<Rightarrow>
                  (Some (if e = PrismaError ''P2002''
                         then AppError 409 ''REPOSITORY_EXISTS'' ''That path is already registered.'' else e),
                   on_db (\<lambda>_. d) sv)))"

definition apply_repository :: "ms \<Rightarrow> update_repository \<Rightarrow> bool \<Rightarrow> repository \<Rightarrow> repository" where
  "apply_repository now input pathChanged r =
     r\<lparr>repo_name := (case ur_name input of None \<Rightarrow> repo_name r | Some n \<Rightarrow> n),
       repo_description := (case ur_description input of None \<Rightarrow> repo_description r
                            | Some s \<Rightarrow> if s = '''' then None else Some s),
       repo_allowCustomCommands := (case ur_allowCustomCommands input of None \<Rightarrow> repo_allowCustomCommands r | Some b \<Rightarrow> b),
       repo_shell := (case ur_shell input of None \<Rightarrow> repo_shell r | Some s \<Rightarrow> s),
       repo_shellArgs := (case ur_shellArgs input of None \<Rightarrow> repo_shellArgs r | Some xs \<Rightarrow> xs),
       repo_inheritedEnvironment := (case ur_inheritedEnvironment input of None \<Rightarrow> repo_inheritedEnvironment r | Some xs \<Rightarrow> xs),
       repo_enabled := (case ur_enabled input of None \<Rightarrow> repo_enabled r | Some b \<Rightarrow> if pathChanged then repo_enabled r else b),
       repo_updatedAt := now\<rparr>"

definition update_fields :: "http \<Rightarrow> request \<Rightarrow> ident \<Rightarrow> ident \<Rightarrow> update_repository \<Rightarrow> bool \<Rightarrow> server \<Rightarrow> outcome" where
  "update_fields hx rq userId repositoryId input pathChanged sv =
     (case updateUnique (\<lambda>r. repo_id r = repositoryId) (apply_repository (hx_now hx) input pathChanged) (db_repositories (sdb sv)) of
        (Inl e, rows) \<Rightarrow> fail e sv
      | (Inr r, rows) \<Rightarrow>
          reply_repository 200 None r (on_db (\<lambda>d. audited hx 0 rq ''repository.updated'' (Some userId) (Some (repo_deviceId r))
            (Some (JObj [(''repositoryId'', JStr repositoryId)])) (d\<lparr>db_repositories := rows\<rparr>)) sv))"

text \<open>The whole route, with the outcome the promise is settled with when it is waited for.\<close>

definition patch_repository :: "(nat \<Rightarrow> js_error + validation_result) \<Rightarrow> http \<Rightarrow> request \<Rightarrow> server \<Rightarrow> outcome" where
  "patch_repository answer hx rq =
     requireAuthCsrf hx rq (\<lambda>rq. with_parsed (uuid_field (hx_lib hx) ''repositoryId'' (rq_params rq)) (\<lambda>repositoryId.
       with_parsed (updateRepositorySchema (rq_body rq)) (\<lambda>input. with_owner rq (\<lambda>userId sv.
         case findUserRepository userId repositoryId (sdb sv) of
           None \<Rightarrow> fail REPOSITORY_NOT_FOUND sv
         | Some r \<Rightarrow>
             (case path_changed input r of
                None \<Rightarrow> update_fields hx rq userId repositoryId input False sv
              | Some nextPath \<Rightarrow>
                  (case change_path_begin hx r nextPath sv of
                     (Inl e, sv) \<Rightarrow> fail e sv
                   | (Inr promise, sv) \<Rightarrow>
                       (case change_path_finish hx r input (case promise of Inl e \<Rightarrow> Inl e | Inr p \<Rightarrow> answer p) sv of
                          (Some e, sv) \<Rightarrow> fail e sv
                        | (None, sv) \<Rightarrow> update_fields hx rq userId repositoryId input True sv)))))))"

definition delete_repository :: "http \<Rightarrow> request \<Rightarrow> server \<Rightarrow> outcome" where
  "delete_repository hx rq =
     requireAuthCsrf hx rq (\<lambda>rq. with_parsed (uuid_field (hx_lib hx) ''repositoryId'' (rq_params rq)) (\<lambda>repositoryId.
       with_owner rq (\<lambda>userId sv.
         case findUserRepository userId repositoryId (sdb sv) of
           None \<Rightarrow> fail REPOSITORY_NOT_FOUND sv
         | Some r \<Rightarrow>
             if countWhere (\<lambda>j. job_repositoryId j = repositoryId) (db_jobs (sdb sv)) > 0
             then fail (AppError 409 ''REPOSITORY_HAS_HISTORY''
                    ''Disable this repository instead; job history still references it.'') sv
             else (case delete_repositories (\<lambda>q. repo_id q = repositoryId) (sdb sv) of
                     Inl e \<Rightarrow> fail e sv
                   | Inr d \<Rightarrow>
                       reply no_content (on_db (\<lambda>_. audited hx 0 rq ''repository.deleted'' (Some userId) (Some (repo_deviceId r))
                         (Some (JObj [(''repositoryId'', JStr repositoryId)])) d) sv)))))"

subsection \<open>Actions\<close>

definition get_actions :: "http \<Rightarrow> request \<Rightarrow> server \<Rightarrow> outcome" where
  "get_actions hx rq =
     requireAuth hx rq (\<lambda>rq. with_parsed (uuid_field (hx_lib hx) ''repositoryId'' (rq_params rq)) (\<lambda>repositoryId.
       with_owner rq (\<lambda>userId sv.
         case findUserRepository userId repositoryId (sdb sv) of
           None \<Rightarrow> fail REPOSITORY_NOT_FOUND sv
         | Some r \<Rightarrow>
             reply (json_reply 200 (JObj [(''actions'', JArr (map serializeAction
               (sort_key (\<lambda>a. lib_collate (hx_lib hx) (act_name a))
                 (filter (\<lambda>a. act_repositoryId a = repositoryId) (db_actions (sdb sv))))))])) sv)))"

definition new_action :: "http \<Rightarrow> ident \<Rightarrow> action_input \<Rightarrow> string \<Rightarrow> action" where
  "new_action hx repositoryId input directory =
     \<lparr>act_id = hx_id hx 0, act_repositoryId = repositoryId, act_name = an_name input, act_command = an_command input,
      act_workingDirectory = directory, act_interactive = an_interactive input, act_persistent = an_persistent input,
      act_confirmationRequired = an_confirmationRequired input, act_createdAt = hx_now hx, act_updatedAt = hx_now hx\<rparr>"

definition post_actions :: "http \<Rightarrow> request \<Rightarrow> server \<Rightarrow> outcome" where
  "post_actions hx rq =
     requireAuthCsrf hx rq (\<lambda>rq. with_parsed (uuid_field (hx_lib hx) ''repositoryId'' (rq_params rq)) (\<lambda>repositoryId.
       with_parsed (actionSchema (rq_body rq)) (\<lambda>input sv.
         case validateCommand (an_command input) of
           Some e \<Rightarrow> fail e sv
         | None \<Rightarrow>
             with_owner rq (\<lambda>userId sv.
               case findUserRepository userId repositoryId (sdb sv) of
                 None \<Rightarrow> fail REPOSITORY_NOT_FOUND sv
               | Some r \<Rightarrow>
                   (case workingDirectory (Some (an_workingDirectory input)) of
                      Inl e \<Rightarrow> fail e sv
                    | Inr directory \<Rightarrow>
                        (let a = new_action hx repositoryId input directory in
                         reply (json_reply 201 (JObj [(''action'', serializeAction a)]))
                           (on_db (\<lambda>d. audited hx 1 rq ''action.created'' (Some userId) (Some (repo_deviceId r))
                             (Some (JObj [(''repositoryId'', JStr repositoryId), (''actionId'', JStr (act_id a))]))
                             (d\<lparr>db_actions := db_actions d @ [a]\<rparr>)) sv)))) sv)))"

definition apply_action :: "ms \<Rightarrow> update_action \<Rightarrow> string option \<Rightarrow> action \<Rightarrow> action" where
  "apply_action now input directory a =
     a\<lparr>act_name := (case ua_name input of None \<Rightarrow> act_name a | Some n \<Rightarrow> n),
       act_command := (case ua_command input of None \<Rightarrow> act_command a | Some c \<Rightarrow> c),
       act_workingDirectory := (case directory of None \<Rightarrow> act_workingDirectory a | Some w \<Rightarrow> w),
       act_interactive := (case ua_interactive input of None \<Rightarrow> act_interactive a | Some b \<Rightarrow> b),
       act_persistent := (case ua_persistent input of None \<Rightarrow> act_persistent a | Some b \<Rightarrow> b),
       act_confirmationRequired := (case ua_confirmationRequired input of None \<Rightarrow> act_confirmationRequired a | Some b \<Rightarrow> b),
       act_updatedAt := now\<rparr>"

definition patch_action :: "http \<Rightarrow> request \<Rightarrow> server \<Rightarrow> outcome" where
  "patch_action hx rq =
     requireAuthCsrf hx rq (\<lambda>rq. with_parsed (uuid_field (hx_lib hx) ''actionId'' (rq_params rq)) (\<lambda>actionId.
       with_parsed (updateActionSchema (rq_body rq)) (\<lambda>input sv.
         case Option.bind (ua_command input) validateCommand of
           Some e \<Rightarrow> fail e sv
         | None \<Rightarrow>
             with_owner rq (\<lambda>userId sv.
               case findUserAction userId actionId (sdb sv) of
                 None \<Rightarrow> fail ACTION_NOT_FOUND sv
               | Some a \<Rightarrow>
                   (case (case ua_workingDirectory input of None \<Rightarrow> Inr None
                          | Some w \<Rightarrow> map_sum id Some (workingDirectory (Some w))) of
                      Inl e \<Rightarrow> fail e sv
                    | Inr directory \<Rightarrow>
                        (case updateUnique (\<lambda>r. act_id r = actionId) (apply_action (hx_now hx) input directory) (db_actions (sdb sv)) of
                           (Inl e, rows) \<Rightarrow> fail e sv
                         | (Inr updated, rows) \<Rightarrow>
                             reply (json_reply 200 (JObj [(''action'', serializeAction updated)]))
                               (on_db (\<lambda>d. d\<lparr>db_actions := rows\<rparr>) sv)))) sv)))"

text \<open>Deleting an action clears it from the jobs that ran it.\<close>

definition delete_action :: "http \<Rightarrow> request \<Rightarrow> server \<Rightarrow> outcome" where
  "delete_action hx rq =
     requireAuthCsrf hx rq (\<lambda>rq. with_parsed (uuid_field (hx_lib hx) ''actionId'' (rq_params rq)) (\<lambda>actionId.
       with_owner rq (\<lambda>userId sv.
         case findUserAction userId actionId (sdb sv) of
           None \<Rightarrow> fail ACTION_NOT_FOUND sv
         | Some a \<Rightarrow>
             reply no_content (on_db (\<lambda>d. d\<lparr>db_actions := deleteMany (\<lambda>r. act_id r = actionId) (db_actions d),
               db_jobs := updateMany (\<lambda>j. job_actionId j = Some actionId) (\<lambda>j. j\<lparr>job_actionId := None\<rparr>) (db_jobs d)\<rparr>) sv))))"

end
