(* ===== verification/Lockout.thy ===== *)
theory Lockout
  imports DeviceRoutes
begin

section \<open>What the agents' side may do to the tables\<close>

text \<open>
  The contract between the agents' route and everything else that lives in the database. The handlers
  of an agent write the tables of jobs, and device rows that are not revoked; an invariant that both
  kinds of write keep is kept by every message of every agent and by every disconnection. The
  revocation of a device is such an invariant.
\<close>

definition job_tables :: "db \<Rightarrow> db \<Rightarrow> bool" where
  "job_tables d d' \<longleftrightarrow> db_users d' = db_users d \<and> db_sessions d' = db_sessions d \<and> db_devices d' = db_devices d \<and>
     db_credentials d' = db_credentials d \<and> db_pairingCodes d' = db_pairingCodes d \<and>
     db_repositories d' = db_repositories d \<and> db_actions d' = db_actions d \<and> db_audit d' = db_audit d \<and>
     db_push d' = db_push d"

lemma job_tables_refl [simp]: "job_tables d d"
  by (simp add: job_tables_def)

lemma job_tables_trans: "job_tables d d' \<Longrightarrow> job_tables d' d'' \<Longrightarrow> job_tables d d''"
  by (simp add: job_tables_def)

lemma job_tables_updates [simp]:
  "job_tables d (d'\<lparr>db_jobs := js\<rparr>) = job_tables d d'" "job_tables d (d'\<lparr>db_chunks := cs\<rparr>) = job_tables d d'"
  "job_tables d (d'\<lparr>db_nextId := n\<rparr>) = job_tables d d'"
  by (simp_all add: job_tables_def)

lemma updateJob_tables [simp]: "job_tables d (snd (updateJob now j f d')) = job_tables d d'"
  by (auto simp: updateJob_def split: prod.split)

lemma updateJob_tablesD: "updateJob now j f d = (r, d') \<Longrightarrow> job_tables d d'"
  using updateJob_tables [of d now j f d] by simp

lemma persist_tables: "job_tables d (snd (persistChunks m now dv j cs d))"
proof -
  have "job_tables d (snd (persist_transaction m now job ncs d))" for job ncs
    by (auto simp: persist_transaction_def Let_def split: prod.split)
  then show ?thesis
    by (simp add: persistChunks_def Let_def case_prod_unfold split: option.split)
qed

lemma transition_tables: "transitionFromAgent cx dv j t det code w = (r, w') \<Longrightarrow> job_tables (w_db w) (w_db w')"
  by (auto simp: transitionFromAgent_def transition_write_def Let_def
      split: sum.splits transition_plan.splits prod.splits if_splits dest!: updateJob_tablesD)

lemma buffer_step_tables: "job_tables d (snd (buffer_step m (LinkRuns j now) (b, d)))"
  by (simp add: persist_tables split: list.split)

lemma run_links_tables: "job_tables (w_db w) (w_db (run_links m now j n w))"
proof (induction m now j n w rule: run_links.induct)
  case (2 m now j n w)
  have "job_tables (w_db w) (w_db (case buffer_step m (LinkRuns j now) (w_buffers w, w_db w) of (b, d) \<Rightarrow> w\<lparr>w_buffers := b, w_db := d\<rparr>))"
    using buffer_step_tables [of "w_db w" m j now "w_buffers w"] by (simp add: case_prod_unfold)
  with 2 show ?case
    by (simp only: run_links.simps) (rule job_tables_trans)
qed simp

lemma flush_tables: "job_tables (w_db w) (w_db (flush_and_wait m cx j w))"
  using run_links_tables [of "w\<lparr>w_buffers := b\<rparr>" for b]
  by (auto simp: flush_and_wait_def split: prod.split option.split)

lemma persistOutput_tables: "job_tables (w_db w) (w_db (snd (persistOutput m cx dv j cs w)))"
  using persist_tables [of "w_db w" m "cx_now cx" dv j cs]
  by (auto simp: persistOutput_def split: prod.split option.split)

subsection \<open>The contract\<close>

locale agent_contract =
  fixes I :: "db \<Rightarrow> bool"
  assumes keeps_job_tables: "job_tables d d' \<Longrightarrow> I d \<Longrightarrow> I d'"
    and keeps_device_update: "I d \<Longrightarrow> (\<And>r. dev_id (f r) = dev_id r) \<Longrightarrow> (\<And>r. P r \<Longrightarrow> dev_status r \<noteq> Revoked) \<Longrightarrow>
      I (d\<lparr>db_devices := updateMany P f (db_devices d)\<rparr>)"
begin

lemma connected_device:
  assumes "updateConnectedDevice cx s f w = (e, w')" and "I (w_db w)" and "\<And>r. dev_id (f r) = dev_id r"
  shows "I (w_db w')"
  using assms keeps_device_update [OF assms(2), of "\<lambda>r. (f r)\<lparr>dev_updatedAt := cx_now cx\<rparr>"
      "\<lambda>r. dev_id r = as_deviceId s \<and> dev_status r \<noteq> Revoked"]
  by (auto simp: updateConnectedDevice_def Let_def on_hub_def split: if_splits)

lemma transition: "transitionFromAgent cx dv j t det code w = (r, w') \<Longrightarrow> I (w_db w) \<Longrightarrow> I (w_db w')"
  using keeps_job_tables transition_tables by blast

lemma reconcile: "reconcile_jobs m cx s js w = (e, w') \<Longrightarrow> I (w_db w) \<Longrightarrow> I (w_db w')"
proof (induction m cx s js w arbitrary: e w' rule: reconcile_jobs.induct)
  case (2 m cx s job js w)
  then show ?case
    by (auto split: prod.splits sum.splits if_splits dest: transition)
qed simp

lemma hello:
  assumes "handle_hello m hb cx h s w = (e, s', w')" and "I (w_db w)"
  shows "I (w_db w')"
  using assms
  by (auto simp: handle_hello_def Let_def hub_attach_def broadcast_device_def on_hub_def
      split: if_splits prod.splits option.splits bool.splits dest!: sendToAgent_D
      elim!: connected_device reconcile)

lemma reported: "report_status cx s j t det w = (e, w') \<Longrightarrow> I (w_db w) \<Longrightarrow> I (w_db w')"
  by (auto simp: report_status_def split: option.splits prod.splits sum.splits dest: transition)

lemma finished:
  assumes "handle_finished m cx s j t det code ann w = (e, w')" and "I (w_db w)"
  shows "I (w_db w')"
proof -
  have "I (w_db (flush_and_wait m cx j w))"
    using keeps_job_tables [OF flush_tables assms(2)] .
  then show ?thesis
    using assms
    by (auto simp: handle_finished_def split: option.splits prod.splits sum.splits dest!: transition)
qed

lemma message:
  assumes "handle_agent m hb cx msg s sv = (e, s', sv')" and "I (sdb sv)"
  shows "I (sdb sv')"
proof (cases msg)
  case (AgentHello h)
  with assms show ?thesis by (auto split: prod.splits dest: hello)
next
  case (AgentHeartbeat i)
  obtain ok w where hb: "hub_heartbeat cx (as_deviceId s) (as_socket s) (sr_world sv) = (ok, w)"
    by fastforce
  then have "I (w_db w)"
    using assms(2) by (auto simp: hub_heartbeat_def split: option.splits prod.splits)
  with AgentHeartbeat assms hb show ?thesis
    by (cases ok) (auto split: if_splits prod.splits dest!: connected_device)
next
  case (AgentStatus i st det)
  with assms show ?thesis
    by (auto simp: Let_def broadcast_device_def on_hub_def split: if_splits prod.splits option.splits dest!: connected_device)
next
  case (JobBufferSync j cs)
  with assms keeps_job_tables [OF persistOutput_tables, of "sr_world sv" m cx "as_deviceId s" j cs] show ?thesis
    by (auto split: option.splits)
qed (use assms in \<open>auto simp: relayOutput_def Let_def split: prod.splits sum.splits dest: reported finished\<close>)

lemma frame: "agent_frame m hb cx raw s sv = (s', sv') \<Longrightarrow> I (sdb sv) \<Longrightarrow> I (sdb sv')"
  by (auto simp: agent_frame_def processMessage_def closeForError_def close_if_open_def on_hub_def Let_def
      split: raw.splits prod.splits option.splits if_splits dest: message)

lemma closed: "I (sdb sv) \<Longrightarrow> I (sdb (agent_close cx at s sv))"
proof -
  assume i: "I (sdb sv)"
  have det: "w_db w = sdb sv" if "hub_detach cx (as_deviceId s) (as_socket s) (sr_world sv) = (ok, w)" for ok w
    using that by (auto simp: hub_detach_def split: option.splits prod.splits)
  have dev: "I (w_db (disconnect_device cx at s w))" if "I (w_db w)" for w
    using that keeps_device_update [OF that,
        of "\<lambda>r. r\<lparr>dev_status := Offline, dev_lastSeenAt := Some at, dev_updatedAt := cx_now cx\<rparr>"
          "\<lambda>r. dev_id r = as_deviceId s \<and> dev_updatedAt r \<le> at \<and> dev_status r \<noteq> Revoked"]
    by (auto simp: disconnect_device_def Let_def broadcast_device_def on_hub_def split: option.splits)
  have ann: "w_db (announce_disconnected cx js w) = w_db w" for js w
    by (induction cx js w rule: announce_disconnected.induct) simp_all
  have jobs: "I (w_db (disconnect_jobs cx at s w))" if "I (w_db w)" for w
    by (rule keeps_job_tables [OF _ that]) (simp add: disconnect_jobs_def Let_def ann)
  show ?thesis
    using i by (auto simp: agent_close_def split: prod.splits bool.splits dest!: det intro!: jobs dev)
qed

end

text \<open>What agents do, one event after the other: frames on any of their connections, and closing.\<close>

datatype agent_event = Frame int ms ctx "agent_to_server raw" agent_session | Closed ctx ms agent_session

fun agent_step :: "agent_event \<Rightarrow> server \<Rightarrow> server" where
  "agent_step (Frame m hb cx raw s) sv = snd (agent_frame m hb cx raw s sv)"
| "agent_step (Closed cx at s) sv = agent_close cx at s sv"

definition agents_run :: "agent_event list \<Rightarrow> server \<Rightarrow> server" where
  "agents_run evs sv = fold agent_step evs sv"

context agent_contract
begin

lemma run: "I (sdb sv) \<Longrightarrow> I (sdb (agents_run evs sv))"
  unfolding agents_run_def
proof (induction evs arbitrary: sv)
  case (Cons ev evs)
  then have "I (sdb (agent_step ev sv))"
    by (cases ev) (auto intro: closed dest: frame [OF surjective_pairing])
  with Cons.IH show ?case by simp
qed simp

end

subsection \<open>Revocation\<close>

definition locked :: "ident \<Rightarrow> db \<Rightarrow> bool" where
  "locked i d \<longleftrightarrow> (\<forall>r \<in> set (db_devices d). dev_id r = i \<longrightarrow> dev_status r = Revoked)"

interpretation revocation: agent_contract "locked i"
  by unfold_locales (auto simp: locked_def job_tables_def set_updateMany)

lemma locked_out:
  assumes "locked i d"
  shows "fst (authenticateAgent hash now hdr d) \<noteq> Inr (c, i, u)"
  using assms by (auto simp: authenticateAgent_def locked_def findDevice_def split: option.splits dest: find_SomeD)

lemma revoke_transaction_D:
  assumes "revoke_transaction hx rq u dev d = (Inr x, d')"
  shows "locked (dev_id dev) d'" and "\<forall>r \<in> set (db_credentials d'). cred_deviceId r = dev_id dev \<longrightarrow> cred_revokedAt r \<noteq> None"
    and "\<forall>r \<in> set (db_jobs d'). job_deviceId r = dev_id dev \<longrightarrow> \<not> is_active (job_status r)"
  using assms by (auto simp: revoke_transaction_def updateUnique_def locked_def set_updateMany is_active_def split: option.splits)

lemma announce_revocation_db [simp]: "w_db (announce_revocation hx u dev js w) = w_db w"
proof -
  have "w_db (fold (\<lambda>job. broadcast (hx_ctx hx) u (job_id job) (ClientJobStatus (job_id job) Disconnected (Some (job_exitCode job)))) js w) = w_db w" for w
    by (induction js arbitrary: w) simp_all
  then show ?thesis
    by (simp add: announce_revocation_def broadcast_device_def on_hub_def)
qed

text \<open>What a successful request has gone through.\<close>

lemma guarded_D:
  assumes "requireAuthCsrf hx rq k sv = (Inr r, sv')"
  shows "\<exists>a d. authenticate hx rq (sdb sv) = (Inr a, d) \<and> requireCsrf hx (rq\<lparr>rq_auth := Some a\<rparr>) = None \<and>
    k (rq\<lparr>rq_auth := Some a\<rparr>) (on_db (\<lambda>_. d) sv) = (Inr r, sv')"
  using assms by (auto simp: requireAuthCsrf_def requireAuth_def split: prod.splits sum.splits option.splits)

lemma with_parsed_D: "with_parsed p k sv = (Inr r, sv') \<Longrightarrow> \<exists>x. p = Some x \<and> k x sv = (Inr r, sv')"
  by (auto simp: with_parsed_def split: option.splits)

lemma with_owner_D: "with_owner rq k sv = (Inr r, sv') \<Longrightarrow> \<exists>a. rq_auth rq = Some a \<and> k (ax_userId a) sv = (Inr r, sv')"
  by (auto simp: with_owner_def split: option.splits)

lemma delete_device_D:
  assumes "delete_device hx rq sv = (Inr r, sv')" and "uuid_field (hx_lib hx) ''deviceId'' (rq_params rq) = Some i"
  shows "\<exists>rq1 u dev d x. revoke_transaction hx rq1 u dev d = (Inr x, sdb sv') \<and> dev_id dev = i"
proof -
  obtain a d where 1: "with_parsed (uuid_field (hx_lib hx) ''deviceId'' (rq_params (rq\<lparr>rq_auth := Some a\<rparr>))) (\<lambda>deviceId.
       with_owner (rq\<lparr>rq_auth := Some a\<rparr>) (\<lambda>ownerId sv.
         case findUserDevice ownerId deviceId (sdb sv) of
           None \<Rightarrow> fail DEVICE_NOT_FOUND sv
         | Some dev \<Rightarrow>
             (let affectedJobs = filter (\<lambda>r. job_deviceId r = deviceId \<and> is_active (job_status r)) (db_jobs (sdb sv));
                  sv = request_cancellations hx deviceId affectedJobs sv
              in case revoke_transaction hx (rq\<lparr>rq_auth := Some a\<rparr>) ownerId dev (sdb sv) of
                   (Inl e, d) \<Rightarrow> fail e (on_db (\<lambda>_. d) sv)
                 | (Inr _, d) \<Rightarrow>
                     (let sv = on_db (\<lambda>_. d) sv;
                          sv = sv\<lparr>sr_world := announce_revocation hx ownerId dev affectedJobs (sr_world sv)\<rparr>;
                          sv = server_closeDevice hx deviceId ''device revoked'' sv;
                          sv = server_cancelForDevice hx deviceId sv
                      in reply no_content sv)))) (on_db (\<lambda>_. d) sv) = (Inr r, sv')"
    using guarded_D [OF assms(1) [unfolded delete_device_def]] by blast
  then show ?thesis
    using assms(2)
    by (auto dest!: with_parsed_D with_owner_D simp: Let_def findUserDevice_def split: option.splits prod.splits sum.splits)
      (fastforce dest: find_SomeD)
qed


text \<open>A signed-in request of the example's user, and a server with a device of that user.\<close>

definition signed_in :: "request \<Rightarrow> request" where
  "signed_in rq = rq\<lparr>rq_cookies := [(SESSION_COOKIE, ''t''), (CSRF_COOKIE, ''x'')], rq_headers := [(CSRF_HEADER, [''x''])]\<rparr>"

definition example_session_row :: session where
  "example_session_row = \<lparr>ses_id = ''s1'', ses_userId = ''u'', ses_tokenHash = ''st'', ses_csrfTokenHash = ''sx'',
     ses_expiresAt = 1000000, ses_lastUsedAt = 0, ses_createdAt = 0, ses_revokedAt = None\<rparr>"

definition example_server :: "db \<Rightarrow> server" where
  "example_server d = \<lparr>sr_world = (example_world [])\<lparr>w_db := d\<rparr>, sr_broker = fresh_broker\<rparr>"

definition example_tables :: db where
  "example_tables = empty_db\<lparr>db_users := [example_user ''u''], db_sessions := [example_session_row],
     db_devices := [example_device ''d'' ''u''], db_jobs := [example_job ''j'' ''u'' ''d'' Running]\<rparr>"


subsection \<open>Deleting for good\<close>

text \<open>The references of the schema: a job belongs to the device of its repository, rows refer to rows that exist.\<close>

definition schema_ok :: "db \<Rightarrow> bool" where
  "schema_ok d \<longleftrightarrow> references_ok d \<and> distinct (map repo_id (db_repositories d)) \<and>
     (\<forall>j \<in> set (db_jobs d). \<exists>r \<in> set (db_repositories d). repo_id r = job_repositoryId j \<and> repo_deviceId r = job_deviceId j) \<and>
     (\<forall>a \<in> set (db_actions d). \<exists>r \<in> set (db_repositories d). repo_id r = act_repositoryId a)"

lemma schema_ok_repository:
  "schema_ok d \<Longrightarrow> j \<in> set (db_jobs d) \<Longrightarrow> r \<in> set (db_repositories d) \<Longrightarrow> job_repositoryId j = repo_id r \<Longrightarrow>
   job_deviceId j = repo_deviceId r"
  unfolding schema_ok_def by (metis find_unique_key option.inject)

lemma purge_succeeds:
  assumes ok: "schema_ok d" and dev: "findUserDevice u i d = Some dev" "dev_status dev = Revoked"
  shows "purge_transaction hx rq u i d = (Inr (), audited hx 0 rq ''device.deleted'' (Some u) None
      (Some (JObj [(''deviceId'', JStr i), (''deviceName'', JStr (dev_name dev))]))
      (let d1 = delete_jobs (\<lambda>r. job_deviceId r = i) d; gone = repo_id ` {r \<in> set (db_repositories d). repo_deviceId r = i} in
       d1\<lparr>db_repositories := deleteMany (\<lambda>r. repo_deviceId r = i) (db_repositories d),
          db_actions := deleteMany (\<lambda>a. act_repositoryId a \<in> gone) (db_actions d),
          db_devices := deleteMany (\<lambda>r. dev_id r = i) (db_devices d),
          db_credentials := deleteMany (\<lambda>r. cred_deviceId r = i) (db_credentials d),
          db_audit := updateMany (\<lambda>r. aud_deviceId r = Some i) (\<lambda>r. r\<lparr>aud_deviceId := None\<rparr>) (db_audit d)\<rparr>))"
  using assms schema_ok_repository [OF ok]
  by (auto simp: purge_transaction_def delete_repositories_def delete_device_row_def delete_jobs_def Let_def)



subsection \<open>Registering a repository\<close>

lemma validation_request_db: "validation_request hx i r p sv = (x, sv') \<Longrightarrow> sdb sv' = sdb sv"
  by (auto simp: validation_request_def split: option.splits prod.splits sum.splits bool.splits if_splits
      dest!: arg_cong [where f = "\<lambda>x. sdb (snd x)" and x = "server_sendToAgent _ _ _ _"])

lemma register_begin_D:
  assumes "register_begin hx u i input sv = (Inr (repo, promise), sv1)"
  shows "repo = new_repository hx i input" and "sdb sv1 = (sdb sv)\<lparr>db_repositories := db_repositories (sdb sv) @ [repo]\<rparr>"
    and "repo_key repo \<notin> repo_key ` set (db_repositories (sdb sv))"
  using assms by (auto simp: register_begin_def createUnique_def split: if_splits option.splits prod.splits dest!: validation_request_db)

lemma deleteMany_appended: "\<forall>r \<in> set rows. \<not> P r \<Longrightarrow> P x \<Longrightarrow> deleteMany P (rows @ [x]) = rows"
  by (simp add: deleteMany_def filter_empty_conv)

text \<open>
  C31. Registering a repository is all or nothing. Whatever the agent answers, either the request succeeds,
  and then the agent has confirmed the path and the row is enabled with the canonical path it named, or
  the request fails and the tables of repositories and actions are as before. One failure is reported
  wrongly: when the canonical path is already registered under another spelling, the error is the
  database's, which the client sees as an internal error with status 500 and not as a conflict.
\<close>

theorem registration_all_or_nothing:
  assumes started: "register_begin hx u i input sv = (Inr (repo, promise), sv1)"
    and fresh: "\<forall>r \<in> set (db_repositories (sdb sv)). repo_id r \<noteq> hx_id hx 0" "\<forall>j \<in> set (db_jobs (sdb sv)). job_repositoryId j \<noteq> hx_id hx 0"
      "\<forall>a \<in> set (db_actions (sdb sv)). act_repositoryId a \<noteq> hx_id hx 0"
    and sizes: "length (ri_shellArgs input) \<le> 20" "length (ri_inheritedEnvironment input) \<le> 100"
    and finish: "register_finish hx rq u i repo outcome sv1 = (res, sv2)"
  shows "(case res of
     Inl e \<Rightarrow> db_repositories (sdb sv2) = db_repositories (sdb sv) \<and> db_actions (sdb sv2) = db_actions (sdb sv)
   | Inr resp \<Rightarrow> rs_status resp = 201 \<and> (\<exists>v path r. outcome = Inr v \<and> vr_valid v \<and> vr_canonicalPath v = Some path \<and>
       findRepository (hx_id hx 0) (sdb sv2) = Some r \<and> repo_enabled r \<and> repo_absolutePath r = path \<and> repo_deviceId r = i)) \<and>
    (\<forall>v path. outcome = Inr v \<and> vr_valid v \<and> vr_canonicalPath v = Some path \<and> (i, path) \<in> repo_key ` set (db_repositories (sdb sv)) \<longrightarrow>
       res = Inl (PrismaError ''P2002'') \<and> rs_status (error_response (rq_id rq) (PrismaError ''P2002'')) = 500)"
proof -
  let ?rows = "db_repositories (sdb sv)"
  note repo = register_begin_D(1) [OF started] and sv1 = register_begin_D(2) [OF started]
  have id: "repo_id repo = hx_id hx 0" "repo_deviceId repo = i" "\<not> repo_enabled repo"
    by (simp_all add: repo new_repository_def)
  have undo: "delete_repositories (\<lambda>r. repo_id r = repo_id repo \<and> \<not> repo_enabled r) (sdb sv1) = Inr (sdb sv)"
  proof -
    have "deleteMany (\<lambda>r. repo_id r = hx_id hx 0 \<and> \<not> repo_enabled r) (?rows @ [repo]) = ?rows"
      using fresh(1) id by (intro deleteMany_appended) auto
    moreover have "deleteMany (\<lambda>a. act_repositoryId a \<in> repo_id ` {r. (r = repo \<or> r \<in> set ?rows) \<and> repo_id r = hx_id hx 0 \<and> \<not> repo_enabled r})
        (db_actions (sdb sv)) = db_actions (sdb sv)"
      using fresh(3) by (auto simp: deleteMany_def filter_id_conv)
    ultimately show ?thesis
      using fresh(2) by (auto simp: delete_repositories_def Let_def sv1 id)
  qed
  have found: "List.find (\<lambda>r. repo_id r = hx_id hx 0) (?rows @ [repo]) = Some repo"
    using fresh(1) id by (intro find_appended_key [where key = repo_id]) auto
  show ?thesis
  proof (cases "validated_path ''The agent could not validate this repository path.'' outcome")
    case (Inl e)
    then have "res = Inl e \<and> sdb sv2 = sdb sv"
      using finish undo by (auto simp: register_finish_def Let_def)
    then show ?thesis
      using Inl by (auto simp: validated_path_def split: sum.splits option.splits bool.splits)
  next
    case (Inr p)
    then obtain v path where v: "outcome = Inr v" "vr_valid v" "vr_canonicalPath v = Some path"
      and vp: "validated_path ''The agent could not validate this repository path.'' outcome = Inr (v, path)"
      by (cases p) (auto simp: validated_path_def split: sum.splits option.splits bool.splits)
    let ?new = "set_validated (hx_now hx) v path True repo"
    show ?thesis
    proof (cases "(i, path) \<in> repo_key ` set ?rows")
      case True
      then have "updateKeyed repo_id repo_key (repo_id repo) (set_validated (hx_now hx) v path True) (?rows @ [repo]) =
          (Inl (PrismaError ''P2002''), ?rows @ [repo])"
        using found fresh(1) id by (auto simp: updateKeyed_def set_validated_def repo_key_def image_iff)
      then have "res = Inl (PrismaError ''P2002'') \<and> sdb sv2 = sdb sv"
        using finish undo vp by (auto simp: register_finish_def sv1)
      then show ?thesis by (simp add: json_reply_def)
    next
      case False
      then have "updateKeyed repo_id repo_key (repo_id repo) (set_validated (hx_now hx) v path True) (?rows @ [repo]) =
          (Inr ?new, updateMany (\<lambda>r. repo_id r = hx_id hx 0) (set_validated (hx_now hx) v path True) (?rows @ [repo]))"
        using found id by (auto simp: updateKeyed_def set_validated_def repo_key_def image_iff)
      moreover have "serializeRepository None ?new \<noteq> None"
        using sizes by (simp add: serializeRepository_def set_validated_def repo new_repository_def jsonStringArray_def)
      ultimately have "\<exists>resp. res = Inr resp \<and> rs_status resp = 201 \<and>
          db_repositories (sdb sv2) = updateMany (\<lambda>r. repo_id r = hx_id hx 0) (set_validated (hx_now hx) v path True) (?rows @ [repo])"
        using finish vp by (auto simp: register_finish_def sv1 reply_repository_def json_reply_def)
      then show ?thesis
        using False v found id
        by (auto simp: findRepository_def find_updateMany set_validated_def)
    qed
  qed
qed

definition connected_server :: server where
  "connected_server = (let sv = example_server example_tables in
     sv\<lparr>sr_world := on_hub (\<lambda>h. h\<lparr>hub_agents := [(''d'', late_agent)]\<rparr>) (sr_world sv)\<rparr>)"

definition example_repository_input :: repository_input where
  "example_repository_input = \<lparr>ri_name = ''repo'', ri_absolutePath = ''/srv/x'', ri_description = None, ri_allowCustomCommands = False,
     ri_shell = ''/bin/sh'', ri_shellArgs = [''-lc''], ri_inheritedEnvironment = [''PATH'']\<rparr>"

definition example_validation :: validation_result where
  "example_validation = \<lparr>vr_repositoryId = '''', vr_valid = True, vr_canonicalPath = Some ''/srv/y'', vr_repositoryRoot = None,
     vr_isGitRepository = True, vr_branch = None, vr_error = None\<rparr>"

theorem registration_all_or_nothing_witness:
  "\<exists>repo promise sv1. register_begin (example_http 5) ''u'' ''d'' example_repository_input connected_server = (Inr (repo, promise), sv1) \<and>
     db_repositories (sdb (snd (register_finish (example_http 5) example_request ''u'' ''d'' repo
       (Inr (example_validation\<lparr>vr_valid := False\<rparr>)) sv1))) = []"
proof -
  let ?run = "register_begin (example_http 5) ''u'' ''d'' example_repository_input connected_server"
  have "\<not> isl (fst ?run)"
    by code_simp
  then obtain repo promise sv1 where run: "?run = (Inr (repo, promise), sv1)"
    by (metis isl_def old.sum.exhaust prod.collapse)
  let ?finish = "register_finish (example_http 5) example_request ''u'' ''d'' repo (Inr (example_validation\<lparr>vr_valid := False\<rparr>)) sv1"
  have sv: "db_repositories (sdb connected_server) = []" "db_actions (sdb connected_server) = []"
    "\<forall>j \<in> set (db_jobs (sdb connected_server)). job_repositoryId j \<noteq> hx_id (example_http 5) 0"
    by (simp_all add: connected_server_def example_server_def example_tables_def empty_db_def example_job_def example_http_def on_hub_def Let_def)
  have sizes: "length (ri_shellArgs example_repository_input) \<le> 20" "length (ri_inheritedEnvironment example_repository_input) \<le> 100"
    by (simp_all add: example_repository_input_def)
  have "case fst ?finish of Inl e \<Rightarrow> db_repositories (sdb (snd ?finish)) = [] | Inr resp \<Rightarrow> vr_valid (example_validation\<lparr>vr_valid := False\<rparr>)"
    using registration_all_or_nothing [OF run _ sv(3) _ sizes surjective_pairing, of example_request "Inr (example_validation\<lparr>vr_valid := False\<rparr>)"] sv
    by (auto split: sum.splits)
  then show ?thesis
    using run by (auto split: sum.splits)
qed

end
