(* ===== verification/JobRoutes.thy ===== *)
theory JobRoutes
  imports RepositoryRoutes Lockout
begin

section \<open>Routes of jobs\<close>

text \<open>\<open>routes/jobs.ts\<close>: starting a job, listing and reading jobs, their output, cancellation.\<close>

datatype create_job =
    ActionJob ident bool
  | CustomJob string string bool bool

definition actionJobSchema :: "lib \<Rightarrow> create_job schema" where
  "actionJobSchema l = zs_object (zs_strict [''actionId'', ''confirmation''] (\<lambda>ps. do {
     actionId \<leftarrow> uuid_field l ''actionId'' ps;
     confirmation \<leftarrow> zs_field ''confirmation'' (zs_default False zs_boolean) ps;
     Some (ActionJob actionId confirmation)
   }))"

definition customJobSchema :: "create_job schema" where
  "customJobSchema =
     zs_object (zs_strict [''command'', ''workingDirectory'', ''interactive'', ''persistent'', ''confirmation''] (\<lambda>ps. do {
       command \<leftarrow> zs_field ''command'' (zs_text 1 MAX_COMMAND_BYTES) ps;
       directory \<leftarrow> zs_field ''workingDirectory'' (zs_default '''' (zs_text 0 4096)) ps;
       interactive \<leftarrow> zs_field ''interactive'' (zs_default False zs_boolean) ps;
       persistent \<leftarrow> zs_field ''persistent'' (zs_default False zs_boolean) ps;
       confirmation \<leftarrow> zs_field ''confirmation'' (zs_refine (\<lambda>b. b) zs_boolean) ps;
       Some (CustomJob command directory interactive persistent)
     }))"

definition createJobSchema :: "lib \<Rightarrow> create_job schema" where
  "createJobSchema l j = (case actionJobSchema l j of Some x \<Rightarrow> Some x | None \<Rightarrow> customJobSchema j)"

record list_jobs =
  lj_deviceId :: "ident option"
  lj_repositoryId :: "ident option"
  lj_status :: "job_status option"
  lj_limit :: int

definition all_statuses :: "job_status list" where
  "all_statuses = [Queued, Dispatched, Running, WaitingForInput, Completed, Failed, Cancelled, Disconnected]"

definition jobStatusSchema :: "job_status schema" where
  "jobStatusSchema j = Option.bind (zs_string j) (\<lambda>s. List.find (\<lambda>st. status_name st = s) all_statuses)"

definition listJobsSchema :: "lib \<Rightarrow> properties \<Rightarrow> list_jobs option" where
  "listJobsSchema l ps = do {
     deviceId \<leftarrow> zs_field ''deviceId'' (zs_optional (zs_refine (lib_uuid l) zs_string)) ps;
     repositoryId \<leftarrow> zs_field ''repositoryId'' (zs_optional (zs_refine (lib_uuid l) zs_string)) ps;
     status \<leftarrow> zs_field ''status'' (zs_optional jobStatusSchema) ps;
     limit \<leftarrow> zs_field ''limit'' (zs_default 100 (zs_range 1 100 (zs_coerce (lib_number l)))) ps;
     Some \<lparr>lj_deviceId = deviceId, lj_repositoryId = repositoryId, lj_status = status, lj_limit = limit\<rparr>
   }"

definition outputQuerySchema :: "lib \<Rightarrow> properties \<Rightarrow> int option" where
  "outputQuerySchema l = zs_field ''afterSequence'' (zs_default (-1) (zs_refine (\<lambda>n. -1 \<le> n) (zs_coerce (lib_number l))))"

subsection \<open>Starting a job\<close>

record job_plan =
  jp_actionId :: "ident option"
  jp_command :: string
  jp_workingDirectory :: string
  jp_interactive :: bool
  jp_persistent :: bool

fun plan_job :: "create_job \<Rightarrow> repository \<Rightarrow> db \<Rightarrow> js_error + job_plan" where
  "plan_job (ActionJob actionId confirmation) r d =
     (case List.find (\<lambda>a. act_id a = actionId \<and> act_repositoryId a = repo_id r) (db_actions d) of
        None \<Rightarrow> Inl ACTION_NOT_FOUND
      | Some a \<Rightarrow>
          if act_confirmationRequired a \<and> \<not> confirmation
          then Inl (AppError 409 ''CONFIRMATION_REQUIRED'' ''Confirm this action before running it.'')
          else Inr \<lparr>jp_actionId = Some (act_id a), jp_command = act_command a, jp_workingDirectory = act_workingDirectory a,
                    jp_interactive = act_interactive a, jp_persistent = act_persistent a\<rparr>)"
| "plan_job (CustomJob command directory interactive persistent) r d =
     (if \<not> repo_allowCustomCommands r
      then Inl (AppError 403 ''CUSTOM_COMMANDS_DISABLED'' ''Custom commands are disabled.'')
      else (case workingDirectory (Some directory) of
              Inl e \<Rightarrow> Inl e
            | Inr w \<Rightarrow> Inr \<lparr>jp_actionId = None, jp_command = command, jp_workingDirectory = w,
                            jp_interactive = interactive, jp_persistent = persistent\<rparr>))"

text \<open>The checks before the job is created.\<close>

definition admit_job :: "http \<Rightarrow> ident \<Rightarrow> ident \<Rightarrow> create_job \<Rightarrow> server \<Rightarrow> js_error + repository \<times> job_plan" where
  "admit_job hx userId repositoryId input sv =
     (case findUserRepository userId repositoryId (sdb sv) of
        None \<Rightarrow> Inl REPOSITORY_NOT_FOUND
      | Some r \<Rightarrow>
          if \<not> repo_enabled r then Inl (AppError 409 ''REPOSITORY_DISABLED'' ''This repository is disabled.'')
          else if map_option dev_status (findDevice (repo_deviceId r) (sdb sv)) = Some Revoked
          then Inl (AppError 409 ''DEVICE_REVOKED'' ''The device has been revoked.'')
          else if \<not> server_isAgentOnline hx (repo_deviceId r) sv
          then Inl (AppError 409 ''DEVICE_OFFLINE'' ''The device must be online to start a job.'')
          else (case plan_job input r (sdb sv) of
                  Inl e \<Rightarrow> Inl e
                | Inr p \<Rightarrow>
                    (case validateCommand (jp_command p) of Some e \<Rightarrow> Inl e | None \<Rightarrow> Inr (r, p))))"

definition new_job :: "http \<Rightarrow> ident \<Rightarrow> repository \<Rightarrow> job_plan \<Rightarrow> job" where
  "new_job hx userId r p =
     \<lparr>job_id = hx_id hx 0, job_userId = userId, job_deviceId = repo_deviceId r, job_repositoryId = repo_id r,
      job_actionId = jp_actionId p, job_command = jp_command p, job_workingDirectory = jp_workingDirectory p,
      job_status = Queued, job_interactive = jp_interactive p, job_persistent = jp_persistent p, job_exitCode = None,
      job_statusDetail = None, job_retainedOutputBytes = 0, job_outputTruncated = False, job_startedAt = None,
      job_finishedAt = None, job_createdAt = hx_now hx, job_updatedAt = hx_now hx\<rparr>"

text \<open>The message to the agent; the stored arrays go through their schemas again, which can throw.\<close>

definition start_message :: "job \<Rightarrow> repository \<Rightarrow> job_plan \<Rightarrow> job_start option" where
  "start_message j r p = do {
     args \<leftarrow> jsonStringArray (repo_shellArgs r);
     names \<leftarrow> (if length (repo_inheritedEnvironment r) \<le> 100 \<and> list_all environmentName (repo_inheritedEnvironment r)
               then Some (repo_inheritedEnvironment r) else None);
     Some \<lparr>js_jobId = job_id j, js_repositoryId = repo_id r, js_repositoryPath = repo_absolutePath r,
           js_command = jp_command p, js_workingDirectory = jp_workingDirectory p, js_interactive = jp_interactive p,
           js_persistent = jp_persistent p, js_shell = repo_shell r, js_shellArgs = args, js_inheritedEnvironment = names,
           js_columns = 80, js_rows = 24\<rparr>
   }"

definition never_dispatched :: "ms \<Rightarrow> job \<Rightarrow> job" where
  "never_dispatched now r =
     r\<lparr>job_status := Failed, job_statusDetail := Some ''Device disconnected before dispatch.'', job_finishedAt := Some now\<rparr>"

definition start_job :: "http \<Rightarrow> request \<Rightarrow> ident \<Rightarrow> repository \<Rightarrow> job_plan \<Rightarrow> server \<Rightarrow> outcome" where
  "start_job hx rq userId r p sv =
     (let j = new_job hx userId r p;
          sv = on_db (\<lambda>d. d\<lparr>db_jobs := db_jobs d @ [j]\<rparr>) sv
      in case start_message j r p of
           None \<Rightarrow> fail ZodError sv
         | Some msg \<Rightarrow>
             (case server_sendToAgent hx (repo_deviceId r) (JobStart msg) sv of
                (sent, sv) \<Rightarrow>
                  (case (if sent then (Inr j, sdb sv)
                         else updateJob (hx_now hx) (job_id j) (never_dispatched (hx_now hx)) (sdb sv)) of
                     (Inl e, d) \<Rightarrow> fail e sv
                   | (Inr j, d) \<Rightarrow>
                       (let sv = on_db (\<lambda>_. audited hx 1 rq ''job.started'' (Some userId) (Some (repo_deviceId r))
                              (Some (JObj ([(''jobId'', JStr (job_id j)), (''repositoryId'', JStr (repo_id r))] @
                                (case jp_actionId p of None \<Rightarrow> [] | Some a \<Rightarrow> [(''actionId'', JStr a)])))) d) sv
                        in reply (json_reply 201 (JObj [(''job'',
                             serializeJob (included_repository (sdb sv) j) (included_device (sdb sv) j) j)])) sv))))"

definition post_jobs :: "http \<Rightarrow> request \<Rightarrow> server \<Rightarrow> outcome" where
  "post_jobs hx rq =
     requireAuthCsrf hx rq (\<lambda>rq. with_parsed (uuid_field (hx_lib hx) ''repositoryId'' (rq_params rq)) (\<lambda>repositoryId.
       with_parsed (createJobSchema (hx_lib hx) (rq_body rq)) (\<lambda>input. with_owner rq (\<lambda>userId sv.
         case admit_job hx userId repositoryId input sv of
           Inl e \<Rightarrow> fail e sv
         | Inr (r, p) \<Rightarrow> start_job hx rq userId r p sv))))"

subsection \<open>Reading and cancelling\<close>

definition get_jobs :: "http \<Rightarrow> request \<Rightarrow> server \<Rightarrow> outcome" where
  "get_jobs hx rq =
     requireAuth hx rq (\<lambda>rq. with_parsed (listJobsSchema (hx_lib hx) (rq_query rq)) (\<lambda>query. with_owner rq (\<lambda>userId sv.
       let matches = (\<lambda>j. job_userId j = userId \<and>
             (case lj_deviceId query of None \<Rightarrow> True | Some i \<Rightarrow> job_deviceId j = i) \<and>
             (case lj_repositoryId query of None \<Rightarrow> True | Some i \<Rightarrow> job_repositoryId j = i) \<and>
             (case lj_status query of None \<Rightarrow> True | Some st \<Rightarrow> job_status j = st));
           rows = take (nat (lj_limit query)) (sort_key (\<lambda>j. - job_createdAt j) (filter matches (db_jobs (sdb sv))))
       in reply (json_reply 200 (JObj [(''jobs'', JArr (map (\<lambda>j.
            serializeJob (included_repository (sdb sv) j) (included_device (sdb sv) j) j) rows))])) sv)))"

definition get_job :: "http \<Rightarrow> request \<Rightarrow> server \<Rightarrow> outcome" where
  "get_job hx rq =
     requireAuth hx rq (\<lambda>rq. with_parsed (uuid_field (hx_lib hx) ''jobId'' (rq_params rq)) (\<lambda>jobId. with_owner rq (\<lambda>userId sv.
       case findUserJob userId jobId (sdb sv) of
         None \<Rightarrow> fail JOB_NOT_FOUND sv
       | Some j \<Rightarrow> reply (json_reply 200 (JObj [(''job'',
           serializeJob (included_repository (sdb sv) j) (included_device (sdb sv) j) j)])) sv)))"

definition chunk_json :: "served_chunk \<Rightarrow> json" where
  "chunk_json c = JObj ([(''sequence'', JNum (oc_sequence c)), (''stream'', JStr (stream_name (oc_stream c))),
     (''data'', JStr (oc_data c))] @ (case sv_timestamp c of None \<Rightarrow> [] | Some t \<Rightarrow> [(''timestamp'', timestamp t)]))"

definition get_job_output :: "http \<Rightarrow> request \<Rightarrow> server \<Rightarrow> outcome" where
  "get_job_output hx rq =
     requireAuth hx rq (\<lambda>rq. with_parsed (uuid_field (hx_lib hx) ''jobId'' (rq_params rq)) (\<lambda>jobId.
       with_parsed (outputQuerySchema (hx_lib hx) (rq_query rq)) (\<lambda>afterSequence. with_owner rq (\<lambda>userId sv.
         case replay userId jobId afterSequence 1000 (sdb sv) of
           Inl e \<Rightarrow> fail e sv
         | Inr chunks \<Rightarrow> reply (json_reply 200 (JObj [(''chunks'', JArr (map chunk_json chunks))])) sv))))"

definition post_job_cancel :: "http \<Rightarrow> request \<Rightarrow> server \<Rightarrow> outcome" where
  "post_job_cancel hx rq =
     requireAuthCsrf hx rq (\<lambda>rq. with_parsed (uuid_field (hx_lib hx) ''jobId'' (rq_params rq)) (\<lambda>jobId. with_owner rq (\<lambda>userId sv.
       case requestCancellation (hx_ctx hx) userId jobId (sr_world sv) of
         (Inl e, w) \<Rightarrow> fail e (sv\<lparr>sr_world := w\<rparr>)
       | (Inr j, w) \<Rightarrow>
           reply (json_reply 200 (JObj [(''job'', serializeJob None None j)]))
             (on_db (audited hx 0 rq ''job.cancellation_requested'' (Some userId) (Some (job_deviceId j))
               (Some (JObj [(''jobId'', JStr jobId)]))) (sv\<lparr>sr_world := w\<rparr>)))))"

subsection \<open>A started job\<close>

text \<open>What the checks establish.\<close>

definition authorized :: "create_job \<Rightarrow> repository \<Rightarrow> job_plan \<Rightarrow> db \<Rightarrow> bool" where
  "authorized input r p d \<longleftrightarrow>
     (case input of
        ActionJob i confirmed \<Rightarrow> (\<exists>a \<in> set (db_actions d). act_id a = i \<and> act_repositoryId a = repo_id r \<and> jp_command p = act_command a \<and>
          jp_workingDirectory p = act_workingDirectory a \<and> (act_confirmationRequired a \<longrightarrow> confirmed))
      | CustomJob c w x y \<Rightarrow> repo_allowCustomCommands r \<and> jp_command p = c \<and> normalizeWorkingDirectory (Some w) = Inr (jp_workingDirectory p))"

lemma plan_job_authorized: "plan_job input r d = Inr p \<Longrightarrow> authorized input r p d"
  by (cases input) (auto simp: authorized_def workingDirectory_def split: option.splits if_splits sum.splits dest: find_SomeD)

lemma admit_job_D:
  assumes "admit_job hx u i input sv = Inr (r, p)"
  shows "findUserRepository u i (sdb sv) = Some r" and "repo_enabled r"
    and "map_option dev_status (findDevice (repo_deviceId r) (sdb sv)) \<noteq> Some Revoked"
    and "authorized input r p (sdb sv)" and "utf8_length (jp_command p) \<le> int MAX_COMMAND_BYTES"
  using assms by (auto simp: admit_job_def validateCommand_def split: option.splits if_splits sum.splits dest: plan_job_authorized)


definition example_repository :: repository where
  "example_repository = (new_repository (example_http 0) ''d'' example_repository_input)\<lparr>repo_id := ''r'', repo_enabled := True,
     repo_allowCustomCommands := True\<rparr>"

definition repository_server :: server where
  "repository_server = on_db (\<lambda>d. d\<lparr>db_repositories := [example_repository]\<rparr>) connected_server"


end
