(* ===== verification/Push.thy ===== *)
theory Push
  imports Routes
begin

section \<open>Push notifications\<close>

text \<open>
  \<open>services/push.ts\<close> and \<open>routes/push.ts\<close>: which endpoints may be stored, what notification a transition
  makes, its delivery, and the routes that keep a user's subscriptions. The push service itself is a
  parameter: what a send of a subscription comes to.
\<close>

subsection \<open>Endpoints\<close>

definition ALLOWED_PUSH_HOSTS :: "string list" where
  "ALLOWED_PUSH_HOSTS = [''fcm.googleapis.com'', ''android.googleapis.com'', ''.push.services.mozilla.com'',
     ''.notify.windows.com'', ''web.push.apple.com'']"

definition isAllowedPushEndpoint :: "lib \<Rightarrow> string \<Rightarrow> bool" where
  "isAllowedPushEndpoint l endpoint =
     (case lib_url l endpoint of
        None \<Rightarrow> False
      | Some u \<Rightarrow>
          if url_protocol u \<noteq> ''https:'' then False
          else (let host = toLowerCase (url_hostname u)
                in list_ex (\<lambda>allowed. if startsWith ''.'' allowed then endsWith allowed host else host = allowed)
                     ALLOWED_PUSH_HOSTS))"

subsection \<open>Notifications\<close>

definition NOTIFIABLE_STATUSES :: "job_status set" where
  "NOTIFIABLE_STATUSES = {WaitingForInput, Completed, Failed}"

record notification =
  nt_title :: string
  nt_body :: string
  nt_tag :: string
  nt_url :: string
  nt_jobId :: ident
  nt_status :: job_status

text \<open>An integer in a template string.\<close>

fun nat_string :: "nat \<Rightarrow> string" where
  "nat_string n = (if n < 10 then [char_of (48 + n)] else nat_string (n div 10) @ [char_of (48 + n mod 10)])"

definition int_string :: "int \<Rightarrow> string" where
  "int_string i = (if i < 0 then ''-'' @ nat_string (nat (- i)) else nat_string (nat i))"

definition buildJobNotification :: "ident \<Rightarrow> job_status \<Rightarrow> int option \<Rightarrow> string \<Rightarrow> notification option" where
  "buildJobNotification jobId status exitCode repositoryName =
     (if status \<notin> NOTIFIABLE_STATUSES then None
      else
        (let base = (\<lambda>title. Some \<lparr>nt_title = title, nt_body = repositoryName, nt_tag = ''relaydock-job-'' @ jobId,
                       nt_url = ''/jobs/'' @ jobId, nt_jobId = jobId, nt_status = status\<rparr>)
         in case status of
              WaitingForInput \<Rightarrow> base ''Waiting for your input''
            | Completed \<Rightarrow>
                base (case exitCode of
                        None \<Rightarrow> ''Job completed''
                      | Some c \<Rightarrow> if c \<noteq> 0 then ''Job finished '' @ [CHR 0xB7] @ '' exit '' @ int_string c else ''Job completed'')
            | Failed \<Rightarrow> base ''Job failed''
            | _ \<Rightarrow> None))"

subsection \<open>Delivery\<close>

datatype send_result = Delivered | WebPushError int | OtherError

type_synonym push_service = "push_subscription \<Rightarrow> notification \<Rightarrow> send_result"

text \<open>\<open>sendOne\<close>: record the delivery, remove an endpoint that is gone, or only log. The writes' errors are ignored.\<close>

definition sendOne :: "push_service \<Rightarrow> ms \<Rightarrow> notification \<Rightarrow> push_subscription \<Rightarrow> db \<Rightarrow> db" where
  "sendOne service now payload s d =
     (case service s payload of
        Delivered \<Rightarrow> d\<lparr>db_push := snd (updateUnique (\<lambda>r. ps_id r = ps_id s) (\<lambda>r. r\<lparr>ps_lastNotifiedAt := Some now\<rparr>) (db_push d))\<rparr>
      | WebPushError statusCode \<Rightarrow>
          if statusCode = 404 \<or> statusCode = 410
          then d\<lparr>db_push := deleteMany (\<lambda>r. ps_id r = ps_id s) (db_push d)\<rparr> else d
      | OtherError \<Rightarrow> d)"

text \<open>\<open>deliver\<close>: the subscriptions of the job's user; the result also lists what was sent where.\<close>

definition deliver ::
  "push_service \<Rightarrow> ms \<Rightarrow> push_job \<Rightarrow> db \<Rightarrow> (push_subscription \<times> notification) list \<times> db" where
  "deliver service now job d =
     (let subscriptions = filter (\<lambda>s. ps_userId s = pj_userId job) (db_push d);
          repositoryName = (case findRepository (pj_repositoryId job) d of None \<Rightarrow> ''a repository'' | Some r \<Rightarrow> repo_name r)
      in if subscriptions = [] then ([], d)
         else (case buildJobNotification (pj_id job) (pj_status job) (pj_exitCode job) repositoryName of
                 None \<Rightarrow> ([], d)
               | Some payload \<Rightarrow> (map (\<lambda>s. (s, payload)) subscriptions, fold (sendOne service now payload) subscriptions d)))"

definition notifyJobTransition ::
  "bool \<Rightarrow> push_service \<Rightarrow> ms \<Rightarrow> push_job \<Rightarrow> db \<Rightarrow> (push_subscription \<times> notification) list \<times> db" where
  "notifyJobTransition enabled service now job d =
     (if \<not> enabled then ([], d)
      else if pj_status job \<notin> NOTIFIABLE_STATUSES then ([], d)
      else deliver service now job d)"

subsection \<open>Routes\<close>

definition MAX_SUBSCRIPTIONS_PER_USER :: nat where
  "MAX_SUBSCRIPTIONS_PER_USER = 20"

record subscribe_input =
  si_endpoint :: string
  si_p256dh :: string
  si_auth :: string

definition subscribeSchema :: "lib \<Rightarrow> subscribe_input schema" where
  "subscribeSchema l = zs_object (\<lambda>ps. do {
     endpoint \<leftarrow> zs_field ''endpoint'' (zs_refine (isAllowedPushEndpoint l) (zs_length 0 2048 (zs_url (lib_url l)))) ps;
     keys \<leftarrow> zs_field ''keys'' (zs_object (\<lambda>ks. do {
       p256dh \<leftarrow> zs_field ''p256dh'' (zs_text 1 255) ks;
       auth \<leftarrow> zs_field ''auth'' (zs_text 1 255) ks;
       Some (p256dh, auth)
     })) ps;
     Some \<lparr>si_endpoint = endpoint, si_p256dh = fst keys, si_auth = snd keys\<rparr>
   })"

definition unsubscribeSchema :: "lib \<Rightarrow> string schema" where
  "unsubscribeSchema l = zs_object (zs_field ''endpoint'' (zs_length 0 2048 (zs_url (lib_url l))))"

definition get_push_config :: "http \<Rightarrow> request \<Rightarrow> server \<Rightarrow> outcome" where
  "get_push_config hx rq =
     requireAuth hx rq (\<lambda>rq sv. reply (json_reply 200 (JObj [(''enabled'', JBool (env_pushEnabled (hx_env hx))),
       (''publicKey'', nullable JStr (if env_pushEnabled (hx_env hx) then env_VAPID_PUBLIC_KEY (hx_env hx) else None))])) sv)"

definition refresh_subscription :: "ident \<Rightarrow> subscribe_input \<Rightarrow> string option \<Rightarrow> push_subscription list \<Rightarrow> push_subscription list" where
  "refresh_subscription userId input userAgent rows =
     updateMany (\<lambda>r. ps_endpoint r = si_endpoint input \<and> ps_userId r = userId)
       (\<lambda>r. r\<lparr>ps_p256dh := si_p256dh input, ps_auth := si_auth input, ps_userAgent := userAgent\<rparr>) rows"

text \<open>Room for one more: past the limit the user's oldest subscription goes.\<close>

definition evict_oldest :: "ident \<Rightarrow> push_subscription list \<Rightarrow> push_subscription list" where
  "evict_oldest userId rows =
     (if countWhere (\<lambda>r. ps_userId r = userId) rows \<ge> MAX_SUBSCRIPTIONS_PER_USER
      then (case sort_key ps_createdAt (filter (\<lambda>r. ps_userId r = userId) rows) of
              [] \<Rightarrow> rows
            | oldest # _ \<Rightarrow> deleteMany (\<lambda>r. ps_id r = ps_id oldest \<and> ps_userId r = userId) rows)
      else rows)"

definition new_subscription :: "http \<Rightarrow> ident \<Rightarrow> subscribe_input \<Rightarrow> string option \<Rightarrow> push_subscription" where
  "new_subscription hx userId input userAgent =
     \<lparr>ps_id = hx_id hx 0, ps_userId = userId, ps_endpoint = si_endpoint input, ps_p256dh = si_p256dh input,
      ps_auth = si_auth input, ps_userAgent = userAgent, ps_createdAt = hx_now hx, ps_lastNotifiedAt = None\<rparr>"

definition PUSH_ENDPOINT_CONFLICT :: js_error where
  "PUSH_ENDPOINT_CONFLICT = AppError 409 ''PUSH_ENDPOINT_CONFLICT'' ''This push endpoint is registered to another account.''"

text \<open>The subscriptions after a request to subscribe, and the error if there is one.\<close>

definition store_subscription ::
  "http \<Rightarrow> ident \<Rightarrow> subscribe_input \<Rightarrow> string option \<Rightarrow> push_subscription list \<Rightarrow> js_error option \<times> push_subscription list" where
  "store_subscription hx userId input userAgent rows =
     (if countWhere (\<lambda>r. ps_endpoint r = si_endpoint input \<and> ps_userId r = userId) rows \<noteq> 0
      then (None, refresh_subscription userId input userAgent rows)
      else
        (let rows = evict_oldest userId rows in
         case createUnique ps_endpoint (new_subscription hx userId input userAgent) rows of
           Inr rows \<Rightarrow> (None, rows)
         | Inl e \<Rightarrow>
             if map_option ps_userId (List.find (\<lambda>r. ps_endpoint r = si_endpoint input) rows) = Some userId
             then (None, refresh_subscription userId input userAgent rows)
             else (Some PUSH_ENDPOINT_CONFLICT, rows)))"

definition post_push_subscribe :: "http \<Rightarrow> request \<Rightarrow> server \<Rightarrow> outcome" where
  "post_push_subscribe hx rq =
     requireAuthCsrf hx rq (\<lambda>rq sv.
       if \<not> env_pushEnabled (hx_env hx) then fail (AppError 404 ''PUSH_DISABLED'' ''Push notifications are not configured.'') sv
       else with_owner rq (\<lambda>userId. with_parsed (subscribeSchema (hx_lib hx) (rq_body rq)) (\<lambda>input sv.
         case store_subscription hx userId input (map_option (take 500) (header rq ''user-agent'')) (db_push (sdb sv)) of
           (Some e, rows) \<Rightarrow> fail e (on_db (\<lambda>d. d\<lparr>db_push := rows\<rparr>) sv)
         | (None, rows) \<Rightarrow>
             reply (json_reply 201 (JObj [(''ok'', JBool True)]))
               (on_db (\<lambda>d. audited hx 1 rq ''push.subscribe'' (Some userId) None None (d\<lparr>db_push := rows\<rparr>)) sv))) sv)"

definition delete_push_subscribe :: "http \<Rightarrow> request \<Rightarrow> server \<Rightarrow> outcome" where
  "delete_push_subscribe hx rq =
     requireAuthCsrf hx rq (\<lambda>rq. with_owner rq (\<lambda>userId. with_parsed (unsubscribeSchema (hx_lib hx) (rq_body rq)) (\<lambda>endpoint sv.
       reply no_content (on_db (\<lambda>d. d\<lparr>db_push :=
         deleteMany (\<lambda>r. ps_endpoint r = endpoint \<and> ps_userId r = userId) (db_push d)\<rparr>) sv))))"

subsection \<open>Subscriptions of a user\<close>

definition push_inv :: "push_subscription list \<Rightarrow> bool" where
  "push_inv rows \<longleftrightarrow> distinct (map ps_id rows) \<and> distinct (map ps_endpoint rows) \<and>
     (\<forall>u. countWhere (\<lambda>r. ps_userId r = u) rows \<le> MAX_SUBSCRIPTIONS_PER_USER)"

lemma countWhere_deleteMany: "countWhere P (deleteMany Q rows) \<le> countWhere P rows"
  by (induction rows) (auto simp: countWhere_def)

lemma push_inv_deleteMany: "push_inv rows \<Longrightarrow> push_inv (deleteMany P rows)"
  by (auto simp: push_inv_def distinct_map_deleteMany intro: order_trans [OF countWhere_deleteMany])

lemma push_inv_refresh: "push_inv rows \<Longrightarrow> push_inv (refresh_subscription u input ua rows)"
proof -
  have "countWhere (\<lambda>r. ps_userId r = v) (refresh_subscription u input ua rows) = countWhere (\<lambda>r. ps_userId r = v) rows" for v
    by (induction rows) (auto simp: refresh_subscription_def countWhere_def)
  moreover have "map ps_id (refresh_subscription u input ua rows) = map ps_id rows"
    "map ps_endpoint (refresh_subscription u input ua rows) = map ps_endpoint rows"
    by (simp_all add: refresh_subscription_def)
  ultimately show "push_inv rows \<Longrightarrow> push_inv (refresh_subscription u input ua rows)"
    by (simp add: push_inv_def)
qed

lemma evict_oldest_count:
  assumes "push_inv rows"
  shows "countWhere (\<lambda>r. ps_userId r = u) (evict_oldest u rows) = min (countWhere (\<lambda>r. ps_userId r = u) rows) 19"
proof (cases "countWhere (\<lambda>r. ps_userId r = u) rows \<ge> MAX_SUBSCRIPTIONS_PER_USER")
  case True
  then have "filter (\<lambda>r. ps_userId r = u) rows \<noteq> []"
    by (auto simp: countWhere_def MAX_SUBSCRIPTIONS_PER_USER_def)
  then obtain o1 os where o: "sort_key ps_createdAt (filter (\<lambda>r. ps_userId r = u) rows) = o1 # os"
    by (metis length_0_conv length_sort neq_Nil_conv)
  then have "o1 \<in> set (filter (\<lambda>r. ps_userId r = u) rows)"
    by (metis list.set_intros(1) set_sort)
  then have "o1 \<in> set rows" "ps_userId o1 = u"
    by simp_all
  moreover have "countWhere (\<lambda>r. ps_userId r = u) rows = 20"
    using True assms by (auto simp: push_inv_def MAX_SUBSCRIPTIONS_PER_USER_def intro: antisym)
  ultimately show ?thesis
    using True o assms countWhere_delete_one [of ps_id rows o1 "\<lambda>r. ps_userId r = u"]
    by (simp add: evict_oldest_def push_inv_def)
qed (simp add: evict_oldest_def MAX_SUBSCRIPTIONS_PER_USER_def)

lemma evict_oldest_inv: "push_inv rows \<Longrightarrow> push_inv (evict_oldest u rows)"
  by (auto simp: evict_oldest_def push_inv_deleteMany split: list.split)

lemma evict_oldest_others: "v \<noteq> u \<Longrightarrow> filter (\<lambda>r. ps_userId r = v) (evict_oldest u rows) = filter (\<lambda>r. ps_userId r = v) rows"
  by (auto simp: evict_oldest_def deleteMany_def intro!: filter_cong split: list.split)

lemma refresh_others: "v \<noteq> u \<Longrightarrow> filter (\<lambda>r. ps_userId r = v) (refresh_subscription u input ua rows) = filter (\<lambda>r. ps_userId r = v) rows"
  unfolding refresh_subscription_def by (rule filter_updateMany_disjoint) auto


definition example_subscription :: "ident \<Rightarrow> push_subscription" where
  "example_subscription u = \<lparr>ps_id = u, ps_userId = u, ps_endpoint = u, ps_p256dh = ''k'', ps_auth = ''a'', ps_userAgent = None,
     ps_createdAt = 0, ps_lastNotifiedAt = None\<rparr>"


end
