(* ===== verification/AuthRoutes.thy ===== *)
theory AuthRoutes
  imports Routes
begin

section \<open>Signing in\<close>

text \<open>
  \<open>routes/auth.ts\<close> and \<open>lib/google-oauth.ts\<close>: registration, login and logout with a password, and
  sign-in with Google. Parameters: the answer of Google's token endpoint, and the decoding of a token's
  payload (base64url, UTF-8 and JSON; \<open>None\<close> when one of them throws).
\<close>

record credentials_input =
  ci_email :: string
  ci_password :: string

definition credentialsSchema :: "lib \<Rightarrow> credentials_input schema" where
  "credentialsSchema l = zs_object (\<lambda>ps. do {
     email \<leftarrow> zs_field ''email'' (zs_transform toLowerCase (zs_length 0 320 (zs_refine (lib_email l) (zs_transform js_trim zs_string)))) ps;
     password \<leftarrow> zs_field ''password'' (zs_text 12 512) ps;
     Some \<lparr>ci_email = email, ci_password = password\<rparr>
   })"

definition dummyPasswordHash :: "http \<Rightarrow> string" where
  "dummyPasswordHash hx = hashPassword (hx_lib hx) '''' ''relaydock-login-timing-equalizer''"

definition findUserByEmail :: "string \<Rightarrow> db \<Rightarrow> user option" where
  "findUserByEmail email d = List.find (\<lambda>r. usr_email r = email) (db_users d)"

definition findUserBySub :: "string \<Rightarrow> db \<Rightarrow> user option" where
  "findUserBySub sub d = List.find (\<lambda>r. usr_googleSub r = Some sub) (db_users d)"

text \<open>\<open>user.create\<close>: both the address and the Google subject are unique.\<close>

definition create_user :: "user \<Rightarrow> db \<Rightarrow> (js_error + user) \<times> db" where
  "create_user u d =
     (if (\<exists>r \<in> set (db_users d). usr_email r = usr_email u \<or> usr_googleSub u \<noteq> None \<and> usr_googleSub r = usr_googleSub u)
      then (Inl (PrismaError ''P2002''), d)
      else (Inr u, d\<lparr>db_users := db_users d @ [u]\<rparr>))"

definition user_json :: "user \<Rightarrow> json" where
  "user_json u = serializeUser (usr_id u) (usr_email u) (usr_createdAt u)"

subsection \<open>Passwords\<close>

definition post_register :: "http \<Rightarrow> request \<Rightarrow> server \<Rightarrow> outcome" where
  "post_register hx rq sv =
     (if \<not> env_ALLOW_REGISTRATION (hx_env hx)
      then fail (AppError 403 ''REGISTRATION_DISABLED'' ''Account registration is disabled.'') sv
      else with_parsed (credentialsSchema (hx_lib hx) (rq_body rq)) (\<lambda>input sv.
        case create_user \<lparr>usr_id = hx_id hx 0, usr_email = ci_email input,
               usr_passwordHash = Some (hashPassword (hx_lib hx) (hx_id hx 9) (ci_password input)), usr_googleSub = None,
               usr_createdAt = hx_now hx, usr_updatedAt = hx_now hx\<rparr> (sdb sv) of
          (Inl e, d) \<Rightarrow> fail (AppError 409 ''EMAIL_ALREADY_REGISTERED'' ''An account already uses this email.'') sv
        | (Inr user, d) \<Rightarrow>
            (case session_create hx 1 (usr_id user) d of
               ((csrfToken, cookies), d) \<Rightarrow>
                 reply ((json_reply 201 (JObj [(''user'', user_json user), (''csrfToken'', JStr csrfToken)]))\<lparr>rs_cookies := cookies\<rparr>)
                   (on_db (\<lambda>_. audited hx 3 rq ''auth.register'' (Some (usr_id user)) None None d) sv))) sv)"

definition post_login :: "http \<Rightarrow> request \<Rightarrow> server \<Rightarrow> outcome" where
  "post_login hx rq =
     with_parsed (credentialsSchema (hx_lib hx) (rq_body rq)) (\<lambda>input sv.
       let found = findUserByEmail (ci_email input) (sdb sv);
           passwordHash = (case Option.bind found usr_passwordHash of None \<Rightarrow> dummyPasswordHash hx | Some h \<Rightarrow> h);
           passwordMatches = verifyPassword (hx_lib hx) passwordHash (ci_password input)
       in case (found, passwordMatches) of
            (Some user, True) \<Rightarrow>
              (case session_create hx 0 (usr_id user) (sdb sv) of
                 ((csrfToken, cookies), d) \<Rightarrow>
                   reply ((json_reply 200 (JObj [(''user'', user_json user), (''csrfToken'', JStr csrfToken)]))\<lparr>rs_cookies := cookies\<rparr>)
                     (on_db (\<lambda>_. audited hx 2 rq ''auth.login'' (Some (usr_id user)) None None d) sv))
          | _ \<Rightarrow>
              fail (AppError 401 ''INVALID_CREDENTIALS'' ''The email or password is incorrect.'')
                (on_db (audited hx 2 rq ''auth.login_failed'' None None None) sv))"

definition get_session :: "http \<Rightarrow> request \<Rightarrow> server \<Rightarrow> outcome" where
  "get_session hx rq =
     requireAuth hx rq (\<lambda>rq sv.
       case rq_auth rq of
         None \<Rightarrow> fail (AppError 401 ''AUTHENTICATION_REQUIRED'' ''Sign in.'') sv
       | Some a \<Rightarrow>
           (case csrfFromRequest rq of
              Inl e \<Rightarrow> fail e sv
            | Inr token \<Rightarrow> reply (json_reply 200 (JObj [(''user'', serializeUser (ax_userId a) (ax_email a) (ax_createdAt a)),
                (''csrfToken'', JStr token)])) sv))"

definition post_logout :: "http \<Rightarrow> request \<Rightarrow> server \<Rightarrow> outcome" where
  "post_logout hx rq =
     requireAuthCsrf hx rq (\<lambda>rq sv.
       case revokeCurrent hx rq (sdb sv) of
         (cookies, d) \<Rightarrow>
           reply (no_content\<lparr>rs_cookies := cookies\<rparr>)
             (on_db (\<lambda>_. case rq_auth rq of
                  None \<Rightarrow> d
                | Some a \<Rightarrow> audited hx 0 rq ''auth.logout'' (Some (ax_userId a)) None None d) sv))"

definition get_auth_config :: "http \<Rightarrow> server \<Rightarrow> outcome" where
  "get_auth_config hx sv =
     reply (json_reply 200 (JObj [(''google'', JBool (env_googleEnabled (hx_env hx))),
       (''allowRegistration'', JBool (env_ALLOW_REGISTRATION (hx_env hx)))])) sv"

subsection \<open>The authorization URL\<close>

text \<open>\<open>URLSearchParams\<close>: letters, digits and \<open>*-._\<close> stay, a space is \<open>+\<close>, the rest its UTF-8 bytes in hexadecimal.\<close>

definition hex_digit :: "nat \<Rightarrow> char" where
  "hex_digit n = ''0123456789ABCDEF'' ! (n mod 16)"

definition percent :: "nat \<Rightarrow> string" where
  "percent b = ''%'' @ [hex_digit (b div 16), hex_digit b]"

definition form_char :: "char \<Rightarrow> string" where
  "form_char c =
     (let n = of_char c :: nat in
      if is_upper_char c \<or> is_lower_char c \<or> is_digit_char c \<or> c \<in> set ''*-._'' then [c]
      else if c = CHR '' '' then ''+''
      else if n < 128 then percent n
      else percent (192 + n div 64) @ percent (128 + n mod 64))"

definition form_encode :: "(string \<times> string) list \<Rightarrow> string" where
  "form_encode ps = join_with (CHR ''&'') (map (\<lambda>(k, v). concat (map form_char k) @ ''='' @ concat (map form_char v)) ps)"

definition buildGoogleAuthorizationUrl :: "string \<Rightarrow> string \<Rightarrow> string \<Rightarrow> string option \<Rightarrow> string" where
  "buildGoogleAuthorizationUrl clientId redirectUri state hostedDomainHint =
     ''https://accounts.google.com/o/oauth2/v2/auth'' @ ''?'' @ form_encode
       ([(''client_id'', clientId), (''redirect_uri'', redirectUri), (''response_type'', ''code''),
         (''scope'', ''openid email profile''), (''state'', state), (''access_type'', ''online''),
         (''prompt'', ''select_account'')] @
        (case hostedDomainHint of None \<Rightarrow> [] | Some domain \<Rightarrow> [(''hd'', domain)]))"

subsection \<open>Tokens of Google\<close>

record google_profile =
  gp_sub :: string
  gp_email :: string
  gp_emailVerified :: bool
  gp_name :: "string option"

text \<open>The answer of the token endpoint: no answer, or whether it is ok with its body, \<open>None\<close> when that is no JSON.\<close>

datatype fetch_result = Unreachable | Response bool "json option"

fun property :: "string \<Rightarrow> json \<Rightarrow> json option" where
  "property name (JObj ps) = map_of ps name"
| "property name _ = None"

definition token_form :: "string \<Rightarrow> string \<Rightarrow> string \<Rightarrow> string \<Rightarrow> (string \<times> string) list" where
  "token_form code clientId clientSecret redirectUri =
     [(''code'', code), (''client_id'', clientId), (''client_secret'', clientSecret), (''redirect_uri'', redirectUri),
      (''grant_type'', ''authorization_code'')]"

definition exchangeCodeForIdToken ::
  "((string \<times> string) list \<Rightarrow> fetch_result) \<Rightarrow> string \<Rightarrow> string \<Rightarrow> string \<Rightarrow> string \<Rightarrow> js_error + string" where
  "exchangeCodeForIdToken fetch code clientId clientSecret redirectUri =
     (case fetch (token_form code clientId clientSecret redirectUri) of
        Unreachable \<Rightarrow> Inl (AppError 502 ''GOOGLE_UNREACHABLE'' ''Could not reach Google to complete sign-in.'')
      | Response ok body \<Rightarrow>
          if \<not> ok then Inl (AppError 502 ''GOOGLE_TOKEN_EXCHANGE_FAILED'' ''Google rejected the sign-in attempt.'')
          else (case body of
                  None \<Rightarrow> Inl (PlainError ''SyntaxError'')
                | Some JNull \<Rightarrow> Inl (PlainError ''TypeError'')
                | Some payload \<Rightarrow>
                    (case property ''id_token'' payload of
                       Some (JStr token) \<Rightarrow>
                         if token = '''' then Inl (AppError 502 ''GOOGLE_TOKEN_MISSING'' ''Google did not return an identity token.'')
                         else Inr token
                     | _ \<Rightarrow> Inl (AppError 502 ''GOOGLE_TOKEN_MISSING'' ''Google did not return an identity token.''))))"

definition GOOGLE_ISSUERS :: "string set" where
  "GOOGLE_ISSUERS = {''accounts.google.com'', ''https://accounts.google.com''}"

definition CLOCK_SKEW_MS :: ms where
  "CLOCK_SKEW_MS = 5 * 60 * 1000"

fun string_claim :: "json option \<Rightarrow> string" where
  "string_claim (Some (JStr s)) = s"
| "string_claim _ = ''''"

definition GOOGLE_TOKEN_INVALID :: js_error where
  "GOOGLE_TOKEN_INVALID = AppError 502 ''GOOGLE_TOKEN_INVALID'' ''Google returned an invalid identity token.''"

definition claims_valid :: "string \<Rightarrow> ms \<Rightarrow> json \<Rightarrow> bool" where
  "claims_valid expectedAudience nowMs claims \<longleftrightarrow>
     (case property ''iss'' claims of Some (JStr iss) \<Rightarrow> iss \<in> GOOGLE_ISSUERS | _ \<Rightarrow> False) \<and>
     property ''aud'' claims = Some (JStr expectedAudience) \<and>
     (case property ''exp'' claims of Some (JNum expiry) \<Rightarrow> \<not> expiry * 1000 + CLOCK_SKEW_MS < nowMs | _ \<Rightarrow> False)"

definition parseGoogleIdToken :: "(string \<Rightarrow> json option) \<Rightarrow> string \<Rightarrow> string \<Rightarrow> ms \<Rightarrow> js_error + google_profile" where
  "parseGoogleIdToken decode idToken expectedAudience nowMs =
     (case split_on (CHR ''.'') idToken of
        [_, payloadSegment, _] \<Rightarrow>
          (case decode payloadSegment of
             None \<Rightarrow> Inl GOOGLE_TOKEN_INVALID
           | Some claims \<Rightarrow>
               if \<not> claims_valid expectedAudience nowMs claims then Inl GOOGLE_TOKEN_INVALID
               else
                 (let sub = string_claim (property ''sub'' claims);
                      email = toLowerCase (js_trim (string_claim (property ''email'' claims)))
                  in if sub = '''' \<or> email = '''' then Inl GOOGLE_TOKEN_INVALID
                     else Inr \<lparr>gp_sub = sub, gp_email = email,
                       gp_emailVerified = (property ''email_verified'' claims \<in> {Some (JBool True), Some (JStr ''true'')}),
                       gp_name = (case property ''name'' claims of Some (JStr n) \<Rightarrow> Some n | _ \<Rightarrow> None)\<rparr>))
      | _ \<Rightarrow> Inl GOOGLE_TOKEN_INVALID)"

subsection \<open>Accounts\<close>

text \<open>\<open>lastIndexOf('@')\<close> and what follows it.\<close>

definition email_domain :: "string \<Rightarrow> string option" where
  "email_domain email = (if CHR ''@'' \<in> set email then Some (rev (takeWhile (\<lambda>c. c \<noteq> CHR ''@'') (rev email))) else None)"

definition isEmailDomainAllowed :: "string \<Rightarrow> string list \<Rightarrow> bool" where
  "isEmailDomainAllowed email allowedEmailDomains \<longleftrightarrow>
     allowedEmailDomains = [] \<or>
     (case email_domain email of None \<Rightarrow> False | Some domain \<Rightarrow> toLowerCase domain \<in> set allowedEmailDomains)"

definition resolveGoogleAccount ::
  "http \<Rightarrow> google_profile \<Rightarrow> string list \<Rightarrow> db \<Rightarrow> (js_error + user \<times> bool) \<times> db" where
  "resolveGoogleAccount hx profile allowedEmailDomains d =
     (case findUserBySub (gp_sub profile) d of
        Some existing \<Rightarrow> (Inr (existing, False), d)
      | None \<Rightarrow>
          (case (if gp_emailVerified profile then findUserByEmail (gp_email profile) d else None) of
             Some existing \<Rightarrow>
               if usr_googleSub existing \<noteq> None \<and> usr_googleSub existing \<noteq> Some (gp_sub profile)
               then (Inl (AppError 409 ''ACCOUNT_LINK_CONFLICT'' ''This email is already linked to a different Google account.''), d)
               else (case updateUnique (\<lambda>r. usr_id r = usr_id existing)
                            (\<lambda>r. r\<lparr>usr_googleSub := Some (gp_sub profile), usr_updatedAt := hx_now hx\<rparr>) (db_users d) of
                       (Inl e, rows) \<Rightarrow> (Inl e, d)
                     | (Inr linked, rows) \<Rightarrow> (Inr (linked, False), d\<lparr>db_users := rows\<rparr>))
           | None \<Rightarrow>
               if \<not> gp_emailVerified profile
               then (Inl (AppError 403 ''GOOGLE_EMAIL_UNVERIFIED'' ''Your Google account email address is not verified.''), d)
               else if \<not> isEmailDomainAllowed (gp_email profile) allowedEmailDomains
               then (Inl (AppError 403 ''EMAIL_DOMAIN_NOT_ALLOWED'' ''Sign-in with this email domain is not allowed.''), d)
               else (case create_user \<lparr>usr_id = hx_id hx 0, usr_email = gp_email profile, usr_passwordHash = None,
                            usr_googleSub = Some (gp_sub profile), usr_createdAt = hx_now hx, usr_updatedAt = hx_now hx\<rparr> d of
                       (Inr created, d) \<Rightarrow> (Inr (created, True), d)
                     | (Inl e, d) \<Rightarrow>
                         (case findUserBySub (gp_sub profile) d of
                            Some raced \<Rightarrow> (Inr (raced, False), d)
                          | None \<Rightarrow> (Inl e, d)))))"

subsection \<open>The Google routes\<close>

definition STATE_COOKIE :: string where
  "STATE_COOKIE = ''relaydock_oauth_state''"

definition stateCookieOptions :: "server_environment \<Rightarrow> cookie_options" where
  "stateCookieOptions env = \<lparr>co_path = ''/api/auth/google'', co_httpOnly = True, co_secure = env_cookieSecure env\<rparr>"

definition redirect_uri :: "server_environment \<Rightarrow> string" where
  "redirect_uri env = the (env_PUBLIC_URL env) @ ''/api/auth/google/callback''"

definition allowed_domains :: "server_environment \<Rightarrow> string list" where
  "allowed_domains env = (case env_GOOGLE_ALLOWED_EMAIL_DOMAINS env of None \<Rightarrow> [] | Some ds \<Rightarrow> ds)"

text \<open>The routes exist only when Google sign-in is enabled; otherwise the request matches none.\<close>

definition get_google :: "http \<Rightarrow> request \<Rightarrow> server \<Rightarrow> outcome" where
  "get_google hx rq sv =
     (let env = hx_env hx in
      if \<not> env_googleEnabled env then reply (not_found_response (rq_id rq)) sv
      else (let state = createOpaqueToken ''oauth'' (hx_bytes hx 0);
                hint = (case allowed_domains env of [domain] \<Rightarrow> Some domain | _ \<Rightarrow> None)
            in reply ((redirect (buildGoogleAuthorizationUrl (the (env_GOOGLE_CLIENT_ID env)) (redirect_uri env) state hint))
                 \<lparr>rs_cookies := [SetCookie STATE_COOKIE state (stateCookieOptions env) 600]\<rparr>) sv))"

fun googleErrorCode :: "js_error \<Rightarrow> string" where
  "googleErrorCode (AppError status code message) =
     (if code = ''EMAIL_DOMAIN_NOT_ALLOWED'' then ''google_domain''
      else if code = ''GOOGLE_EMAIL_UNVERIFIED'' then ''google_unverified''
      else if code = ''ACCOUNT_LINK_CONFLICT'' then ''google_conflict'' else ''google'')"
| "googleErrorCode _ = ''google''"

fun failure_reason :: "js_error \<Rightarrow> string" where
  "failure_reason (AppError status code message) = code"
| "failure_reason _ = ''exception''"

definition google_account ::
  "((string \<times> string) list \<Rightarrow> fetch_result) \<Rightarrow> (string \<Rightarrow> json option) \<Rightarrow> http \<Rightarrow> string \<Rightarrow> db \<Rightarrow> (js_error + user \<times> bool) \<times> db" where
  "google_account fetch decode hx code d =
     (let env = hx_env hx; clientId = the (env_GOOGLE_CLIENT_ID env) in
      case exchangeCodeForIdToken fetch code clientId (the (env_GOOGLE_CLIENT_SECRET env)) (redirect_uri env) of
        Inl e \<Rightarrow> (Inl e, d)
      | Inr idToken \<Rightarrow>
          (case parseGoogleIdToken decode idToken clientId (hx_now hx) of
             Inl e \<Rightarrow> (Inl e, d)
           | Inr profile \<Rightarrow> resolveGoogleAccount hx profile (allowed_domains env) d))"

definition get_google_callback ::
  "((string \<times> string) list \<Rightarrow> fetch_result) \<Rightarrow> (string \<Rightarrow> json option) \<Rightarrow> http \<Rightarrow> request \<Rightarrow> server \<Rightarrow> outcome" where
  "get_google_callback fetch decode hx rq sv =
     (if \<not> env_googleEnabled (hx_env hx) then reply (not_found_response (rq_id rq)) sv
      else
        (let code = string_claim (map_of (rq_query rq) ''code'');
             state = string_claim (map_of (rq_query rq) ''state'');
             error = string_claim (map_of (rq_query rq) ''error'');
             clear = ClearCookie STATE_COOKIE (stateCookieOptions (hx_env hx));
             to = (\<lambda>location cookies. (redirect location)\<lparr>rs_cookies := clear # cookies\<rparr>);
             failed = (\<lambda>reason. on_db (audited hx 5 rq ''auth.oauth_failed'' None None (Some (JObj [(''reason'', JStr reason)]))))
         in if error \<noteq> '''' then reply (to ''/login?error=google_cancelled'' []) (failed (''provider:'' @ take 60 error) sv)
            else if code = '''' \<or> state = '''' \<or>
               (case map_of (rq_cookies rq) STATE_COOKIE of None \<Rightarrow> True | Some cookieState \<Rightarrow> \<not> constantTimeEqual state cookieState)
            then reply (to ''/login?error=google'' []) (failed ''state_mismatch'' sv)
            else (case google_account fetch decode hx code (sdb sv) of
                    (Inl e, d) \<Rightarrow>
                      reply (to (''/login?error='' @ googleErrorCode e) []) (failed (failure_reason e) (on_db (\<lambda>_. d) sv))
                  | (Inr (user, created), d) \<Rightarrow>
                      (case session_create hx 1 (usr_id user) d of
                         ((csrfToken, cookies), d) \<Rightarrow>
                           reply (to ''/devices'' cookies)
                             (on_db (\<lambda>_. audited hx 4 rq (if created then ''auth.oauth_register'' else ''auth.oauth_login'')
                                (Some (usr_id user)) None None d) sv)))))"

subsection \<open>Who signs in with Google\<close>

definition users_keyed :: "db \<Rightarrow> bool" where
  "users_keyed d \<longleftrightarrow> distinct (map usr_id (db_users d)) \<and> distinct (map usr_email (db_users d)) \<and>
     distinct (map usr_googleSub (filter (\<lambda>r. usr_googleSub r \<noteq> None) (db_users d)))"

lemma linked_subs_distinct:
  assumes "distinct (map usr_id rows)" and "distinct (map usr_googleSub (filter (\<lambda>r. usr_googleSub r \<noteq> None) rows))"
    and "\<forall>r \<in> set rows. usr_googleSub r \<noteq> Some sub"
  shows "distinct (map usr_googleSub (filter (\<lambda>r. usr_googleSub r \<noteq> None)
    (updateMany (\<lambda>r. usr_id r = i) (\<lambda>r. r\<lparr>usr_googleSub := Some sub, usr_updatedAt := now\<rparr>) rows)))"
  using assms
proof (induction rows)
  case (Cons r rows)
  show ?case
  proof (cases "usr_id r = i")
    case True
    then have same: "updateMany (\<lambda>r. usr_id r = i) (\<lambda>r. r\<lparr>usr_googleSub := Some sub, usr_updatedAt := now\<rparr>) rows = rows"
      using Cons.prems(1) by (auto simp: updateMany_def image_iff intro!: map_idI)
    show ?thesis
      using Cons.prems by (auto simp: True same split: if_splits)
  next
    case False
    then show ?thesis
      using Cons by (auto simp: set_updateMany split: if_splits)
  qed
qed simp

lemma create_user_keyed:
  assumes "users_keyed d" and "create_user u d = (Inr v, d')" and "usr_id u \<notin> usr_id ` set (db_users d)"
  shows "users_keyed d' \<and> v = u \<and> d' = d\<lparr>db_users := db_users d @ [u]\<rparr>"
proof -
  have "\<forall>r \<in> set (db_users d). usr_email r \<noteq> usr_email u \<and> (usr_googleSub u \<noteq> None \<longrightarrow> usr_googleSub r \<noteq> usr_googleSub u)"
    and "v = u \<and> d' = d\<lparr>db_users := db_users d @ [u]\<rparr>"
    using assms(2) by (auto simp: create_user_def split: if_splits)
  then show ?thesis
    using assms(1,3) by (fastforce simp: users_keyed_def)
qed

text \<open>
  C15. Who may sign in with Google. A sign-in always ends in an account of the table that is linked to
  this Google identity; every other account is left as it was, and identifiers, addresses and links
  stay unique. An identity with an unverified address reaches only an account already linked to it: it
  neither takes over an account with that address nor creates one. A new account has a verified address
  in an allowed domain. A refused sign-in changes nothing.
\<close>

theorem google_sign_in:
  assumes keyed: "users_keyed d" and fresh: "hx_id hx 0 \<notin> usr_id ` set (db_users d)"
    and run: "resolveGoogleAccount hx profile domains d = (res, d')"
  shows "case res of
      Inl e \<Rightarrow> d' = d \<and> findUserBySub (gp_sub profile) d = None
    | Inr (usr, created) \<Rightarrow> users_keyed d' \<and> usr \<in> set (db_users d') \<and> usr_googleSub usr = Some (gp_sub profile) \<and>
        filter (\<lambda>r. usr_id r \<noteq> usr_id usr) (db_users d') = filter (\<lambda>r. usr_id r \<noteq> usr_id usr) (db_users d) \<and>
        (\<not> gp_emailVerified profile \<longrightarrow> d' = d) \<and>
        (d' \<noteq> d \<longrightarrow> usr_email usr = gp_email profile) \<and>
        (created \<longleftrightarrow> usr_id usr \<notin> usr_id ` set (db_users d)) \<and>
        (created \<longrightarrow> gp_emailVerified profile \<and> isEmailDomainAllowed (gp_email profile) domains)"
proof (cases "findUserBySub (gp_sub profile) d")
  case (Some u)
  then have "u \<in> set (db_users d) \<and> usr_googleSub u = Some (gp_sub profile)"
    by (auto simp: findUserBySub_def dest: find_SomeD)
  then show ?thesis
    using run keyed Some by (auto simp: resolveGoogleAccount_def)
next
  case unlinked: None
  then have free: "\<forall>r \<in> set (db_users d). usr_googleSub r \<noteq> Some (gp_sub profile)"
    by (simp add: findUserBySub_def find_None_iff_all)
  show ?thesis
  proof (cases "if gp_emailVerified profile then findUserByEmail (gp_email profile) d else None")
    case (Some u)
    then have v: "gp_emailVerified profile" "findUserByEmail (gp_email profile) d = Some u"
      by (auto split: if_splits)
    then have u: "u \<in> set (db_users d)" "usr_email u = gp_email profile"
      by (auto simp: findUserByEmail_def dest: find_SomeD)
    let ?link = "\<lambda>r. r\<lparr>usr_googleSub := Some (gp_sub profile), usr_updatedAt := hx_now hx\<rparr>"
    let ?rows = "updateMany (\<lambda>r. usr_id r = usr_id u) ?link (db_users d)"
    have found: "List.find (\<lambda>r. usr_id r = usr_id u) (db_users d) = Some u"
      using keyed u(1) by (simp add: users_keyed_def find_unique_key)
    show ?thesis
    proof (cases "usr_googleSub u = None")
      case True
      then have res: "res = Inr (?link u, False)" "d' = d\<lparr>db_users := ?rows\<rparr>"
        using run unlinked v found by (simp_all add: resolveGoogleAccount_def updateUnique_def)
      have "users_keyed d'"
        using keyed free linked_subs_distinct [of "db_users d"] by (simp add: res users_keyed_def)
      moreover have "filter (\<lambda>r. usr_id r \<noteq> usr_id u) ?rows = filter (\<lambda>r. usr_id r \<noteq> usr_id u) (db_users d)"
        by (rule filter_updateMany_disjoint) simp
      moreover have "?link u \<in> set ?rows"
        using u(1) by (auto simp: set_updateMany)
      ultimately show ?thesis
        using v(1) u by (simp add: res image_iff) blast
    next
      case False
      then show ?thesis
        using run unlinked v free u(1) by (auto simp: resolveGoogleAccount_def)
    qed
  next
    case None
    show ?thesis
    proof (cases "gp_emailVerified profile \<and> isEmailDomainAllowed (gp_email profile) domains")
      case False
      then show ?thesis
        using run unlinked None by (auto simp: resolveGoogleAccount_def split: if_splits)
    next
      case True
      let ?new = "\<lparr>usr_id = hx_id hx 0, usr_email = gp_email profile, usr_passwordHash = None,
        usr_googleSub = Some (gp_sub profile), usr_createdAt = hx_now hx, usr_updatedAt = hx_now hx\<rparr>"
      have created: "create_user ?new d = (Inr ?new, d\<lparr>db_users := db_users d @ [?new]\<rparr>)"
        using None True free by (auto simp: create_user_def findUserByEmail_def find_None_iff_all)
      then have "res = Inr (?new, True)" "d' = d\<lparr>db_users := db_users d @ [?new]\<rparr>"
        using run unlinked None True by (simp_all add: resolveGoogleAccount_def)
      then show ?thesis
        using True fresh create_user_keyed [OF keyed created] by simp
    qed
  qed
qed

definition example_profile :: "bool \<Rightarrow> google_profile" where
  "example_profile verified = \<lparr>gp_sub = ''g'', gp_email = ''u'', gp_emailVerified = verified, gp_name = None\<rparr>"

theorem google_sign_in_witness:
  "let d = empty_db\<lparr>db_users := [example_user ''u'']\<rparr>;
       linked = resolveGoogleAccount (example_http 5) (example_profile True) [] d;
       refused = resolveGoogleAccount (example_http 5) (example_profile False) [] d
   in (\<exists>usr. fst linked = Inr (usr, False) \<and> usr_googleSub usr = Some ''g'') \<and> users_keyed (snd linked) \<and> snd refused = d"
proof -
  let ?d = "empty_db\<lparr>db_users := [example_user ''u'']\<rparr>"
  let ?run = "\<lambda>v. resolveGoogleAccount (example_http 5) (example_profile v) [] ?d"
  have keyed: "users_keyed ?d" and fresh: "hx_id (example_http 5) 0 \<notin> usr_id ` set (db_users ?d)"
    by (simp_all add: users_keyed_def example_user_def example_http_def)
  have linked: "\<exists>usr. fst (?run True) = Inr (usr, False)"
    and refused: "\<exists>e. fst (?run False) = Inl e"
    by (simp_all add: resolveGoogleAccount_def findUserBySub_def findUserByEmail_def updateUnique_def example_user_def example_profile_def)
  show ?thesis
    using google_sign_in [OF keyed fresh surjective_pairing, of "example_profile True" "[]"]
      google_sign_in [OF keyed fresh surjective_pairing, of "example_profile False" "[]"] linked refused
    by (auto simp: Let_def example_profile_def)
qed

subsection \<open>Who signs in with a password\<close>

text \<open>
  C14. Which password opens an account. Argon2's \<open>verify\<close> is taken to accept exactly the password that
  was hashed. An account with a password opens for that password and no other, with one new session of
  that user; any other attempt adds no session and answers 401. An account without a password, which
  signs in with Google only, also opens: its missing hash is replaced by the one that equalizes the
  time of failed logins, and the text of that hash, a constant of the source, is accepted.
\<close>

theorem password_login:
  assumes argon2: "\<forall>salt p q. lib_verify (hx_lib hx) (lib_hash (hx_lib hx) salt p) q = Some (p = q)"
    and body: "credentialsSchema (hx_lib hx) (rq_body rq) = Some input"
    and user: "findUserByEmail (ci_email input) (sdb sv) = Some u"
    and stored: "usr_passwordHash u = map_option (hashPassword (hx_lib hx) salt) pw"
    and run: "post_login hx rq sv = (res, sv')"
  shows "if ci_password input = (case pw of None \<Rightarrow> ''relaydock-login-timing-equalizer'' | Some p \<Rightarrow> p)
    then (\<exists>r s. res = Inr r \<and> rs_status r = 200 \<and> db_sessions (sdb sv') = db_sessions (sdb sv) @ [s] \<and> ses_userId s = usr_id u)
    else (\<exists>code message. res = Inl (AppError 401 code message)) \<and> db_sessions (sdb sv') = db_sessions (sdb sv)"
proof -
  have "verifyPassword (hx_lib hx) (case Option.bind (Some u) usr_passwordHash of None \<Rightarrow> dummyPasswordHash hx | Some h \<Rightarrow> h) (ci_password input)
    \<longleftrightarrow> ci_password input = (case pw of None \<Rightarrow> ''relaydock-login-timing-equalizer'' | Some p \<Rightarrow> p)"
    using argon2 stored by (auto simp: verifyPassword_def dummyPasswordHash_def hashPassword_def split: option.split)
  then show ?thesis
    using run body user
    by (auto simp: post_login_def with_parsed_def Let_def session_create_def session_row_def json_reply_def on_db_def)
qed

theorem password_login_witness:
  "let user = (example_user ''a@b'')\<lparr>usr_passwordHash := None, usr_googleSub := Some ''g''\<rparr>;
       sv = \<lparr>sr_world = (example_world [])\<lparr>w_db := empty_db\<lparr>db_users := [user]\<rparr>\<rparr>, sr_broker = fresh_broker\<rparr>;
       rq = example_request\<lparr>rq_body := Some (JObj [(''email'', JStr ''a@b''), (''password'', JStr ''relaydock-login-timing-equalizer'')])\<rparr>
   in \<exists>r. fst (post_login (example_http 5) rq sv) = Inr r \<and> rs_status r = 200"
proof -
  let ?user = "(example_user ''a@b'')\<lparr>usr_passwordHash := None, usr_googleSub := Some ''g''\<rparr>"
  let ?sv = "\<lparr>sr_world = (example_world [])\<lparr>w_db := empty_db\<lparr>db_users := [?user]\<rparr>\<rparr>, sr_broker = fresh_broker\<rparr>"
  let ?rq = "example_request\<lparr>rq_body := Some (JObj [(''email'', JStr ''a@b''), (''password'', JStr ''relaydock-login-timing-equalizer'')])\<rparr>"
  let ?in = "\<lparr>ci_email = ''a@b'', ci_password = ''relaydock-login-timing-equalizer''\<rparr>"
  have argon2: "\<forall>salt p q. lib_verify (hx_lib (example_http 5)) (lib_hash (hx_lib (example_http 5)) salt p) q = Some (p = q)"
    by (simp add: example_http_def example_lib_def)
  have body: "credentialsSchema (hx_lib (example_http 5)) (rq_body ?rq) = Some ?in"
    by code_simp
  have user: "findUserByEmail (ci_email ?in) (sdb ?sv) = Some ?user"
    by (simp add: findUserByEmail_def example_user_def)
  have stored: "usr_passwordHash ?user = map_option (hashPassword (hx_lib (example_http 5)) '''') None"
    by simp
  show ?thesis
    using password_login [OF argon2 body user stored surjective_pairing] by (auto simp: Let_def)
qed

end
