(* ===== verification/App.thy ===== *)
theory App
  imports JobRoutes Push AuthRoutes
begin

section \<open>The HTTP server as a whole\<close>

text \<open>
  \<open>app.ts\<close> and the routes every file registers: the origin hook, the table of routes, and the handlers of
  errors and of unknown paths. A request target is its method, its path and, in the request, its
  query. The framework matches a path segment by segment and decodes each parameter with
  \<open>decodeURIComponent\<close>. The two WebSocket routes are \<open>AgentSocket\<close> and \<open>ClientSocket\<close>.
\<close>

text \<open>What the handlers get from outside: the agent's answers to validations, Google, and the process.\<close>

record outside =
  os_answer :: "nat \<Rightarrow> js_error + validation_result"
  os_fetch :: "(string \<times> string) list \<Rightarrow> fetch_result"
  os_decode :: "string \<Rightarrow> json option"
  os_databaseUp :: bool
  os_uptimeSeconds :: int

type_synonym handler = "outside \<Rightarrow> http \<Rightarrow> request \<Rightarrow> server \<Rightarrow> outcome"

subsection \<open>Decoding of path segments\<close>

definition hex_value :: "char \<Rightarrow> nat option" where
  "hex_value c =
     (let n = of_char c :: nat in
      if 48 \<le> n \<and> n \<le> 57 then Some (n - 48)
      else if 65 \<le> n \<and> n \<le> 70 then Some (n - 55)
      else if 97 \<le> n \<and> n \<le> 102 then Some (n - 87) else None)"

fun hex_byte :: "string \<Rightarrow> (nat \<times> string) option" where
  "hex_byte (p # a # b # s) =
     (if p \<noteq> CHR ''%'' then None
      else case (hex_value a, hex_value b) of (Some x, Some y) \<Rightarrow> Some (16 * x + y, s) | _ \<Rightarrow> None)"
| "hex_byte _ = None"

lemma hex_byte_shorter: "hex_byte s = Some (n, s') \<Longrightarrow> length s' < length s"
  by (induction s rule: hex_byte.induct) (auto split: if_splits option.splits)

text \<open>
  \<open>decodeURIComponent\<close> on what fits 8-bit characters: one byte below 128, or the two bytes of UTF-8 from
  there to 255. \<open>None\<close> is the exception it throws.
\<close>

function decodeURIComponent :: "string \<Rightarrow> string option" where
  "decodeURIComponent s =
     (case s of
        [] \<Rightarrow> Some []
      | c # cs \<Rightarrow>
          if c \<noteq> CHR ''%'' then map_option ((#) c) (decodeURIComponent cs)
          else (case hex_byte s of
                  None \<Rightarrow> None
                | Some (n, s1) \<Rightarrow>
                    if n < 128 then map_option ((#) (char_of n)) (decodeURIComponent s1)
                    else if n = 194 \<or> n = 195
                    then (case hex_byte s1 of
                            None \<Rightarrow> None
                          | Some (m, s2) \<Rightarrow>
                              if 128 \<le> m \<and> m < 192
                              then map_option ((#) (char_of ((n - 192) * 64 + (m - 128)))) (decodeURIComponent s2) else None)
                    else None))"
  by pat_completeness auto
termination
  by (relation "measure length") (auto dest!: hex_byte_shorter)

declare decodeURIComponent.simps [simp del]

definition encode_char :: "char \<Rightarrow> string" where
  "encode_char c =
     (let n = of_char c :: nat in
      if is_upper_char c \<or> is_lower_char c \<or> is_digit_char c \<or> c \<in> set ''-_.!~*()'' \<or> n = 39 then [c]
      else if n < 128 then percent n
      else percent (192 + n div 64) @ percent (128 + n mod 64))"

definition encodeURIComponent :: "string \<Rightarrow> string" where
  "encodeURIComponent s = concat (map encode_char s)"

subsection \<open>Routes of the application itself\<close>

definition get_health :: handler where
  "get_health out hx rq sv =
     reply (json_reply 200 (JObj [(''status'', JStr ''ok''), (''uptimeSeconds'', JNum (os_uptimeSeconds out))])) sv"

definition get_ready :: handler where
  "get_ready out hx rq sv =
     (if os_databaseUp out then reply (json_reply 200 (JObj [(''status'', JStr ''ready'')])) sv
      else reply (json_reply 503 (JObj [(''status'', JStr ''not_ready'')])) sv)"

definition get_maintenance :: handler where
  "get_maintenance out hx rq sv =
     (case env_CRON_SECRET (hx_env hx) of
        None \<Rightarrow> fail (AppError 404 ''NOT_FOUND'' ''Not found.'') sv
      | Some secret \<Rightarrow>
          if header rq ''authorization'' \<noteq> Some (''Bearer '' @ secret)
          then fail (AppError 401 ''MAINTENANCE_AUTHENTICATION_REQUIRED'' ''A valid maintenance credential is required.'') sv
          else reply (json_reply 200 (JObj [(''status'', JStr ''ok'')])) (on_db (\<lambda>d. snd (cleanup (hx_env hx) (hx_now hx) d)) sv))"

subsection \<open>The table of routes\<close>

definition public_routes :: "(string \<times> string \<times> handler) list" where
  "public_routes =
     [(''GET'', ''/health'', get_health),
      (''GET'', ''/ready'', get_ready),
      (''GET'', ''/api/internal/maintenance'', get_maintenance),
      (''POST'', ''/api/auth/register'', \<lambda>out. post_register),
      (''POST'', ''/api/auth/login'', \<lambda>out. post_login),
      (''GET'', ''/api/auth/config'', \<lambda>out hx rq. get_auth_config hx),
      (''GET'', ''/api/auth/google'', \<lambda>out. get_google),
      (''GET'', ''/api/auth/google/callback'', \<lambda>out. get_google_callback (os_fetch out) (os_decode out)),
      (''POST'', ''/api/devices/pair'', \<lambda>out. post_pair)]"

definition session_routes :: "(string \<times> string \<times> handler) list" where
  "session_routes =
     [(''GET'', ''/api/auth/session'', \<lambda>out. get_session),
      (''GET'', ''/api/devices'', \<lambda>out. get_devices),
      (''GET'', ''/api/devices/:deviceId'', \<lambda>out. get_device),
      (''GET'', ''/api/devices/:deviceId/repositories'', \<lambda>out. get_device_repositories),
      (''GET'', ''/api/repositories/:repositoryId'', \<lambda>out. get_repository),
      (''GET'', ''/api/repositories/:repositoryId/actions'', \<lambda>out. get_actions),
      (''GET'', ''/api/jobs'', \<lambda>out. get_jobs),
      (''GET'', ''/api/jobs/:jobId'', \<lambda>out. get_job),
      (''GET'', ''/api/jobs/:jobId/output'', \<lambda>out. get_job_output),
      (''GET'', ''/api/push/config'', \<lambda>out. get_push_config)]"

definition csrf_routes :: "(string \<times> string \<times> handler) list" where
  "csrf_routes =
     [(''POST'', ''/api/auth/logout'', \<lambda>out. post_logout),
      (''POST'', ''/api/devices/pairing-codes'', \<lambda>out. post_pairing_codes),
      (''PATCH'', ''/api/devices/:deviceId'', \<lambda>out. patch_device),
      (''DELETE'', ''/api/devices/:deviceId'', \<lambda>out. delete_device),
      (''DELETE'', ''/api/devices/:deviceId/permanent'', \<lambda>out. delete_device_permanent),
      (''POST'', ''/api/devices/:deviceId/repositories'', \<lambda>out. post_device_repositories (os_answer out)),
      (''PATCH'', ''/api/repositories/:repositoryId'', \<lambda>out. patch_repository (os_answer out)),
      (''DELETE'', ''/api/repositories/:repositoryId'', \<lambda>out. delete_repository),
      (''POST'', ''/api/repositories/:repositoryId/actions'', \<lambda>out. post_actions),
      (''PATCH'', ''/api/actions/:actionId'', \<lambda>out. patch_action),
      (''DELETE'', ''/api/actions/:actionId'', \<lambda>out. delete_action),
      (''POST'', ''/api/repositories/:repositoryId/jobs'', \<lambda>out. post_jobs),
      (''POST'', ''/api/jobs/:jobId/cancel'', \<lambda>out. post_job_cancel),
      (''POST'', ''/api/push/subscribe'', \<lambda>out. post_push_subscribe),
      (''DELETE'', ''/api/push/subscribe'', \<lambda>out. delete_push_subscribe)]"

definition routes :: "(string \<times> string \<times> handler) list" where
  "routes = public_routes @ session_routes @ csrf_routes"

fun match_segments :: "string list \<Rightarrow> string list \<Rightarrow> properties option" where
  "match_segments [] [] = Some []"
| "match_segments (p # ps) (s # ss) =
     (if startsWith '':'' p
      then (case decodeURIComponent s of
              Some value \<Rightarrow> if s = '''' then None else map_option ((#) (tl p, JStr value)) (match_segments ps ss)
            | None \<Rightarrow> None)
      else if p = s then match_segments ps ss else None)"
| "match_segments _ _ = None"

definition match_route :: "string \<Rightarrow> string \<Rightarrow> string \<times> string \<times> handler \<Rightarrow> properties option" where
  "match_route meth path r =
     (case r of (m, pattern, h) \<Rightarrow>
        if m \<noteq> meth then None else match_segments (split_on (CHR ''/'') pattern) (split_on (CHR ''/'') path))"

fun find_route :: "string \<Rightarrow> string \<Rightarrow> (string \<times> string \<times> handler) list \<Rightarrow> (handler \<times> properties) option" where
  "find_route meth path [] = None"
| "find_route meth path (r # rs) =
     (case match_route meth path r of
        Some params \<Rightarrow> Some (snd (snd r), params)
      | None \<Rightarrow> find_route meth path rs)"

definition handle :: "outside \<Rightarrow> http \<Rightarrow> string \<Rightarrow> string \<Rightarrow> request \<Rightarrow> server \<Rightarrow> outcome" where
  "handle out hx meth path rq sv =
     (case origin_guard (hx_env hx) path rq of
        Some e \<Rightarrow> fail e sv
      | None \<Rightarrow>
          (case find_route meth path routes of
             None \<Rightarrow> reply (not_found_response (rq_id rq)) sv
           | Some (h, params) \<Rightarrow> h out hx (rq\<lparr>rq_params := params\<rparr>) sv))"

definition serve :: "outside \<Rightarrow> http \<Rightarrow> string \<Rightarrow> string \<Rightarrow> request \<Rightarrow> server \<Rightarrow> response \<times> server" where
  "serve out hx meth path rq sv =
     (case handle out hx meth path rq sv of
        (Inl e, sv) \<Rightarrow> (error_response (rq_id rq) e, sv)
      | (Inr response, sv) \<Rightarrow> (response, sv))"

subsection \<open>No way around the session\<close>

lemma authenticate_params [simp]: "authenticate hx (rq\<lparr>rq_params := p\<rparr>) d = authenticate hx rq d"
  by (simp add: authenticate_def)

lemma header_fields [simp]: "header (rq\<lparr>rq_params := p\<rparr>) name = header rq name" "header (rq\<lparr>rq_auth := a\<rparr>) name = header rq name"
  by (simp_all add: header_def)

lemma requireCsrf_params [simp]: "requireCsrf hx (rq\<lparr>rq_params := p, rq_auth := a\<rparr>) = requireCsrf hx (rq\<lparr>rq_auth := a\<rparr>)"
  by (simp add: requireCsrf_def cong: option.case_cong)

lemma authenticate_refreshes:
  "case authenticate hx rq d of
     (Inl e, d') \<Rightarrow> d' = d
   | (Inr a, d') \<Rightarrow> d' = d \<or>
       d' = d\<lparr>db_sessions := updateMany (\<lambda>r. ses_id r = ax_sessionId a) (\<lambda>r. r\<lparr>ses_lastUsedAt := hx_now hx\<rparr>) (db_sessions d)\<rparr>"
  by (auto simp: authenticate_def Let_def split: option.split)

lemma requireAuth_stops: "authenticate hx rq (sdb sv) = (Inl e, d) \<Longrightarrow> requireAuth hx rq k sv = (Inl e, on_db (\<lambda>_. d) sv)"
  by (simp add: requireAuth_def)

lemma requireAuthCsrf_stops:
  "authenticate hx rq (sdb sv) = (Inl e, d) \<Longrightarrow> requireAuthCsrf hx rq k sv = (Inl e, on_db (\<lambda>_. d) sv)"
  "authenticate hx rq (sdb sv) = (Inr a, d) \<Longrightarrow> requireCsrf hx (rq\<lparr>rq_auth := Some a\<rparr>) = Some e \<Longrightarrow>
    requireAuthCsrf hx rq k sv = (Inl e, on_db (\<lambda>_. d) sv)"
  by (simp_all add: requireAuthCsrf_def requireAuth_def)

lemma session_routes_guarded:
  assumes "r \<in> set session_routes" and "authenticate hx rq (sdb sv) = (Inl e, d)"
  shows "snd (snd r) out hx rq sv = (Inl e, on_db (\<lambda>_. d) sv)"
proof -
  note stop = requireAuth_stops [OF assms(2)]
  have "\<forall>r \<in> set session_routes. snd (snd r) out hx rq sv = (Inl e, on_db (\<lambda>_. d) sv)"
    by (simp add: session_routes_def stop get_session_def get_devices_def get_device_def get_device_repositories_def get_repository_def
        get_actions_def get_jobs_def get_job_def get_job_output_def get_push_config_def)
  then show ?thesis
    using assms(1) by blast
qed

lemma csrf_routes_guarded:
  assumes "r \<in> set csrf_routes" and "\<And>k. requireAuthCsrf hx rq k sv = x"
  shows "snd (snd r) out hx rq sv = x"
proof -
  have "\<forall>r \<in> set csrf_routes. snd (snd r) out hx rq sv = x"
    by (simp add: csrf_routes_def assms(2) post_logout_def post_pairing_codes_def patch_device_def delete_device_def delete_device_permanent_def
        post_device_repositories_def patch_repository_def delete_repository_def post_actions_def patch_action_def delete_action_def
        post_jobs_def post_job_cancel_def post_push_subscribe_def delete_push_subscribe_def)
  then show ?thesis
    using assms(1) by blast
qed

lemma find_route_append:
  "find_route meth path (rs @ ss) = (case find_route meth path rs of None \<Rightarrow> find_route meth path ss | Some x \<Rightarrow> Some x)"
  by (induction rs) (auto split: option.split)

lemma find_route_in: "find_route meth path rs = Some (h, params) \<Longrightarrow> \<exists>r \<in> set rs. h = snd (snd r) \<and> fst r = meth"
  by (induction rs) (auto simp: match_route_def split: option.splits prod.splits if_splits)

text \<open>
  C7. There is no way around the session. A request whose method and path belong to any route but
  the nine public ones does nothing without a valid session: it is answered with the session error and
  the whole state is as before. With a session but without the CSRF token, every request that is not a
  \<open>GET\<close> is refused too, and nothing changes but the time the session was last used.
\<close>

theorem routes_need_session:
  assumes origin: "origin_guard (hx_env hx) path rq = None" and route: "find_route meth path routes = Some (h, params)"
    and guarded: "find_route meth path public_routes = None"
  shows "case authenticate hx rq (sdb sv) of
      (Inl e, d) \<Rightarrow> handle out hx meth path rq sv = (Inl e, sv)
    | (Inr a, d) \<Rightarrow>
        (d = sdb sv \<or> d = (sdb sv)\<lparr>db_sessions :=
           updateMany (\<lambda>r. ses_id r = ax_sessionId a) (\<lambda>r. r\<lparr>ses_lastUsedAt := hx_now hx\<rparr>) (db_sessions (sdb sv))\<rparr>) \<and>
        (\<forall>e. meth \<noteq> ''GET'' \<and> requireCsrf hx (rq\<lparr>rq_auth := Some a\<rparr>) = Some e \<longrightarrow>
           handle out hx meth path rq sv = (Inl e, on_db (\<lambda>_. d) sv))"
proof -
  let ?rq = "rq\<lparr>rq_params := params\<rparr>"
  have run: "handle out hx meth path rq sv = h out hx ?rq sv"
    by (simp add: handle_def origin route)
  have "find_route meth path (session_routes @ csrf_routes) = Some (h, params)"
    using route guarded by (simp add: routes_def find_route_append)
  then obtain r where r: "r \<in> set session_routes \<or> r \<in> set csrf_routes" "h = snd (snd r)" "fst r = meth"
    using find_route_in by (metis Un_iff set_append)
  have get: "fst r = ''GET''" if "r \<in> set session_routes"
    using that by (auto simp: session_routes_def)
  obtain res d where auth: "authenticate hx rq (sdb sv) = (res, d)"
    by fastforce
  show ?thesis
  proof (cases res)
    case (Inl e)
    have auth': "authenticate hx ?rq (sdb sv) = (Inl e, d)"
      using auth Inl by simp
    have "h out hx ?rq sv = (Inl e, on_db (\<lambda>_. d) sv)"
      using r session_routes_guarded [OF _ auth'] csrf_routes_guarded [OF _ requireAuthCsrf_stops(1) [OF auth']] by metis
    moreover have "d = sdb sv"
      using authenticate_refreshes [where hx = hx and rq = rq and d = "sdb sv"] by (simp add: auth Inl)
    ultimately show ?thesis
      by (simp add: auth Inl run on_db_def)
  next
    case (Inr a)
    have auth': "authenticate hx ?rq (sdb sv) = (Inr a, d)"
      using auth Inr by simp
    have "h out hx ?rq sv = (Inl e, on_db (\<lambda>_. d) sv)" if "meth \<noteq> ''GET''" "requireCsrf hx (rq\<lparr>rq_auth := Some a\<rparr>) = Some e" for e
    proof -
      have "requireCsrf hx (?rq\<lparr>rq_auth := Some a\<rparr>) = Some e"
        using that(2) by simp
      from csrf_routes_guarded [OF _ requireAuthCsrf_stops(2) [OF auth' this]] show ?thesis
        using r get that(1) by metis
    qed
    then show ?thesis
      using authenticate_refreshes [where hx = hx and rq = rq and d = "sdb sv"] by (simp add: auth Inr run)
  qed
qed

definition example_outside :: outside where
  "example_outside = \<lparr>os_answer = (\<lambda>_. Inl ZodError), os_fetch = (\<lambda>_. Unreachable), os_decode = (\<lambda>_. None), os_databaseUp = True, os_uptimeSeconds = 0\<rparr>"

theorem routes_need_session_witness:
  "handle example_outside (example_http 5) ''DELETE'' ''/api/devices/d'' example_request (example_server empty_db) =
    (Inl (AppError 401 ''AUTHENTICATION_REQUIRED'' ''Sign in to continue.''), example_server empty_db)"
proof -
  have origin: "origin_guard (hx_env (example_http 5)) ''/api/devices/d'' example_request = None"
    by code_simp
  have "decodeURIComponent ''d'' = Some ''d''"
    by code_simp
  then have route: "find_route ''DELETE'' ''/api/devices/d'' routes = Some (\<lambda>out. delete_device, [(''deviceId'', JStr ''d'')])"
    by (simp add: routes_def public_routes_def session_routes_def csrf_routes_def match_route_def startsWith_def)
  have guarded: "find_route ''DELETE'' ''/api/devices/d'' public_routes = None"
    by (simp add: public_routes_def match_route_def startsWith_def)
  have "authenticate (example_http 5) example_request (sdb (example_server empty_db)) =
      (Inl (AppError 401 ''AUTHENTICATION_REQUIRED'' ''Sign in to continue.''), empty_db)"
    by (simp add: authenticate_def example_request_def example_server_def)
  then show ?thesis
    using routes_need_session [OF origin route guarded, of example_outside "example_server empty_db"] by simp
qed

end
