(* ===== verification/ClientSocket.thy ===== *)
theory ClientSocket
  imports Services
begin

section \<open>The browser's WebSocket\<close>

text \<open>
  The route \<open>/ws/client\<close> of \<open>routes/websockets.ts\<close>: subscriptions with their replay, terminal input,
  resizing and cancellation, one message after the other.
\<close>

record client_session =
  cs_userId :: ident
  cs_socket :: sock
  cs_request :: request

definition REPLAY_LIMIT :: nat where
  "REPLAY_LIMIT = 1000"

definition output_message :: "ident \<Rightarrow> served_chunk \<Rightarrow> server_to_client" where
  "output_message jobId c = ClientJobOutput jobId (out_chunk.truncate c)"

text \<open>\<open>sendClient\<close> sends when the socket is open, like \<open>send_each\<close> on every message.\<close>

definition sendClient :: "sock \<Rightarrow> server_to_client list \<Rightarrow> world \<Rightarrow> world" where
  "sendClient s ms w = on_hub (send_each s ms) w"

definition handle_subscribe ::
  "int \<Rightarrow> ctx \<Rightarrow> client_session \<Rightarrow> ident \<Rightarrow> int \<Rightarrow> world \<Rightarrow> js_error option \<times> world" where
  "handle_subscribe m cx s jobId afterSequence w =
     (case findUserJob (cs_userId s) jobId (w_db w) of
        None \<Rightarrow> (Some JOB_NOT_FOUND, w)
      | Some job \<Rightarrow>
          (let w = on_hub (beginSubscription (cs_socket s) (job_id job)) w;
               w = flush_and_wait m cx (job_id job) w
           in case replay (cs_userId s) (job_id job) afterSequence REPLAY_LIMIT (w_db w) of
                Inl e \<Rightarrow> (Some e, w)
              | Inr chunks \<Rightarrow>
                  (let w = sendClient (cs_socket s) (map (output_message (job_id job)) chunks) w;
                       w = sendClient (cs_socket s)
                             [ClientJobStatus (job_id job) (job_status job) (Some (job_exitCode job))] w
                   in (None, on_hub (finishSubscription (cs_socket s) (job_id job)) w))))"

fun handle_client ::
  "int \<Rightarrow> http \<Rightarrow> client_session \<Rightarrow> client_to_server \<Rightarrow> world \<Rightarrow> js_error option \<times> world" where
  "handle_client m hx s (JobSubscribe jobId afterSequence) w = handle_subscribe m (hx_ctx hx) s jobId afterSequence w"
| "handle_client m hx s (JobUnsubscribe jobId) w = (None, on_hub (unsubscribe (cs_socket s) jobId) w)"
| "handle_client m hx s (ClientJobInput jobId inputSequence data) w =
     (case forwardInput (hx_ctx hx) (cs_userId s) jobId inputSequence data w of
        (Inl e, w) \<Rightarrow> (Some e, w) | (Inr _, w) \<Rightarrow> (None, w))"
| "handle_client m hx s (ClientJobResize jobId columns rows) w =
     (case forwardResize (hx_ctx hx) (cs_userId s) jobId columns rows w of
        (Inl e, w) \<Rightarrow> (Some e, w) | (Inr _, w) \<Rightarrow> (None, w))"
| "handle_client m hx s (ClientJobCancel jobId) w =
     (case requestCancellation (hx_ctx hx) (cs_userId s) jobId w of
        (Inl e, w) \<Rightarrow> (Some e, w)
      | (Inr job, w) \<Rightarrow>
          (None, w\<lparr>w_db := audit_record (hx_id hx 0) (hx_now hx) (cs_request s)
             \<lparr>ai_action = ''job.cancellation_requested'', ai_userId = Some (cs_userId s),
              ai_deviceId = Some (job_deviceId job),
              ai_metadata = Some (JObj [(''jobId'', JStr (job_id job)), (''source'', JStr ''websocket'')])\<rparr> (w_db w)\<rparr>))"

definition client_open :: "client_session \<Rightarrow> world \<Rightarrow> world" where
  "client_open s w = on_hub (attachClient (cs_userId s) (cs_socket s)) w"

definition client_frame ::
  "int \<Rightarrow> http \<Rightarrow> client_to_server raw \<Rightarrow> client_session \<Rightarrow> world \<Rightarrow> world" where
  "client_frame m hx raw s w =
     (case raw of
        TooLarge \<Rightarrow> on_hub (close_socket (cs_socket s) 1009 ''message too large'') w
      | NotJson \<Rightarrow> closeForError (cs_socket s) (AppError 400 ''JSON_INVALID'' ''Message is not valid JSON.'') w
      | NotInSchema \<Rightarrow> closeForError (cs_socket s) ZodError w
      | Parsed message \<Rightarrow>
          (case handle_client m hx s message w of (None, w) \<Rightarrow> w | (Some e, w) \<Rightarrow> closeForError (cs_socket s) e w))"

definition client_close :: "client_session \<Rightarrow> world \<Rightarrow> world" where
  "client_close s w = on_hub (detachClient (cs_socket s)) w"

subsection \<open>What a subscription sends\<close>

lemma run_links_hub [simp]: "w_hub (run_links m now j n w) = w_hub w"
  by (induction m now j n w rule: run_links.induct) (simp_all add: case_prod_unfold)

lemma flush_and_wait_hub [simp]: "w_hub (flush_and_wait m cx j w) = w_hub w"
  by (simp add: flush_and_wait_def split: prod.splits option.splits)

lemma on_hub_fields [simp]: "w_hub (on_hub f w) = f (w_hub w)" "w_db (on_hub f w) = w_db w"
  by (simp_all add: on_hub_def)

lemma sent_each:
  assumes "sk_readyState (hub_sockets h s) = OPEN_STATE"
  shows "sk_sent (hub_sockets (send_each s ms h) s) = sk_sent (hub_sockets h s) @ map ToClient ms"
    and "sk_readyState (hub_sockets (send_each s ms h) s) = OPEN_STATE"
  using assms by (induction ms arbitrary: h) (simp_all add: send_def send_on_def)

lemma send_each_subscription [simp]: "subscription_of s j (send_each s' ms h) = subscription_of s j h"
  by (simp add: subscription_of_def)

lemma begin_finish_sent:
  assumes "sk_readyState (hub_sockets h s) = OPEN_STATE" and "map_of (hub_clients h) s = Some c"
  shows "sk_sent (hub_sockets (finishSubscription s j (send_each s ms (beginSubscription s j h))) s) =
      sk_sent (hub_sockets h s) @ map ToClient ms"
    and "subscription_of s j (finishSubscription s j (send_each s ms (beginSubscription s j h))) =
      Some \<lparr>sub_replaying = False, sub_queuedMessages = []\<rparr>"
proof -
  have "subscription_of s j (beginSubscription s j h) = Some \<lparr>sub_replaying = True, sub_queuedMessages = []\<rparr>"
    and "hub_sockets (beginSubscription s j h) = hub_sockets h"
    using assms(2) by (simp_all add: beginSubscription_def set_subscription_def subscription_of_def)
  then show "sk_sent (hub_sockets (finishSubscription s j (send_each s ms (beginSubscription s j h))) s) =
      sk_sent (hub_sockets h s) @ map ToClient ms"
    and "subscription_of s j (finishSubscription s j (send_each s ms (beginSubscription s j h))) =
      Some \<lparr>sub_replaying = False, sub_queuedMessages = []\<rparr>"
    using sent_each [of "beginSubscription s j h" s ms] assms(1)
    by (simp_all add: subscription_finish) (simp add: finishSubscription_def set_subscription_def split: option.splits)
qed

lemma truncate_served: "out_chunk.truncate (serializeOutputChunk c) = wire_chunk c"
  by (simp add: serializeOutputChunk_def wire_chunk_def out_chunk.truncate_def)

lemma replay_untruncated:
  assumes "findUserJob u j d = Some job" and "\<not> job_outputTruncated job"
  shows "\<exists>chunks. replay u j after n d = Inr chunks \<and>
    map out_chunk.truncate chunks = take n (filter (\<lambda>c. after < oc_sequence c) (output_log j d))"
  using assms by (auto simp: replay_def findUserJob_def output_log_def truncate_served filter_map comp_def take_map wire_chunk_def)

lemma output_log_distinct: "chunks_keyed d \<Longrightarrow> distinct (output_log j d)"
proof -
  assume "chunks_keyed d"
  then have "distinct (map oc_sequence (output_log j d))"
    using chunks_keyed_job_sequences [of d j] by (simp add: output_log_def wire_chunk_def comp_def distinct_map)
  then show ?thesis by (simp add: distinct_map)
qed

lemma take_covers:
  assumes "distinct xs"
  shows "length xs \<le> n \<longleftrightarrow> (\<forall>c \<in> set xs. c \<in> set (take n xs))"
proof (cases "length xs \<le> n")
  case False
  then have "xs ! n \<in> set xs"
    by simp
  moreover have "xs ! n \<notin> set (take n xs)"
    using False assms by (auto simp: in_set_conv_nth nth_eq_iff_index_eq)
  ultimately show ?thesis
    using False by blast
qed simp

text \<open>
  What a (re)subscribing viewer is sent. While its socket is open it gets the stored output beyond the
  sequence it names, oldest first, then the status, and then the job's broadcasts; but the replay
  ends after 1000 chunks. With at most 1000 chunks to catch up with it has the whole output; every
  chunk beyond them is not sent, although the broadcasts that follow continue after it.
\<close>

theorem subscribe_catches_up:
  assumes job: "findUserJob (cs_userId s) j (w_db w) = Some job"
    and opened: "sk_readyState (hub_sockets (w_hub w) (cs_socket s)) = OPEN_STATE"
    and client: "map_of (hub_clients (w_hub w)) (cs_socket s) = Some c"
    and d1: "d1 = w_db (flush_and_wait m cx j (on_hub (beginSubscription (cs_socket s) j) w))"
    and whole: "findUserJob (cs_userId s) j d1 = Some job1" "\<not> job_outputTruncated job1" and keyed: "chunks_keyed d1"
    and new: "new = filter (\<lambda>c. after < oc_sequence c) (output_log j d1)"
    and run: "handle_subscribe m cx s j after w = (e, w')"
  shows "e = None \<and> w_db w' = d1 \<and>
    subscription_of (cs_socket s) j (w_hub w') = Some \<lparr>sub_replaying = False, sub_queuedMessages = []\<rparr> \<and>
    (\<exists>frames. sk_sent (hub_sockets (w_hub w') (cs_socket s)) = sk_sent (hub_sockets (w_hub w) (cs_socket s)) @ frames \<and>
      frames = map (\<lambda>c. ToClient (ClientJobOutput j c)) (take 1000 new) @
        [ToClient (ClientJobStatus j (job_status job) (Some (job_exitCode job)))] \<and>
      (length new \<le> 1000 \<longleftrightarrow> (\<forall>c \<in> set new. ToClient (ClientJobOutput j c) \<in> set frames)))"
proof -
  have id: "job_id job = j"
    using job by (auto simp: findUserJob_def dest: find_SomeD)
  obtain chunks where r: "replay (cs_userId s) j after REPLAY_LIMIT d1 = Inr chunks"
    and c: "map out_chunk.truncate chunks = take 1000 new"
    using replay_untruncated [OF whole, of after REPLAY_LIMIT] by (auto simp: new REPLAY_LIMIT_def)
  let ?status = "ClientJobStatus j (job_status job) (Some (job_exitCode job))"
  have "map (output_message j) chunks = map (ClientJobOutput j) (map out_chunk.truncate chunks)"
    by (simp add: output_message_def)
  then have ms: "map (output_message j) chunks @ [?status] = map (ClientJobOutput j) (take 1000 new) @ [?status]"
    by (simp only: c)
  have app: "send_each s (ms @ ms') h = send_each s ms' (send_each s ms h)" for s ms ms' h
    by (induction ms arbitrary: h) simp_all
  have w': "e = None" "w_db w' = d1"
    "w_hub w' = finishSubscription (cs_socket s) j
       (send_each (cs_socket s) (map (output_message j) chunks @ [?status]) (beginSubscription (cs_socket s) j (w_hub w)))"
    using run unfolding handle_subscribe_def job
    by (auto simp: Let_def id r [unfolded d1] sendClient_def app d1)
  have "distinct new"
    using output_log_distinct [OF keyed, of j] by (simp add: new)
  then have "length new \<le> 1000 \<longleftrightarrow> (\<forall>c \<in> set new. c \<in> set (take 1000 new))"
    by (rule take_covers)
  moreover have "(ToClient (ClientJobOutput j c) \<in> set (map (\<lambda>c. ToClient (ClientJobOutput j c)) (take 1000 new) @ [ToClient ?status])) =
      (c \<in> set (take 1000 new))" for c
    by auto
  ultimately show ?thesis
    using begin_finish_sent [OF opened client, of j "map (output_message j) chunks @ [?status]"]
    by (simp add: w' ms comp_def)
qed

definition viewer_world :: world where
  "viewer_world = (let w = example_world [example_job ''j'' ''u'' ''d'' Running] in
     w\<lparr>w_hub := attachClient ''u'' 1 (w_hub w),
       w_db := (w_db w)\<lparr>db_chunks := [\<lparr>ch_id = 0, ch_jobId = ''j'', ch_sequence = 4, ch_stream = Stdout, ch_data = ''a'',
         ch_byteLength = 1, ch_timestamp = 2\<rparr>], db_nextId := 1\<rparr>\<rparr>)"

theorem subscribe_catches_up_witness:
  "sk_sent (hub_sockets (w_hub (snd (handle_subscribe 100 example_ctx
      \<lparr>cs_userId = ''u'', cs_socket = 1, cs_request = example_request\<rparr> ''j'' 3 viewer_world))) 1) =
   [ToClient (ClientJobOutput ''j'' \<lparr>oc_sequence = 4, oc_stream = Stdout, oc_data = ''a''\<rparr>),
    ToClient (ClientJobStatus ''j'' Running (Some None))]"
proof -
  let ?s = "\<lparr>cs_userId = ''u'', cs_socket = 1, cs_request = example_request\<rparr>" and ?w = viewer_world
  have flush: "flush_and_wait 100 example_ctx ''j'' (on_hub (beginSubscription (cs_socket ?s) ''j'') ?w) =
      on_hub (beginSubscription (cs_socket ?s) ''j'') ?w"
    by (simp add: flush_and_wait_def flushOutput_def flushPersist_def on_hub_def viewer_world_def Let_def example_world_def no_buffers_def)
  have job: "findUserJob (cs_userId ?s) ''j'' (w_db ?w) = Some (example_job ''j'' ''u'' ''d'' Running)"
    and opened: "sk_readyState (hub_sockets (w_hub ?w) (cs_socket ?s)) = OPEN_STATE"
    and client: "map_of (hub_clients (w_hub ?w)) (cs_socket ?s) = Some \<lparr>cc_userId = ''u'', cc_subscriptions = []\<rparr>"
    and whole: "\<not> job_outputTruncated (example_job ''j'' ''u'' ''d'' Running)" and keyed: "chunks_keyed (w_db ?w)"
    and log: "output_log ''j'' (w_db ?w) = [\<lparr>oc_sequence = 4, oc_stream = Stdout, oc_data = ''a''\<rparr>]"
    and fresh: "sk_sent (hub_sockets (w_hub ?w) (cs_socket ?s)) = []"
    by (simp_all add: findUserJob_def viewer_world_def Let_def example_world_def example_defs fresh_hub_def
        attachClient_def open_socket_def OPEN_STATE_def chunks_keyed_def output_log_def chunks_of_def wire_chunk_def)
  obtain e w' where run: "handle_subscribe 100 example_ctx ?s ''j'' 3 ?w = (e, w')"
    by fastforce
  have "w_db ?w = w_db (flush_and_wait 100 example_ctx ''j'' (on_hub (beginSubscription (cs_socket ?s) ''j'') ?w))"
    by (simp only: flush on_hub_fields)
  from subscribe_catches_up [OF job opened client this job whole keyed refl run]
  show ?thesis
    unfolding run snd_conv by (simp add: log fresh example_job_def) (simp add: fresh [simplified])
qed

end
