(* ===== verification/Paging.thy ===== *)
theory Paging
  imports ClientSocket
begin

section \<open>Stored output, page by page\<close>

text \<open>
  Both ways a browser reads stored output go through pages of 1000 chunks: the HTTP route and the
  replay of a subscription. The contract between the reader and the server: a page is the beginning of
  what lies beyond the cursor, a page shorter than 1000 is all of it, and the last sequence of a full
  page is the cursor of the rest. The readers' lemmas rest on the contract only; \<open>replay\<close> fulfils it.
\<close>

locale paged_source =
  fixes ok :: "'d \<Rightarrow> bool"
    and page :: "'d \<Rightarrow> int \<Rightarrow> 'a out_chunk_scheme list"
    and stream :: "'d \<Rightarrow> int \<Rightarrow> 'a out_chunk_scheme list"
  assumes page_prefix: "\<exists>rest. stream d cursor = page d cursor @ rest"
    and page_short: "length (page d cursor) < 1000 \<Longrightarrow> page d cursor = stream d cursor"
    and stream_beyond: "c \<in> set (stream d cursor) \<Longrightarrow> cursor < oc_sequence c"
    and stream_sorted: "ok d \<Longrightarrow> sorted (map oc_sequence (stream d cursor))"
    and stream_resume: "ok d \<Longrightarrow> stream d cursor = page d cursor @ rest \<Longrightarrow> 1000 \<le> length (page d cursor) \<Longrightarrow>
      stream d (oc_sequence (last (page d cursor))) = rest"
begin

lemma page_cases:
  assumes "ok d"
  shows "length (page d cursor) < 1000 \<and> page d cursor = stream d cursor \<or>
    1000 \<le> length (page d cursor) \<and> cursor < oc_sequence (last (page d cursor)) \<and>
    stream d cursor = page d cursor @ stream d (oc_sequence (last (page d cursor)))"
proof (cases "length (page d cursor) < 1000")
  case False
  obtain rest where rest: "stream d cursor = page d cursor @ rest"
    using page_prefix by blast
  moreover have "page d cursor \<noteq> []"
    using False by auto
  then have "last (page d cursor) \<in> set (stream d cursor)"
    by (simp add: rest)
  ultimately show ?thesis
    using False stream_resume [OF assms rest] stream_beyond [of "last (page d cursor)" d cursor] by simp
qed (use page_short in blast)

lemma page_maximum:
  assumes "ok d" and "page d cursor \<noteq> []"
  shows "fold (\<lambda>c maximum. max maximum (oc_sequence c)) (page d cursor) cursor = oc_sequence (last (page d cursor))"
proof -
  have up: "fold (\<lambda>c maximum. max maximum (oc_sequence c)) xs m = oc_sequence (last xs)"
    if "sorted (map oc_sequence xs)" and "xs \<noteq> []" and "m \<le> oc_sequence (hd xs)" for xs :: "'a out_chunk_scheme list" and m
    using that by (induction xs arbitrary: m) (auto simp: max_def)
  obtain rest where rest: "stream d cursor = page d cursor @ rest"
    using page_prefix by blast
  then have "sorted (map oc_sequence (page d cursor))"
    using stream_sorted [OF assms(1), of cursor] by (simp add: sorted_append)
  moreover have "cursor \<le> oc_sequence (hd (page d cursor))"
    using stream_beyond [of "hd (page d cursor)" d cursor] assms(2) by (simp add: rest less_imp_le)
  ultimately show ?thesis
    using up assms(2) by blast
qed

end

locale strict_source = paged_source +
  assumes stream_strict: "ok d \<Longrightarrow> sorted_wrt (<) (map oc_sequence (stream d cursor))"

subsection \<open>The server's replay\<close>

definition stored_ok :: "db \<Rightarrow> bool" where
  "stored_ok d \<longleftrightarrow> chunks_keyed d \<and> (\<forall>c \<in> set (db_chunks d). 0 \<le> ch_sequence c)"

text \<open>
  The output of a job with the notice for what was removed, beyond a cursor; strict when the notice's
  sequence is free, that is, when what was removed included the first chunk.
\<close>

definition whole_output :: "ident \<Rightarrow> ident \<Rightarrow> db \<Rightarrow> int \<Rightarrow> served_chunk list" where
  "whole_output userId jobId d cursor =
     (case replay userId jobId cursor (length (db_chunks d)) d of Inl _ \<Rightarrow> [] | Inr chunks \<Rightarrow> chunks)"

definition output_page :: "ident \<Rightarrow> ident \<Rightarrow> db \<Rightarrow> int \<Rightarrow> served_chunk list" where
  "output_page userId jobId d cursor =
     (case replay userId jobId cursor REPLAY_LIMIT d of Inl _ \<Rightarrow> [] | Inr chunks \<Rightarrow> chunks)"

definition strictly_ok :: "ident \<Rightarrow> ident \<Rightarrow> db \<Rightarrow> bool" where
  "strictly_ok userId jobId d \<longleftrightarrow> stored_ok d \<and>
     (\<forall>job. findUserJob userId jobId d = Some job \<longrightarrow> job_outputTruncated job \<longrightarrow> (\<forall>c \<in> set (chunks_of jobId (db_chunks d)). 0 < ch_sequence c))"

lemma filter_resume:
  assumes "strict_sorted_by key xs" and "ys = filter (\<lambda>x. c < key x) xs" and "ys \<noteq> []" and "0 < n"
  shows "filter (\<lambda>x. key (last (take n ys)) < key x) xs = drop n ys"
proof -
  have ys: "strict_sorted_by key ys"
    using assms(1,2) by (auto intro: strict_sorted_by_filter)
  let ?l = "last (take n ys)"
  have l: "?l \<in> set ys"
    using assms(3,4) by (metis in_set_takeD last_in_set take_eq_Nil neq0_conv)
  then have "c < key ?l"
    using assms(2) by auto
  then have "filter (\<lambda>x. key ?l < key x) xs = filter (\<lambda>x. key ?l < key x) ys"
    by (auto simp: assms(2) intro!: filter_cong)
  also have "\<dots> = drop n ys"
    using ys assms(3,4) by (intro strict_sorted_filter_above_last) auto
  finally show ?thesis .
qed

definition notice_part :: "job \<Rightarrow> db \<Rightarrow> int \<Rightarrow> served_chunk list" where
  "notice_part job d cursor =
     (let rows = sort_key ch_sequence (chunks_of (job_id job) (db_chunks d));
          noticeSequence = max 0 ((case rows of [] \<Rightarrow> 1 | c # _ \<Rightarrow> ch_sequence c) - 1)
      in if job_outputTruncated job \<and> cursor < noticeSequence then [retention_notice noticeSequence] else [])"

abbreviation stored_beyond :: "ident \<Rightarrow> db \<Rightarrow> int \<Rightarrow> chunk list" where
  "stored_beyond jobId d cursor \<equiv> filter (\<lambda>c. cursor < ch_sequence c) (sort_key ch_sequence (chunks_of jobId (db_chunks d)))"

lemma replay_parts:
  "replay u j cursor n d = (case findUserJob u j d of
     None \<Rightarrow> Inl (AppError 404 ''JOB_NOT_FOUND'' ''Job not found.'')
   | Some job \<Rightarrow> Inr (notice_part job d cursor @ map serializeOutputChunk (take n (stored_beyond j d cursor))))"
  by (auto simp: replay_def findUserJob_def notice_part_def Let_def split: option.split dest: find_SomeD)

lemma stored_beyond_all: "take (length (db_chunks d)) (stored_beyond j d cursor) = stored_beyond j d cursor"
proof -
  have "length (stored_beyond j d cursor) \<le> length (chunks_of j (db_chunks d))"
    by (metis length_filter_le length_sort)
  also have "\<dots> \<le> length (db_chunks d)"
    by (simp add: chunks_of_def)
  finally show ?thesis by simp
qed

lemma whole_output_parts:
  "whole_output u j d cursor = (case findUserJob u j d of None \<Rightarrow> []
     | Some job \<Rightarrow> notice_part job d cursor @ map serializeOutputChunk (stored_beyond j d cursor))"
  by (simp add: whole_output_def replay_parts stored_beyond_all split: option.split)

lemma output_page_parts:
  "output_page u j d cursor = (case findUserJob u j d of None \<Rightarrow> []
     | Some job \<Rightarrow> notice_part job d cursor @ map serializeOutputChunk (take 1000 (stored_beyond j d cursor)))"
  by (simp add: output_page_def replay_parts REPLAY_LIMIT_def split: option.split)

definition notice_sequence :: "ident \<Rightarrow> db \<Rightarrow> int" where
  "notice_sequence jobId d = max 0 ((case sort_key ch_sequence (chunks_of jobId (db_chunks d)) of [] \<Rightarrow> 1 | c # _ \<Rightarrow> ch_sequence c) - 1)"

lemma notice_part_cases:
  "notice_part job d cursor =
     (if job_outputTruncated job \<and> cursor < notice_sequence (job_id job) d then [retention_notice (notice_sequence (job_id job) d)] else [])"
  by (simp add: notice_part_def notice_sequence_def Let_def)

lemma notice_sequence_le:
  assumes "stored_ok d" and "c \<in> set (chunks_of j (db_chunks d))"
  shows "notice_sequence j d \<le> ch_sequence c" and "0 < ch_sequence c \<Longrightarrow> notice_sequence j d < ch_sequence c"
proof -
  obtain x xs where rows: "sort_key ch_sequence (chunks_of j (db_chunks d)) = x # xs"
    using assms(2) by (metis list.set(1) empty_iff neq_Nil_conv set_sort)
  moreover have "sorted (map ch_sequence (x # xs))"
    by (simp flip: rows)
  moreover have "c \<in> set (x # xs)"
    using assms(2) by (simp flip: rows)
  ultimately have le: "ch_sequence x \<le> ch_sequence c"
    by auto
  have "0 \<le> ch_sequence c"
    using assms by (auto simp: stored_ok_def chunks_of_def)
  then show "notice_sequence j d \<le> ch_sequence c" and "0 < ch_sequence c \<Longrightarrow> notice_sequence j d < ch_sequence c"
    using le by (simp_all add: notice_sequence_def rows)
qed

lemma stored_strict: "stored_ok d \<Longrightarrow> strict_sorted_by ch_sequence (sort_key ch_sequence (chunks_of j (db_chunks d)))"
  by (simp add: stored_ok_def chunks_keyed_job_sequences strict_sorted_by_sort_key)

lemma served_sequence [simp]: "oc_sequence (serializeOutputChunk c) = ch_sequence c"
    "oc_sequence \<circ> serializeOutputChunk = ch_sequence"
  by (auto simp: serializeOutputChunk_def)

lemma findUserJob_id: "findUserJob u j d = Some job \<Longrightarrow> job_id job = j"
  by (auto simp: findUserJob_def dest: find_SomeD)

lemma whole_output_sorted:
  assumes "stored_ok d"
  shows "sorted (map oc_sequence (whole_output u j d cursor))"
    and "strictly_ok u j d \<Longrightarrow> sorted_wrt (<) (map oc_sequence (whole_output u j d cursor))"
proof -
  have s: "sorted_wrt (<) (map ch_sequence (stored_beyond j d cursor))"
    using strict_sorted_by_filter [OF stored_strict [OF assms]] by (simp add: strict_sorted_by_def)
  then have "sorted (map ch_sequence (stored_beyond j d cursor))"
    using strict_sorted_iff by blast
  then show "sorted (map oc_sequence (whole_output u j d cursor))"
    using notice_sequence_le(1) [OF assms]
    by (auto simp: whole_output_parts notice_part_cases retention_notice_def findUserJob_id simp del: sorted_map split: option.split)
  show "strictly_ok u j d \<Longrightarrow> sorted_wrt (<) (map oc_sequence (whole_output u j d cursor))"
    using s notice_sequence_le(2) [OF assms]
    by (auto simp: whole_output_parts notice_part_cases retention_notice_def findUserJob_id strictly_ok_def simp del: sorted_wrt_map split: option.split)
qed

lemma whole_output_resume:
  assumes ok: "stored_ok d" and rest: "whole_output u j d cursor = output_page u j d cursor @ rest"
    and full: "1000 \<le> length (output_page u j d cursor)"
  shows "whole_output u j d (oc_sequence (last (output_page u j d cursor))) = rest"
proof -
  obtain job where job: "findUserJob u j d = Some job"
    using full by (auto simp: output_page_parts split: option.splits)
  let ?R = "stored_beyond j d cursor"
  have "length (notice_part job d cursor) \<le> 1"
    by (simp add: notice_part_cases)
  then have R: "?R \<noteq> []"
    using full by (auto simp: output_page_parts job)
  let ?l = "last (take 1000 ?R)"
  have last: "oc_sequence (last (output_page u j d cursor)) = ch_sequence ?l"
    using R by (simp add: output_page_parts job last_map serializeOutputChunk_def)
  have l: "?l \<in> set ?R"
    using R by (metis in_set_takeD last_in_set take_eq_Nil zero_neq_numeral)
  then have "notice_part job d (ch_sequence ?l) = []"
    using notice_sequence_le(1) [OF ok, of ?l j] findUserJob_id [OF job] by (simp add: notice_part_cases)
  moreover have "filter (\<lambda>x. ch_sequence ?l < ch_sequence x) (sort_key ch_sequence (chunks_of j (db_chunks d))) = drop 1000 ?R"
    by (rule filter_resume [OF stored_strict [OF ok] refl R]) simp
  moreover have "rest = map serializeOutputChunk (drop 1000 ?R)"
  proof -
    have "map serializeOutputChunk ?R = map serializeOutputChunk (take 1000 ?R) @ map serializeOutputChunk (drop 1000 ?R)"
      by (metis append_take_drop_id map_append)
    then show ?thesis
      using rest by (simp add: whole_output_parts output_page_parts job)
  qed
  ultimately show ?thesis
    by (simp add: last whole_output_parts job)
qed

interpretation stored: paged_source stored_ok "output_page u j" "whole_output u j" for u j
proof
  fix d cursor and c :: served_chunk and rest
  show "\<exists>rest. whole_output u j d cursor = output_page u j d cursor @ rest"
    by (auto simp: whole_output_parts output_page_parts intro: exI [of _ "map serializeOutputChunk (drop 1000 (stored_beyond j d cursor))"]
      simp flip: map_append split: option.split)
  show "output_page u j d cursor = whole_output u j d cursor" if "length (output_page u j d cursor) < 1000"
    using that by (auto simp: whole_output_parts output_page_parts split: option.splits)
  show "cursor < oc_sequence c" if "c \<in> set (whole_output u j d cursor)"
    using that by (auto simp: whole_output_parts notice_part_cases retention_notice_def serializeOutputChunk_def split: option.splits if_splits)
  show "sorted (map oc_sequence (whole_output u j d cursor))" if "stored_ok d"
    using that by (rule whole_output_sorted)
  show "whole_output u j d (oc_sequence (last (output_page u j d cursor))) = rest"
    if "stored_ok d" "whole_output u j d cursor = output_page u j d cursor @ rest" "1000 \<le> length (output_page u j d cursor)"
    using that by (rule whole_output_resume)
qed

interpretation strictly: strict_source "strictly_ok u j" "output_page u j" "whole_output u j" for u j
proof
  fix d cursor and c :: served_chunk and rest
  show "\<exists>rest. whole_output u j d cursor = output_page u j d cursor @ rest"
    by (rule stored.page_prefix)
  show "output_page u j d cursor = whole_output u j d cursor" if "length (output_page u j d cursor) < 1000"
    using that by (rule stored.page_short)
  show "cursor < oc_sequence c" if "c \<in> set (whole_output u j d cursor)"
    using that by (rule stored.stream_beyond)
  show "sorted (map oc_sequence (whole_output u j d cursor))" if "strictly_ok u j d"
    using that by (simp add: strictly_ok_def whole_output_sorted)
  show "whole_output u j d (oc_sequence (last (output_page u j d cursor))) = rest"
    if "strictly_ok u j d" "whole_output u j d cursor = output_page u j d cursor @ rest" "1000 \<le> length (output_page u j d cursor)"
    using that by (simp add: strictly_ok_def whole_output_resume)
  show "sorted_wrt (<) (map oc_sequence (whole_output u j d cursor))" if "strictly_ok u j d"
    using that by (simp add: strictly_ok_def whole_output_sorted(2) [unfolded strictly_ok_def])
qed

end
