(* ===== verification/ApiClient.thy ===== *)
theory ApiClient
  imports App Paging
begin

section \<open>The browser's API client\<close>

text \<open>
  \<open>apps/web/src/api/client.ts\<close>: the request every call makes, the errors it turns a response into, the
  call per route, and the loop that reads a job's stored output page by page. \<open>fetch\<close> is a parameter.
\<close>

subsection \<open>Requests\<close>

text \<open>What is thrown: an \<open>ApiError\<close> (message and code as the body has them), or an error of \<open>json()\<close>.\<close>

datatype api_error =
    ApiError json int json "json option"
  | NotJsonError
  | BadBodyError

datatype browser_fetch = FetchFailed | Fetched int "json option"

record api_request =
  ar_path :: string
  ar_method :: string
  ar_headers :: "(string \<times> string) list"
  ar_body :: "json option"

fun split_entries :: "string \<Rightarrow> string list" where
  "split_entries [] = [[]]"
| "split_entries [c] = [[c]]"
| "split_entries (c # d # s) =
     (if c = CHR '';'' \<and> d = CHR '' '' then [] # split_entries s
      else (case split_entries (d # s) of [] \<Rightarrow> [[c]] | w # ws \<Rightarrow> (c # w) # ws))"

text \<open>\<open>cookie\<close>: absent, or what \<open>decodeURIComponent\<close> makes of the value, which can throw.\<close>

definition cookie_value :: "string \<Rightarrow> string \<Rightarrow> string option option" where
  "cookie_value document_cookie name =
     (let pre = encodeURIComponent name @ ''=''
      in case List.find (startsWith pre) (split_entries document_cookie) of
           None \<Rightarrow> None
         | Some entry \<Rightarrow> Some (decodeURIComponent (drop (length pre) entry)))"

definition request_headers :: "string \<Rightarrow> json option \<Rightarrow> string option \<Rightarrow> (string \<times> string) list" where
  "request_headers meth body csrfToken =
     (if body \<noteq> None then [(''content-type'', ''application/json'')] else []) @
     (case csrfToken of
        Some token \<Rightarrow> if meth \<notin> {''GET'', ''HEAD'', ''OPTIONS''} \<and> token \<noteq> '''' then [(''x-csrf-token'', token)] else []
      | None \<Rightarrow> [])"

text \<open>\<open>None\<close> when the cookie's value cannot be decoded, which throws before anything is sent.\<close>

definition build_request :: "string \<Rightarrow> string \<Rightarrow> string \<Rightarrow> json option \<Rightarrow> api_request option" where
  "build_request document_cookie meth path body =
     (case cookie_value document_cookie ''relaydock_csrf'' of
        Some None \<Rightarrow> None
      | Some (Some token) \<Rightarrow> Some \<lparr>ar_path = ''/api'' @ path, ar_method = meth, ar_headers = request_headers meth body (Some token), ar_body = body\<rparr>
      | None \<Rightarrow> Some \<lparr>ar_path = ''/api'' @ path, ar_method = meth, ar_headers = request_headers meth body None, ar_body = body\<rparr>)"

definition or_else :: "json option \<Rightarrow> json \<Rightarrow> json" where
  "or_else x d = (case x of None \<Rightarrow> d | Some JNull \<Rightarrow> d | Some j \<Rightarrow> j)"

text \<open>
  The value of a response, \<open>None\<close> for an empty one; the flag is the event that the session is no longer
  authorized.
\<close>

definition read_response :: "browser_fetch \<Rightarrow> bool \<times> (api_error + json option)" where
  "read_response outcome =
     (case outcome of
        FetchFailed \<Rightarrow>
          (False, Inl (ApiError (JStr ''RelayDock is unreachable. Check your connection and try again.'') 0 (JStr ''OFFLINE'') None))
      | Fetched status body \<Rightarrow>
          if \<not> (200 \<le> status \<and> status \<le> 299)
          then (status = 401,
            (case (case body of None \<Rightarrow> Some (JObj []) | Some JNull \<Rightarrow> None | Some b \<Rightarrow> Some b) of
               None \<Rightarrow> Inl BadBodyError
             | Some b \<Rightarrow>
                 (let error = property ''error'' b; field = (\<lambda>name. Option.bind error (property name))
                  in Inl (ApiError (or_else (field ''message'') (JStr (''Request failed with status '' @ int_string status @ ''.'')))
                       status (or_else (field ''code'') (JStr ''REQUEST_FAILED'')) (field ''requestId'')))))
          else if status = 204 then (False, Inr None)
          else (case body of None \<Rightarrow> (False, Inl NotJsonError) | Some b \<Rightarrow> (False, Inr (Some b))))"

definition queryString :: "(string \<times> string option) list \<Rightarrow> string" where
  "queryString values =
     (let query = form_encode (List.map_filter (\<lambda>(k, v). case v of None \<Rightarrow> None | Some x \<Rightarrow> if x = '''' then None else Some (k, x)) values)
      in if query = '''' then '''' else ''?'' @ query)"

subsection \<open>The calls\<close>

datatype api_call =
    CallSession
  | CallLogin string string
  | CallRegister string string
  | CallLogout
  | CallAuthConfig
  | CallPushConfig
  | CallSubscribePush string string string
  | CallUnsubscribePush string
  | CallDevices
  | CallDevice ident
  | CallPairDevice
  | CallRenameDevice ident string
  | CallRevokeDevice ident
  | CallDeleteDevice ident
  | CallRepositories ident
  | CallCreateRepository ident json
  | CallRepository ident
  | CallUpdateRepository ident json
  | CallDeleteRepository ident
  | CallActions ident
  | CallCreateAction ident json
  | CallDeleteAction ident
  | CallJobs "string option" "string option" "string option" "int option"
  | CallJob ident
  | CallOutput ident int
  | CallRunAction ident ident bool
  | CallCustomCommand ident properties
  | CallCancelJob ident

text \<open>The method, the path after \<open>/api\<close>, its query, and the body of a call.\<close>

fun call_request :: "api_call \<Rightarrow> string \<times> string \<times> string \<times> json option" where
  "call_request CallSession = (''GET'', ''/auth/session'', '''', None)"
| "call_request (CallLogin email password) = (''POST'', ''/auth/login'', '''', Some (JObj [(''email'', JStr email), (''password'', JStr password)]))"
| "call_request (CallRegister email password) =
     (''POST'', ''/auth/register'', '''', Some (JObj [(''email'', JStr email), (''password'', JStr password)]))"
| "call_request CallLogout = (''POST'', ''/auth/logout'', '''', None)"
| "call_request CallAuthConfig = (''GET'', ''/auth/config'', '''', None)"
| "call_request CallPushConfig = (''GET'', ''/push/config'', '''', None)"
| "call_request (CallSubscribePush endpoint p256dh auth) = (''POST'', ''/push/subscribe'', '''',
     Some (JObj [(''endpoint'', JStr endpoint), (''keys'', JObj [(''p256dh'', JStr p256dh), (''auth'', JStr auth)])]))"
| "call_request (CallUnsubscribePush endpoint) = (''DELETE'', ''/push/subscribe'', '''', Some (JObj [(''endpoint'', JStr endpoint)]))"
| "call_request CallDevices = (''GET'', ''/devices'', '''', None)"
| "call_request (CallDevice d) = (''GET'', ''/devices/'' @ encodeURIComponent d, '''', None)"
| "call_request CallPairDevice = (''POST'', ''/devices/pairing-codes'', '''', None)"
| "call_request (CallRenameDevice d name) = (''PATCH'', ''/devices/'' @ encodeURIComponent d, '''', Some (JObj [(''name'', JStr name)]))"
| "call_request (CallRevokeDevice d) = (''DELETE'', ''/devices/'' @ encodeURIComponent d, '''', None)"
| "call_request (CallDeleteDevice d) = (''DELETE'', ''/devices/'' @ encodeURIComponent d @ ''/permanent'', '''', None)"
| "call_request (CallRepositories d) = (''GET'', ''/devices/'' @ encodeURIComponent d @ ''/repositories'', '''', None)"
| "call_request (CallCreateRepository d input) = (''POST'', ''/devices/'' @ encodeURIComponent d @ ''/repositories'', '''', Some input)"
| "call_request (CallRepository r) = (''GET'', ''/repositories/'' @ encodeURIComponent r, '''', None)"
| "call_request (CallUpdateRepository r input) = (''PATCH'', ''/repositories/'' @ encodeURIComponent r, '''', Some input)"
| "call_request (CallDeleteRepository r) = (''DELETE'', ''/repositories/'' @ encodeURIComponent r, '''', None)"
| "call_request (CallActions r) = (''GET'', ''/repositories/'' @ encodeURIComponent r @ ''/actions'', '''', None)"
| "call_request (CallCreateAction r input) = (''POST'', ''/repositories/'' @ encodeURIComponent r @ ''/actions'', '''', Some input)"
| "call_request (CallDeleteAction a) = (''DELETE'', ''/actions/'' @ encodeURIComponent a, '''', None)"
| "call_request (CallJobs deviceId repositoryId status limit) = (''GET'', ''/jobs'',
     queryString [(''deviceId'', deviceId), (''repositoryId'', repositoryId), (''status'', status), (''limit'', map_option int_string limit)], None)"
| "call_request (CallJob j) = (''GET'', ''/jobs/'' @ encodeURIComponent j, '''', None)"
| "call_request (CallOutput j cursor) =
     (''GET'', ''/jobs/'' @ encodeURIComponent j @ ''/output'', ''?afterSequence='' @ int_string cursor, None)"
| "call_request (CallRunAction r actionId confirmation) = (''POST'', ''/repositories/'' @ encodeURIComponent r @ ''/jobs'', '''',
     Some (JObj [(''actionId'', JStr actionId), (''confirmation'', JBool confirmation)]))"
| "call_request (CallCustomCommand r input) = (''POST'', ''/repositories/'' @ encodeURIComponent r @ ''/jobs'', '''',
     Some (JObj (filter (\<lambda>p. fst p \<noteq> ''confirmation'') input @ [(''confirmation'', JBool True)])))"
| "call_request (CallCancelJob j) = (''POST'', ''/jobs/'' @ encodeURIComponent j @ ''/cancel'', '''', None)"

definition call_api :: "(api_request \<Rightarrow> browser_fetch) \<Rightarrow> string \<Rightarrow> api_call \<Rightarrow> (bool \<times> (api_error + json option)) option" where
  "call_api fetch document_cookie c =
     (case call_request c of (meth, path, query, body) \<Rightarrow>
        map_option (\<lambda>r. read_response (fetch r)) (build_request document_cookie meth (path @ query) body))"

text \<open>\<open>session()\<close>: not being signed in is no error.\<close>

definition session_result :: "api_error + json option \<Rightarrow> api_error + json option" where
  "session_result r = (case r of Inl (ApiError m status c i) \<Rightarrow> if status = 401 then Inr None else r | _ \<Rightarrow> r)"

subsection \<open>All of a job's output\<close>

text \<open>
  \<open>output()\<close>: \<open>fetch n cursor\<close> is the outcome of the \<open>n\<close>-th request. Nothing bounds the number of pages, so
  the loop may not end; \<open>None\<close> is that.
\<close>

partial_function (option) output_loop ::
  "(nat \<Rightarrow> int \<Rightarrow> api_error + 'a out_chunk_scheme list) \<Rightarrow> nat \<Rightarrow> int \<Rightarrow> 'a out_chunk_scheme list \<Rightarrow>
    (api_error + 'a out_chunk_scheme list) option" where
  "output_loop fetch n cursor chunks =
     (case fetch n cursor of
        Inl e \<Rightarrow> Some (Inl e)
      | Inr batch \<Rightarrow>
          (let chunks = chunks @ batch in
           if length batch < 1000 then Some (Inr chunks)
           else (let nextCursor = fold (\<lambda>c maximum. max maximum (oc_sequence c)) batch cursor in
                 if nextCursor \<le> cursor then Some (Inr chunks) else output_loop fetch (Suc n) nextCursor chunks)))"

context paged_source begin

lemma output_loop_reads_stream:
  assumes "ok d" and "\<And>n cursor. fetch n cursor = Inr (page d cursor)"
  shows "output_loop fetch n cursor chunks = Some (Inr (chunks @ stream d cursor))"
proof (induction "length (stream d cursor)" arbitrary: n cursor chunks rule: less_induct)
  case less
  from page_cases [OF assms(1), of cursor] show ?case
  proof
    assume short: "length (page d cursor) < 1000 \<and> page d cursor = stream d cursor"
    then have "length (stream d cursor) < 1000"
      by metis
    with short show ?thesis
      by (subst output_loop.simps) (simp add: assms(2))
  next
    let ?last = "oc_sequence (last (page d cursor))"
    assume full: "1000 \<le> length (page d cursor) \<and> cursor < ?last \<and> stream d cursor = page d cursor @ stream d ?last"
    then have "page d cursor \<noteq> []" "length (stream d ?last) < length (stream d cursor)"
      by (auto simp: dest: arg_cong [of _ _ length])
    from full less [OF this(2), of "Suc n" "chunks @ page d cursor"] page_maximum [OF assms(1) this(1)] show ?thesis
      by (subst output_loop.simps) (simp add: assms(2))
  qed
qed

end

text \<open>
  C20. Reading a job's output ends, with all of it. While the stored output does not change, the browser's
  loop over the output route returns, whatever the cursor it starts from and however many pages there
  are, and what it returns is exactly the stored output beyond the cursor, in order, with the notice for
  what was removed and nothing twice. Nothing in the loop bounds the number of requests: it stops because
  each full page moves the cursor.
\<close>

theorem output_loop_complete:
  assumes "stored_ok d" and "\<And>n cursor. fetch n cursor = Inr (output_page u j d cursor)"
  shows "output_loop fetch 0 cursor [] = Some (Inr (whole_output u j d cursor))"
  using stored.output_loop_reads_stream [where n = 0 and cursor = cursor and chunks = "[]", OF assms] by simp

theorem output_loop_complete_witness:
  "output_loop (\<lambda>n cursor. Inr (output_page ''u'' ''j'' (w_db viewer_world) cursor)) 0 (- 1) [] =
    Some (Inr [\<lparr>oc_sequence = 4, oc_stream = Stdout, oc_data = ''a'', sv_timestamp = Some 2\<rparr>])"
proof -
  have ok: "stored_ok (w_db viewer_world)"
    by (auto simp: stored_ok_def viewer_world_def Let_def example_world_def example_defs chunks_keyed_def)
  have "whole_output ''u'' ''j'' (w_db viewer_world) (- 1) = [\<lparr>oc_sequence = 4, oc_stream = Stdout, oc_data = ''a'', sv_timestamp = Some 2\<rparr>]"
    by code_simp
  with output_loop_complete [OF ok refl, of "''u''" "''j''" "- 1"] show ?thesis
    by simp
qed

subsection \<open>A call against the server\<close>

text \<open>
  A call that reaches the server, on top of a request \<open>rq\<close> with the browser's cookies and headers and the
  call's query as the framework parses it.
\<close>

definition served_outcome :: "outside \<Rightarrow> http \<Rightarrow> request \<Rightarrow> api_call \<Rightarrow> server \<Rightarrow> (bool \<times> (api_error + json option)) \<times> server" where
  "served_outcome out hx rq c sv =
     (case call_request c of (meth, path, query, body) \<Rightarrow>
        (case serve out hx meth (''/api'' @ path) (rq\<lparr>rq_body := body\<rparr>) sv of (response, sv) \<Rightarrow>
           (read_response (Fetched (rs_status response) (rs_body response)), sv)))"

definition served_call :: "outside \<Rightarrow> http \<Rightarrow> request \<Rightarrow> api_call \<Rightarrow> server \<Rightarrow> (api_error + json option) \<times> server" where
  "served_call out hx rq c sv = (case served_outcome out hx rq c sv of (outcome, sv) \<Rightarrow> (snd outcome, sv))"

lemmas served_call_eq = served_call_def served_outcome_def

subsection \<open>Every call reaches its route\<close>

lemma hex_value_digit: "hex_value (hex_digit n) = Some (n mod 16)"
proof -
  have "\<forall>k < 16. hex_value (''0123456789ABCDEF'' ! k) = Some k"
    by (simp add: All_less_Suc numeral_eq_Suc hex_value_def)
  then show ?thesis
    by (simp add: hex_digit_def)
qed

lemma hex_byte_percent: "b < 256 \<Longrightarrow> hex_byte (percent b @ s) = Some (b, s)"
  by (simp add: percent_def hex_value_digit)

lemma hex_digit_no_slash [simp]: "CHR ''/'' \<noteq> hex_digit n"
proof -
  have "\<forall>k < 16. CHR ''/'' \<noteq> ''0123456789ABCDEF'' ! k"
    by (simp add: All_less_Suc numeral_eq_Suc)
  then show ?thesis
    by (simp add: hex_digit_def)
qed

lemma decode_percent:
  assumes "b < 128"
  shows "decodeURIComponent (percent b @ s) = map_option ((#) (char_of b)) (decodeURIComponent s)"
  using assms hex_byte_percent [of b s] by (subst decodeURIComponent.simps) (simp add: percent_def)

lemma decode_two_bytes:
  assumes "128 \<le> n" and "n < 256"
  shows "decodeURIComponent (percent (192 + n div 64) @ percent (128 + n mod 64) @ s) = map_option ((#) (char_of n)) (decodeURIComponent s)"
proof -
  have k: "192 + n div 64 = 194 \<or> 192 + n div 64 = 195"
    using assms by linarith
  have n: "(192 + n div 64 - 192) * 64 + (128 + n mod 64 - 128) = n"
    by (simp add: mult.commute)
  have "128 + n mod 64 < 192"
    by simp
  with k n show ?thesis
    using hex_byte_percent [of "192 + n div 64" "percent (128 + n mod 64) @ s"] hex_byte_percent [of "128 + n mod 64" s] assms
    by (subst decodeURIComponent.simps) (auto simp: percent_def)
qed

lemma decode_encode_char: "decodeURIComponent (encode_char c @ s) = map_option ((#) c) (decodeURIComponent s)"
proof -
  have byte: "of_char c < (256 :: nat)"
    by simp
  show ?thesis
  proof (cases "encode_char c = [c]")
    case True
    have "c \<noteq> CHR ''%''"
      using True by (auto simp: encode_char_def percent_def is_upper_char_def is_lower_char_def is_digit_char_def)
    then show ?thesis
      by (subst decodeURIComponent.simps) (simp add: True)
  next
    case False
    then show ?thesis
      using decode_percent [of "of_char c" s] decode_two_bytes [of "of_char c" s] byte
      by (auto simp: encode_char_def Let_def not_less split: if_splits)
  qed
qed

lemma decode_encode: "decodeURIComponent (encodeURIComponent s) = Some s"
proof (induction s)
  case Nil
  then show ?case
    by (simp add: encodeURIComponent_def decodeURIComponent.simps)
next
  case (Cons c s)
  then show ?case
    using decode_encode_char [of c "encodeURIComponent s"] by (simp add: encodeURIComponent_def)
qed

lemma encode_no_slash: "CHR ''/'' \<notin> set (encodeURIComponent s)"
proof -
  have "CHR ''/'' \<notin> set (encode_char c)" for c
    by (auto simp: encode_char_def percent_def Let_def is_upper_char_def is_lower_char_def is_digit_char_def)
  then show ?thesis
    by (simp add: encodeURIComponent_def)
qed

lemma encode_nonempty [simp]: "encodeURIComponent s = '''' \<longleftrightarrow> s = ''''"
  by (cases s) (auto simp: encodeURIComponent_def encode_char_def percent_def Let_def)

text \<open>The route each call is meant for, with the parameters it should read from the path.\<close>

fun call_route :: "api_call \<Rightarrow> handler \<times> properties" where
  "call_route CallSession = (\<lambda>out. get_session, [])"
| "call_route (CallLogin email password) = (\<lambda>out. post_login, [])"
| "call_route (CallRegister email password) = (\<lambda>out. post_register, [])"
| "call_route CallLogout = (\<lambda>out. post_logout, [])"
| "call_route CallAuthConfig = (\<lambda>out hx rq. get_auth_config hx, [])"
| "call_route CallPushConfig = (\<lambda>out. get_push_config, [])"
| "call_route (CallSubscribePush endpoint p256dh auth) = (\<lambda>out. post_push_subscribe, [])"
| "call_route (CallUnsubscribePush endpoint) = (\<lambda>out. delete_push_subscribe, [])"
| "call_route CallDevices = (\<lambda>out. get_devices, [])"
| "call_route (CallDevice d) = (\<lambda>out. get_device, [(''deviceId'', JStr d)])"
| "call_route CallPairDevice = (\<lambda>out. post_pairing_codes, [])"
| "call_route (CallRenameDevice d name) = (\<lambda>out. patch_device, [(''deviceId'', JStr d)])"
| "call_route (CallRevokeDevice d) = (\<lambda>out. delete_device, [(''deviceId'', JStr d)])"
| "call_route (CallDeleteDevice d) = (\<lambda>out. delete_device_permanent, [(''deviceId'', JStr d)])"
| "call_route (CallRepositories d) = (\<lambda>out. get_device_repositories, [(''deviceId'', JStr d)])"
| "call_route (CallCreateRepository d input) = (\<lambda>out. post_device_repositories (os_answer out), [(''deviceId'', JStr d)])"
| "call_route (CallRepository r) = (\<lambda>out. get_repository, [(''repositoryId'', JStr r)])"
| "call_route (CallUpdateRepository r input) = (\<lambda>out. patch_repository (os_answer out), [(''repositoryId'', JStr r)])"
| "call_route (CallDeleteRepository r) = (\<lambda>out. delete_repository, [(''repositoryId'', JStr r)])"
| "call_route (CallActions r) = (\<lambda>out. get_actions, [(''repositoryId'', JStr r)])"
| "call_route (CallCreateAction r input) = (\<lambda>out. post_actions, [(''repositoryId'', JStr r)])"
| "call_route (CallDeleteAction a) = (\<lambda>out. delete_action, [(''actionId'', JStr a)])"
| "call_route (CallJobs deviceId repositoryId status limit) = (\<lambda>out. get_jobs, [])"
| "call_route (CallJob j) = (\<lambda>out. get_job, [(''jobId'', JStr j)])"
| "call_route (CallOutput j cursor) = (\<lambda>out. get_job_output, [(''jobId'', JStr j)])"
| "call_route (CallRunAction r actionId confirmation) = (\<lambda>out. post_jobs, [(''repositoryId'', JStr r)])"
| "call_route (CallCustomCommand r input) = (\<lambda>out. post_jobs, [(''repositoryId'', JStr r)])"
| "call_route (CallCancelJob j) = (\<lambda>out. post_job_cancel, [(''jobId'', JStr j)])"

text \<open>Identifiers a URL can carry as a segment: not empty, and none of the dot segments its parser removes.\<close>

definition id_ok :: "api_call \<Rightarrow> bool" where
  "id_ok c \<longleftrightarrow> (\<forall>p \<in> set (snd (call_route c)). snd p \<notin> {JStr '''', JStr ''.'', JStr ''..''})"

text \<open>Matching on the segments of both sides.\<close>

fun find_segments :: "string \<Rightarrow> string list \<Rightarrow> (string \<times> string list \<times> handler) list \<Rightarrow> (handler \<times> properties) option" where
  "find_segments meth ss [] = None"
| "find_segments meth ss ((m, ps, h) # rs) =
     (if m = meth \<and> length ps = length ss
      then (case match_segments ps ss of Some params \<Rightarrow> Some (h, params) | None \<Rightarrow> find_segments meth ss rs)
      else find_segments meth ss rs)"

lemma match_segments_length: "match_segments ps ss = Some params \<Longrightarrow> length ps = length ss"
  by (induction ps ss arbitrary: params rule: match_segments.induct) (auto split: if_splits option.splits)

lemma find_route_segments:
  "find_route meth path rs =
    find_segments meth (split_on (CHR ''/'') path) (map (\<lambda>(m, p, h). (m, split_on (CHR ''/'') p, h)) rs)"
proof (induction rs)
  case (Cons r rs)
  obtain m p h where r: "r = (m, p, h)"
    by (cases r)
  have "length (split_on (CHR ''/'') p) \<noteq> length (split_on (CHR ''/'') path) \<Longrightarrow>
      match_segments (split_on (CHR ''/'') p) (split_on (CHR ''/'') path) = None"
    using match_segments_length [of "split_on (CHR ''/'') p" "split_on (CHR ''/'') path"] by (metis not_None_eq)
  then show ?case
    using Cons.IH by (simp add: r match_route_def split: option.split)
qed simp

lemmas route_tables = routes_def public_routes_def session_routes_def csrf_routes_def

definition route_segments :: "(string \<times> string list \<times> handler) list" where
  "route_segments = map (\<lambda>(m, p, h). (m, split_on (CHR ''/'') p, h)) routes"

lemmas route_segments_eq = route_segments_def [unfolded route_tables, simplified]

lemma split_encoded [simp]:
  "split_on (CHR ''/'') (encodeURIComponent s) = [encodeURIComponent s]"
  "split_on (CHR ''/'') (encodeURIComponent s @ CHR ''/'' # t) = encodeURIComponent s # split_on (CHR ''/'') t"
  by (simp_all add: split_on_plain split_on_append_sep encode_no_slash)

lemma call_reaches:
  assumes "id_ok c"
  shows "case call_request c of (meth, path, query, body) \<Rightarrow>
    find_segments meth (split_on (CHR ''/'') (''/api'' @ path)) route_segments = Some (call_route c)"
  using assms
  by (cases c) (simp_all add: route_segments_eq id_ok_def startsWith_def decode_encode)

text \<open>
  C27. Every call of the browser's client reaches the route written for it. For each of the 28 calls, and for
  any identifiers in it (anything but the empty string and the dot segments; slashes, percent signs and
  question marks included), the method and path the client sends are matched, in the order the server has its routes in,
  by the intended route and no earlier one, and the parameters that route reads from the path are
  exactly the identifiers the call was made with.
\<close>

theorem client_calls_reach_routes:
  assumes "id_ok c" and "call_request c = (meth, path, query, body)"
  shows "find_route meth (''/api'' @ path) routes = Some (call_route c)"
  using call_reaches [OF assms(1)] by (simp add: assms(2) find_route_segments route_segments_def)

theorem client_calls_reach_routes_witness:
  "find_route ''GET'' ''/api/devices/a%2Fb'' routes = Some (\<lambda>out. get_device, [(''deviceId'', JStr ''a/b'')])"
proof -
  have "call_request (CallDevice ''a/b'') = (''GET'', ''/devices/a%2Fb'', '''', None)"
    by code_simp
  from client_calls_reach_routes [OF _ this] show ?thesis
    by (simp add: id_ok_def)
qed

end
