(* ===== verification/WebPush.thy ===== *)
theory WebPush
  imports ApiClient
begin

section \<open>Push notifications in the browser\<close>

text \<open>
  \<open>apps/web/src/hooks/useWebPush.ts\<close> and the helpers of \<open>apps/web/src/lib\<close>. What the browser answers (the
  permission, the service worker, its subscription) are parameters of each run; the server is whatever
  keeps the promise of its subscription route, and is interpreted by the model of that route.
\<close>

subsection \<open>The key of the server\<close>

text \<open>\<open>atob\<close> of the web platform: \<open>None\<close> when it throws, else the bytes.\<close>

definition base64_standard :: string where
  "base64_standard = ''ABCDEFGHIJKLMNOPQRSTUVWXYZabcdefghijklmnopqrstuvwxyz0123456789+/''"

fun index_of :: "'a \<Rightarrow> 'a list \<Rightarrow> nat option" where
  "index_of x [] = None"
| "index_of x (y # ys) = (if x = y then Some 0 else map_option Suc (index_of x ys))"

fun decode_sextets :: "nat list \<Rightarrow> nat list" where
  "decode_sextets (a # b # c # d # xs) = (a * 4 + b div 16) # (b mod 16 * 16 + c div 4) # (c mod 4 * 64 + d) # decode_sextets xs"
| "decode_sextets [a, b, c] = [a * 4 + b div 16, b mod 16 * 16 + c div 4]"
| "decode_sextets [a, b] = [a * 4 + b div 16]"
| "decode_sextets _ = []"

definition strip_padding :: "string \<Rightarrow> string" where
  "strip_padding s =
     (if length s mod 4 \<noteq> 0 then s
      else (case rev s of
              CHR ''='' # CHR ''='' # r \<Rightarrow> rev r
            | CHR ''='' # r \<Rightarrow> rev r
            | _ \<Rightarrow> s))"

definition atob :: "string \<Rightarrow> nat list option" where
  "atob data =
     (let s = strip_padding (filter (\<lambda>c. c \<notin> {CHR '' '', CHR 0x09, CHR 0x0A, CHR 0x0C, CHR 0x0D}) data)
      in if length s mod 4 = 1 then None
         else map_option decode_sextets (those (map (\<lambda>c. index_of c base64_standard) s)))"

definition standard_char :: "char \<Rightarrow> char" where
  "standard_char c = (if c = CHR ''-'' then CHR ''+'' else if c = CHR ''_'' then CHR ''/'' else c)"

definition urlBase64ToUint8Array :: "string \<Rightarrow> nat list option" where
  "urlBase64ToUint8Array base64String =
     (let padding = replicate ((4 - length base64String mod 4) mod 4) (CHR ''='')
      in atob (map standard_char (base64String @ padding)))"

fun sextets :: "nat list \<Rightarrow> nat list" where
  "sextets [] = []"
| "sextets [a] = [a div 4, a mod 4 * 16]"
| "sextets [a, b] = [a div 4, a mod 4 * 16 + b div 16, b mod 16 * 4]"
| "sextets (a # b # c # bs) = a div 4 # (a mod 4 * 16 + b div 16) # (b mod 16 * 4 + c div 64) # c mod 64 # sextets bs"

lemma decode_sextets: "list_all (\<lambda>b. b < 256) bs \<Longrightarrow> decode_sextets (sextets bs) = bs"
  by (induction bs rule: sextets.induct) auto

lemma alphabet_index:
  "index_of (standard_char (base64_char n)) base64_standard = Some (n mod 64)"
  "standard_char (base64_char n) \<notin> {CHR '' '', CHR 0x09, CHR 0x0A, CHR 0x0C, CHR 0x0D, CHR ''=''}"
proof -
  have "list_all (\<lambda>k. index_of (standard_char (base64_alphabet ! k)) base64_standard = Some k \<and>
      standard_char (base64_alphabet ! k) \<notin> {CHR '' '', CHR 0x09, CHR 0x0A, CHR 0x0C, CHR 0x0D, CHR ''=''}) [0..<64]"
    by code_simp
  then have "index_of (standard_char (base64_alphabet ! (n mod 64))) base64_standard = Some (n mod 64) \<and>
      standard_char (base64_alphabet ! (n mod 64)) \<notin> {CHR '' '', CHR 0x09, CHR 0x0A, CHR 0x0C, CHR 0x0D, CHR ''=''}"
    unfolding list_all_iff by (rule bspec) simp
  then show "index_of (standard_char (base64_char n)) base64_standard = Some (n mod 64)"
    "standard_char (base64_char n) \<notin> {CHR '' '', CHR 0x09, CHR 0x0A, CHR 0x0C, CHR 0x0D, CHR ''=''}"
    by (simp_all add: base64_char_def)
qed

lemma sextet_bounds:
  "b < 256 \<Longrightarrow> b div 4 mod 64 = b div (4 :: nat)" "b < 256 \<Longrightarrow> (a mod 4 * 16 + b div 16) mod 64 = a mod 4 * 16 + b div (16 :: nat)"
  "b < 256 \<Longrightarrow> (a mod 16 * 4 + b div 64) mod 64 = a mod 16 * 4 + b div (64 :: nat)"
  "a mod 4 * 16 mod 64 = a mod 4 * (16 :: nat)" "a mod 16 * 4 mod 64 = a mod 16 * (4 :: nat)"
proof -
  show "b div 4 mod 64 = b div 4" if "b < 256"
    using that by simp
  show "(a mod 4 * 16 + b div 16) mod 64 = a mod 4 * 16 + b div 16" if "b < 256"
  proof -
    have "a mod 4 \<le> 3" "b div 16 < 16"
      using that by (simp_all add: less_mult_imp_div_less less_Suc_eq_le [symmetric])
    then show ?thesis
      by simp
  qed
  show "(a mod 16 * 4 + b div 64) mod 64 = a mod 16 * 4 + b div 64" if "b < 256"
  proof -
    have "a mod 16 \<le> 15" "b div 64 < 4"
      using that by (simp_all add: less_mult_imp_div_less less_Suc_eq_le [symmetric])
    then show ?thesis
      by simp
  qed
  have "a mod 4 \<le> 3" "a mod 16 \<le> 15"
    by (simp_all add: less_Suc_eq_le [symmetric])
  then show "a mod 4 * 16 mod 64 = a mod 4 * 16" "a mod 16 * 4 mod 64 = a mod 16 * 4"
    by simp_all
qed

lemma read_alphabet:
  "list_all (\<lambda>b. b < 256) bs \<Longrightarrow> those (map (\<lambda>c. index_of c base64_standard) (map standard_char (base64url bs))) = Some (sextets bs)"
proof (induction bs rule: sextets.induct)
  case (4 a b c bs)
  then show ?case
    by (simp add: alphabet_index sextet_bounds)
qed (simp_all add: alphabet_index sextet_bounds)

lemma clean_alphabet: "\<forall>c \<in> set (map standard_char (base64url bs)). c \<notin> {CHR '' '', CHR 0x09, CHR 0x0A, CHR 0x0C, CHR 0x0D, CHR ''=''}"
proof -
  have "set (base64url bs) \<subseteq> range base64_char"
    by (induction bs rule: base64url.induct) simp_all
  then show ?thesis
    using alphabet_index(2) by fastforce
qed

lemma strip_added:
  assumes "CHR ''='' \<notin> set s" and "length s mod 4 \<noteq> 1"
  shows "strip_padding (s @ replicate ((4 - length s mod 4) mod 4) (CHR ''='')) = s"
proof -
  have last: "rev s = [] \<or> (\<exists>c r. rev s = c # r \<and> c \<noteq> CHR ''='')"
    using assms(1) by (cases "rev s") (auto simp: rev_eq_Cons_iff)
  have "length s mod 4 < 4"
    by simp
  then consider "length s mod 4 = 0" | "length s mod 4 = 2" | "length s mod 4 = 3"
    using assms(2) by linarith
  then show ?thesis
  proof cases
    case 1
    then show ?thesis
      using last by (auto simp: strip_padding_def split: list.split char.split bool.split)
  next
    case 2
    then have "(length s + 2) mod 4 = 0"
      by presburger
    with 2 show ?thesis
      by (simp add: strip_padding_def numeral_2_eq_2)
  next
    case 3
    then have "(length s + 1) mod 4 = 0"
      by presburger
    with 3 show ?thesis
      using last by (auto simp: strip_padding_def split: list.split char.split bool.split)
  qed
qed

text \<open>
  The browser gets the key the server means. Decoding the base64url text of any bytes, as the server writes
  its keys and tokens, gives back exactly those bytes: the padding the helper adds is what \<open>atob\<close> wants and no
  more, whatever the length.
\<close>

theorem key_round_trip:
  assumes "list_all (\<lambda>b. b < 256) bytes"
  shows "urlBase64ToUint8Array (base64url bytes) = Some bytes"
proof -
  let ?s = "map standard_char (base64url bytes)" and ?pad = "replicate ((4 - length (base64url bytes) mod 4) mod 4) (CHR ''='')"
  have clean: "filter (\<lambda>c. c \<notin> {CHR '' '', CHR 0x09, CHR 0x0A, CHR 0x0C, CHR 0x0D}) (?s @ ?pad) = ?s @ ?pad"
    using clean_alphabet [of bytes] by (auto simp: filter_id_conv)
  have len: "length ?s mod 4 \<noteq> 1"
    by (induction bytes rule: sextets.induct) simp_all
  have "CHR ''='' \<notin> set ?s"
    using clean_alphabet [of bytes] by blast
  from strip_added [OF this len] have "strip_padding (?s @ ?pad) = ?s"
    by simp
  then show ?thesis
    using clean len read_alphabet [OF assms] decode_sextets [OF assms]
    by (simp add: urlBase64ToUint8Array_def atob_def standard_char_def [of "CHR ''=''"] Let_def)
qed

theorem key_round_trip_witness: "urlBase64ToUint8Array (base64url [4, 255, 0, 251]) = Some [4, 255, 0, 251]"
  using key_round_trip [of "[4, 255, 0, 251]"] by simp

subsection \<open>The browser and a run of the hook\<close>

datatype permission = PermissionDefault | Granted | Denied

text \<open>A browser's subscription, as \<open>toJSON\<close> shows it: the keys can be missing.\<close>

record browser_subscription =
  bs_endpoint :: string
  bs_p256dh :: "string option"
  bs_auth :: "string option"

record browser =
  br_supported :: bool
  br_ios :: bool
  br_standalone :: bool
  br_permission :: permission
  br_registered :: bool
  br_subscription :: "browser_subscription option"

text \<open>
  What the promises of the platform come to in one run, \<open>None\<close> and \<open>False\<close> standing for a rejection: the
  registration and its subscription, the permission asked for, the subscriptions made, by their number in
  the run, and which of the calls of \<open>unsubscribe\<close> work; and the answer to the request for the configuration.
\<close>

record platform =
  pf_getRegistration :: bool
  pf_register :: bool
  pf_getSubscription :: bool
  pf_requestPermission :: "permission option"
  pf_subscribe :: "nat \<Rightarrow> browser_subscription option"
  pf_unsubscribe :: "nat \<Rightarrow> bool"
  pf_config :: "(bool \<times> string option) option"

datatype push_state = Loading | Unsupported | Unconfigured | IosNeedsInstall | PushDenied | Off | On

record push_view =
  pv_state :: push_state
  pv_busy :: bool
  pv_error :: "string option"
  pv_publicKey :: "string option"
  pv_resolved :: bool

definition new_push_view :: push_view where
  "new_push_view = \<lparr>pv_state = Loading, pv_busy = False, pv_error = None, pv_publicKey = None, pv_resolved = False\<rparr>"

text \<open>The two requests of the client that concern the server, as they change its state \<open>'s\<close>.\<close>

record 's push_api =
  pa_subscribe :: "string \<Rightarrow> string \<Rightarrow> string \<Rightarrow> 's \<Rightarrow> (api_error + unit) \<times> 's"
  pa_unsubscribe :: "string \<Rightarrow> 's \<Rightarrow> (api_error + unit) \<times> 's"

datatype posted = PostedOk | PostedConflict | PostedError

definition filled :: "string option \<Rightarrow> bool" where
  "filled x \<longleftrightarrow> (case x of None \<Rightarrow> False | Some s \<Rightarrow> s \<noteq> '''')"

definition postSubscription :: "'s push_api \<Rightarrow> browser_subscription \<Rightarrow> 's \<Rightarrow> posted \<times> 's" where
  "postSubscription api subscription s =
     (if bs_endpoint subscription = '''' \<or> \<not> filled (bs_p256dh subscription) \<or> \<not> filled (bs_auth subscription) then (PostedError, s)
      else (case pa_subscribe api (bs_endpoint subscription) (the (bs_p256dh subscription)) (the (bs_auth subscription)) s of
              (Inr _, s) \<Rightarrow> (PostedOk, s)
            | (Inl (ApiError m status c i), s) \<Rightarrow> (if status = 409 then PostedConflict else PostedError, s)
            | (Inl _, s) \<Rightarrow> (PostedError, s)))"

text \<open>\<open>subscription.unsubscribe()\<close>, the \<open>n\<close>-th of the run; it leaves the subscription when it is rejected.\<close>

definition unsubscribe_browser :: "platform \<Rightarrow> nat \<Rightarrow> browser \<Rightarrow> browser" where
  "unsubscribe_browser pf n b = (if pf_unsubscribe pf n then b\<lparr>br_subscription := None\<rparr> else b)"

text \<open>What \<open>getRegistration\<close> and then \<open>getSubscription\<close> give: \<open>None\<close> when one is rejected.\<close>

definition current_subscription :: "platform \<Rightarrow> browser \<Rightarrow> browser_subscription option option" where
  "current_subscription pf b =
     (if \<not> pf_getRegistration pf then None
      else if \<not> br_registered b then Some None
      else if \<not> pf_getSubscription pf then None else Some (br_subscription b))"

definition unsubscribeLocal :: "platform \<Rightarrow> browser \<Rightarrow> browser" where
  "unsubscribeLocal pf b =
     (case current_subscription pf b of Some (Some subscription) \<Rightarrow> unsubscribe_browser pf 0 b | _ \<Rightarrow> b)"

text \<open>\<open>subscribeAndRegister\<close> on a registered service worker; \<open>None\<close> when it throws.\<close>

definition subscribeAndRegister ::
  "'s push_api \<Rightarrow> platform \<Rightarrow> string \<Rightarrow> browser \<times> 's \<Rightarrow> bool option \<times> browser \<times> 's" where
  "subscribeAndRegister api pf publicKey w =
     (case w of (b, s) \<Rightarrow>
        if urlBase64ToUint8Array publicKey = None \<or> \<not> pf_getSubscription pf then (None, b, s)
        else
          (let createdHere = (br_subscription b = None) in
           case (if createdHere then pf_subscribe pf 0 else br_subscription b) of
             None \<Rightarrow> (None, b, s)
           | Some subscription \<Rightarrow>
               (let b = b\<lparr>br_subscription := Some subscription\<rparr> in
                case postSubscription api subscription s of
                  (PostedOk, s) \<Rightarrow> (Some True, b, s)
                | (PostedConflict, s) \<Rightarrow>
                    (let b = unsubscribe_browser pf 0 b in
                     case pf_subscribe pf 1 of
                       None \<Rightarrow> (None, b, s)
                     | Some fresh \<Rightarrow>
                         (let b = b\<lparr>br_subscription := Some fresh\<rparr> in
                          case postSubscription api fresh s of
                            (PostedOk, s) \<Rightarrow> (Some True, b, s)
                          | (_, s) \<Rightarrow> (Some False, unsubscribe_browser pf 1 b, s)))
                | (PostedError, s) \<Rightarrow> (Some False, if createdHere then unsubscribe_browser pf 0 b else b, s))))"

subsection \<open>The operations of the hook\<close>

definition settle_push :: "push_state \<Rightarrow> push_view \<Rightarrow> push_view" where
  "settle_push st v = v\<lparr>pv_state := st, pv_resolved := True\<rparr>"

definition init_push :: "'s push_api \<Rightarrow> platform \<Rightarrow> push_view \<Rightarrow> browser \<times> 's \<Rightarrow> push_view \<times> browser \<times> 's" where
  "init_push api pf v w =
     (case w of (b, s) \<Rightarrow>
        if \<not> br_supported b then (settle_push (if br_ios b \<and> \<not> br_standalone b then IosNeedsInstall else Unsupported) v, w)
        else (case pf_config pf of
          None \<Rightarrow> (v\<lparr>pv_state := Loading, pv_resolved := False\<rparr>, w)
        | Some (enabled, publicKey) \<Rightarrow>
            if \<not> enabled \<or> \<not> filled publicKey then (settle_push Unconfigured v, w)
            else
              (let v = v\<lparr>pv_publicKey := publicKey\<rparr> in
               if br_permission b = Denied then (settle_push PushDenied v, w)
               else (case current_subscription pf b of
                 None \<Rightarrow> (settle_push Off v, w)
               | Some None \<Rightarrow> (settle_push Off v, w)
               | Some (Some subscription) \<Rightarrow>
                   (case postSubscription api subscription s of
                      (PostedOk, s) \<Rightarrow> (settle_push On v, b, s)
                    | (PostedConflict, s) \<Rightarrow> (settle_push Off v, unsubscribe_browser pf 0 b, s)
                    | (PostedError, s) \<Rightarrow> (v\<lparr>pv_state := Loading, pv_resolved := False\<rparr>, b, s))))))"

definition enable_push :: "'s push_api \<Rightarrow> platform \<Rightarrow> push_view \<Rightarrow> browser \<times> 's \<Rightarrow> push_view \<times> browser \<times> 's" where
  "enable_push api pf v w =
     (case pv_publicKey v of
        None \<Rightarrow> (v, w)
      | Some publicKey \<Rightarrow>
          (let v = v\<lparr>pv_busy := False, pv_error := None\<rparr>;
               failed = v\<lparr>pv_state := Off, pv_error := Some ''Could not enable notifications.''\<rparr>
           in case pf_requestPermission pf of
                None \<Rightarrow> (failed, w)
              | Some answer \<Rightarrow>
                  (case w of (b, s) \<Rightarrow>
                     (let b = b\<lparr>br_permission := answer\<rparr> in
                      if answer \<noteq> Granted then (v\<lparr>pv_state := (if answer = Denied then PushDenied else Off)\<rparr>, b, s)
                      else if \<not> pf_getRegistration pf \<or> (\<not> br_registered b \<and> \<not> pf_register pf) then (failed, b, s)
                      else (case subscribeAndRegister api pf publicKey (b\<lparr>br_registered := True\<rparr>, s) of
                              (None, w) \<Rightarrow> (failed, w)
                            | (Some True, w) \<Rightarrow> (v\<lparr>pv_state := On\<rparr>, w)
                            | (Some False, w) \<Rightarrow> (v\<lparr>pv_state := Off, pv_error := Some ''Enable failed. Tap to retry.''\<rparr>, w))))))"

definition disable_push :: "'s push_api \<Rightarrow> platform \<Rightarrow> push_view \<Rightarrow> browser \<times> 's \<Rightarrow> push_view \<times> browser \<times> 's" where
  "disable_push api pf v w =
     (let v = v\<lparr>pv_busy := False, pv_error := None\<rparr>;
          failed = v\<lparr>pv_error := Some ''Could not turn off notifications.''\<rparr>
      in case w of (b, s) \<Rightarrow>
           (case current_subscription pf b of
              None \<Rightarrow> (failed, w)
            | Some None \<Rightarrow> (v\<lparr>pv_state := Off\<rparr>, w)
            | Some (Some subscription) \<Rightarrow>
                if \<not> pf_unsubscribe pf 0 then (failed, w)
                else (v\<lparr>pv_state := Off\<rparr>, b\<lparr>br_subscription := None\<rparr>, snd (pa_unsubscribe api (bs_endpoint subscription) s))))"

text \<open>The listeners: coming online or visible tries again while nothing is settled; the end of the session unsubscribes.\<close>

datatype push_event = OnlineAgain | Visible bool | Unauthorized | Enable | Disable

fun push_step :: "'s push_api \<Rightarrow> push_event \<times> platform \<Rightarrow> push_view \<times> browser \<times> 's \<Rightarrow> push_view \<times> browser \<times> 's" where
  "push_step api (OnlineAgain, pf) (v, w) = (if pv_resolved v then (v, w) else init_push api pf v w)"
| "push_step api (Visible shown, pf) (v, w) = (if \<not> shown \<or> pv_resolved v then (v, w) else init_push api pf v w)"
| "push_step api (Unauthorized, pf) (v, b, s) = (v, unsubscribeLocal pf b, s)"
| "push_step api (Enable, pf) (v, w) = enable_push api pf v w"
| "push_step api (Disable, pf) (v, w) = disable_push api pf v w"

subsection \<open>What the server promises\<close>

locale push_server =
  fixes subscribe :: "string \<Rightarrow> string \<Rightarrow> string \<Rightarrow> 's \<Rightarrow> (api_error + unit) \<times> 's"
    and bound :: "string \<Rightarrow> 's \<Rightarrow> bool"
  assumes subscribed: "subscribe endpoint p256dh auth s = (Inr (), s') \<Longrightarrow> bound endpoint s'"
begin

lemma posted_ok:
  assumes "postSubscription api subscription s = (PostedOk, s')" and "pa_subscribe api = subscribe"
  shows "bound (bs_endpoint subscription) s'"
proof -
  obtain r s2 where call: "subscribe (bs_endpoint subscription) (the (bs_p256dh subscription)) (the (bs_auth subscription)) s = (r, s2)"
    by fastforce
  then have "r = Inr ()" "s2 = s'"
    using assms by (auto simp: postSubscription_def split: if_splits sum.splits api_error.splits)
  with subscribed call show ?thesis
    by simp
qed

lemma registered_ok:
  assumes "subscribeAndRegister api pf publicKey (b, s) = (Some True, b', s')" and "pa_subscribe api = subscribe"
  shows "\<exists>subscription. br_subscription b' = Some subscription \<and> bound (bs_endpoint subscription) s'"
  using assms(1) posted_ok [OF _ assms(2)]
  by (auto simp: subscribeAndRegister_def Let_def split: if_splits option.splits prod.splits posted.splits)

lemma on_after_init:
  assumes "init_push api pf v (b, s) = (v', b', s')" and "pa_subscribe api = subscribe" and "pv_state v' = On"
  shows "\<exists>subscription. br_subscription b' = Some subscription \<and> bound (bs_endpoint subscription) s'"
  using assms(1,3) posted_ok [OF _ assms(2)]
  by (auto simp: init_push_def settle_push_def current_subscription_def Let_def split: if_splits option.splits prod.splits posted.splits)

lemma on_after_enable:
  assumes "enable_push api pf v (b, s) = (v', b', s')" and "pa_subscribe api = subscribe" and "pv_state v' = On" and "pv_publicKey v \<noteq> None"
  shows "\<exists>subscription. br_subscription b' = Some subscription \<and> bound (bs_endpoint subscription) s'"
  using assms(1,3,4) registered_ok [OF _ assms(2)]
  by (auto simp: enable_push_def Let_def split: if_splits option.splits prod.splits bool.splits)

end

subsection \<open>The server keeps the promise\<close>

text \<open>The calls of the client against the server, as the hook sees them.\<close>

definition served_unit :: "outside \<Rightarrow> http \<Rightarrow> request \<Rightarrow> api_call \<Rightarrow> server \<Rightarrow> (api_error + unit) \<times> server" where
  "served_unit out hx rq c sv = (case served_call out hx rq c sv of (Inl e, sv) \<Rightarrow> (Inl e, sv) | (Inr _, sv) \<Rightarrow> (Inr (), sv))"

definition served_api :: "outside \<Rightarrow> http \<Rightarrow> request \<Rightarrow> server push_api" where
  "served_api out hx rq =
     \<lparr>pa_subscribe = (\<lambda>endpoint p256dh auth. served_unit out hx rq (CallSubscribePush endpoint p256dh auth)),
      pa_unsubscribe = (\<lambda>endpoint. served_unit out hx rq (CallUnsubscribePush endpoint))\<rparr>"

text \<open>The endpoint is a subscription of the user whose session the request carries.\<close>

definition registered :: "http \<Rightarrow> request \<Rightarrow> string \<Rightarrow> server \<Rightarrow> bool" where
  "registered hx rq endpoint sv =
     (case fst (authenticate hx rq (sdb sv)) of
        Inl _ \<Rightarrow> False
      | Inr a \<Rightarrow> \<exists>r \<in> set (db_push (sdb sv)). ps_endpoint r = endpoint \<and> ps_userId r = ax_userId a)"

lemma authenticate_body [simp]: "authenticate hx (rq\<lparr>rq_body := b\<rparr>) d = authenticate hx rq d"
  by (simp add: authenticate_def)

lemma authenticate_frame:
  assumes "db_sessions e = db_sessions d" and "db_users e = db_users d"
  shows "fst (authenticate hx rq e) = fst (authenticate hx rq d)"
  by (simp add: authenticate_def findUser_def assms Let_def split: option.split)

lemma authenticate_again: "authenticate hx rq d = (Inr a, e) \<Longrightarrow> fst (authenticate hx rq e) = Inr a"
  by (auto simp: authenticate_def Let_def find_updateMany findUser_def split: option.splits if_splits)

lemma store_subscription_row:
  assumes "store_subscription hx u input ua rows = (None, rows')"
  shows "\<exists>r \<in> set rows'. ps_endpoint r = si_endpoint input \<and> ps_userId r = u"
proof -
  have refreshed: "\<exists>r \<in> set (refresh_subscription u input ua rs). ps_endpoint r = si_endpoint input \<and> ps_userId r = u"
    if "r \<in> set rs" "ps_endpoint r = si_endpoint input" "ps_userId r = u" for r rs
  proof -
    have "r\<lparr>ps_p256dh := si_p256dh input, ps_auth := si_auth input, ps_userAgent := ua\<rparr> \<in> set (refresh_subscription u input ua rs)"
      using that by (auto simp: refresh_subscription_def set_updateMany)
    then show ?thesis
      by (rule rev_bexI) (simp add: that)
  qed
  show ?thesis
    using assms
    by (auto simp: store_subscription_def Let_def createUnique_def new_subscription_def countWhere_def filter_empty_conv
        split: if_splits dest!: find_SomeD) (metis refreshed)+
qed

lemma push_subscribe_outcome:
  assumes "post_push_subscribe hx rq sv = (res, sv')"
  shows "case res of
      Inl e \<Rightarrow> 400 \<le> rs_status (error_response i e)
    | Inr response \<Rightarrow> \<exists>input. subscribeSchema (hx_lib hx) (rq_body rq) = Some input \<and> registered hx rq (si_endpoint input) sv'"
proof (cases "authenticate hx rq (sdb sv)")
  case (Pair who d)
  show ?thesis
  proof (cases who)
    case (Inl e)
    then have "400 \<le> rs_status (error_response i e)"
      using Pair by (auto simp: authenticate_def Let_def json_reply_def split: option.splits if_splits)
    then show ?thesis
      using assms Pair Inl by (auto simp: post_push_subscribe_def requireAuthCsrf_def requireAuth_def)
  next
    case (Inr a)
    have again: "fst (authenticate hx rq d) = Inr a"
      using authenticate_again Pair Inr by simp
    have csrf: "requireCsrf hx (rq\<lparr>rq_auth := Some a\<rparr>) = Some e \<Longrightarrow> 400 \<le> rs_status (error_response i e)" for e
      by (auto simp: requireCsrf_def json_reply_def split: option.splits if_splits)
    have conflict: "store_subscription hx u input ua rows = (Some e, rows') \<Longrightarrow> 400 \<le> rs_status (error_response i e)" for u input ua rows e rows'
      by (auto simp: store_subscription_def PUSH_ENDPOINT_CONFLICT_def Let_def json_reply_def split: if_splits sum.splits)
    have stays: "fst (authenticate hx rq (audited hx n q act u dv md (d\<lparr>db_push := rows\<rparr>))) = Inr a" for n q act u dv md rows
      using again by (subst authenticate_frame [of _ d]) simp_all
    show ?thesis
      using assms Pair Inr
      by (auto simp: post_push_subscribe_def requireAuthCsrf_def requireAuth_def with_owner_def with_parsed_def registered_def on_db_def stays
          json_reply_def split: option.splits if_splits prod.splits dest: csrf conflict store_subscription_row)
  qed
qed

lemma push_route: "find_route ''POST'' ''/api/push/subscribe'' routes = Some (\<lambda>out. post_push_subscribe, [])"
  using call_reaches [of "CallSubscribePush endpoint p256dh auth" for endpoint p256dh auth]
  by (simp add: id_ok_def find_route_segments route_segments_def)

lemma served_subscribe:
  assumes "served_unit out hx rq (CallSubscribePush endpoint p256dh auth) sv = (Inr (), sv')"
  shows "registered hx rq endpoint sv'"
proof -
  define body where "body = Some (JObj [(''endpoint'', JStr endpoint), (''keys'', JObj [(''p256dh'', JStr p256dh), (''auth'', JStr auth)])])"
  let ?rq = "rq\<lparr>rq_body := body, rq_params := []\<rparr>"
  have parsed: "si_endpoint input = endpoint" if "subscribeSchema l body = Some input" for l input
    using that by (auto simp: subscribeSchema_def body_def zs_field_def zs_refine_def zs_length_def zs_url_def
        split: option.splits if_splits bind_splits)
  obtain response x where served: "serve out hx ''POST'' ''/api/push/subscribe'' (rq\<lparr>rq_body := body\<rparr>) sv = (response, sv')"
      "snd (read_response (Fetched (rs_status response) (rs_body response))) = Inr x"
    using assms by (auto simp: served_unit_def served_call_eq body_def split: prod.splits sum.splits)
  then have ok: "rs_status response \<le> 299"
    by (auto simp: read_response_def Let_def split: if_splits option.splits)
  show ?thesis
  proof (cases "origin_guard (hx_env hx) ''/api/push/subscribe'' (rq\<lparr>rq_body := body\<rparr>)")
    case (Some e)
    then have "rs_status response = 403"
      using served(1) by (auto simp: serve_def handle_def origin_guard_def json_reply_def split: if_splits option.splits)
    with ok show ?thesis
      by simp
  next
    case None
    obtain res sv2 where run: "post_push_subscribe hx ?rq sv = (res, sv2)"
      by fastforce
    with served(1) None push_route have "sv2 = sv'" "\<And>e. res = Inl e \<Longrightarrow> response = error_response (rq_id rq) e"
      by (auto simp: serve_def handle_def split: sum.splits)
    with push_subscribe_outcome [OF run, of "rq_id rq"] ok obtain input where
      "subscribeSchema (hx_lib hx) body = Some input" "registered hx ?rq (si_endpoint input) sv'"
      by (cases res) auto
    then show ?thesis
      using parsed by (simp add: registered_def)
  qed
qed

interpretation served: push_server "pa_subscribe (served_api out hx rq)" "registered hx rq"
  for out :: outside and hx :: http and rq :: request
  by unfold_locales (simp add: served_api_def served_subscribe)

text \<open>
  C33. The toggle does not lie. Whenever the push toggle of a browser turns on, at first sight of the page or
  after any later event, against the server as it is modelled, then the browser holds a subscription and the
  server has that very endpoint stored for the user whose session the request carried: however the
  permission, the service worker and the browser's subscribe and unsubscribe turned out, and whoever the
  endpoint belonged to before.
\<close>

theorem toggle_on_means_registered:
  assumes "init_push (served_api out hx rq) pf v (b, sv) = (v', b', sv') \<or>
      push_step (served_api out hx rq) (event, pf) (v, b, sv) = (v', b', sv')"
    and "pv_state v \<noteq> On" and "pv_state v' = On"
  shows "\<exists>subscription. br_subscription b' = Some subscription \<and> registered hx rq (bs_endpoint subscription) sv'"
proof -
  have "init_push (served_api out hx rq) pf v (b, sv) = (v', b', sv') \<or>
      enable_push (served_api out hx rq) pf v (b, sv) = (v', b', sv') \<and> pv_publicKey v \<noteq> None"
    using assms
    by (cases event) (auto simp: disable_push_def enable_push_def Let_def split: if_splits option.splits)
  then show ?thesis
    using served.on_after_init [OF _ refl assms(3)] served.on_after_enable [OF _ refl assms(3)] by blast
qed

definition push_http :: http where
  "push_http = (example_http 5)\<lparr>hx_env := example_environment\<lparr>env_pushEnabled := True\<rparr>,
     hx_lib := example_lib\<lparr>lib_url := (\<lambda>s. Some \<lparr>url_protocol = ''https:'', url_hostname = ''web.push.apple.com'', url_origin = s\<rparr>)\<rparr>\<rparr>"

definition push_browser :: browser where
  "push_browser = \<lparr>br_supported = True, br_ios = False, br_standalone = False, br_permission = Granted, br_registered = True,
     br_subscription = Some \<lparr>bs_endpoint = ''p'', bs_p256dh = Some ''k'', bs_auth = Some ''a''\<rparr>\<rparr>"

definition push_platform :: platform where
  "push_platform = \<lparr>pf_getRegistration = True, pf_register = True, pf_getSubscription = True, pf_requestPermission = Some Granted,
     pf_subscribe = (\<lambda>_. None), pf_unsubscribe = (\<lambda>_. True), pf_config = Some (True, Some ''key'')\<rparr>"

definition push_request :: request where
  "push_request = (signed_in example_request)\<lparr>rq_body := Some (JObj [(''endpoint'', JStr ''p''),
     (''keys'', JObj [(''p256dh'', JStr ''k''), (''auth'', JStr ''a'')])])\<rparr>"

lemma push_example:
  "\<exists>sv. init_push (served_api example_outside push_http (signed_in example_request)) push_platform new_push_view
      (push_browser, example_server example_tables) = (settle_push On (new_push_view\<lparr>pv_publicKey := Some ''key''\<rparr>), push_browser, sv)"
proof -
  have "fst (post_push_subscribe push_http (push_request\<lparr>rq_params := []\<rparr>) (example_server example_tables)) =
      Inr (json_reply 201 (JObj [(''ok'', JBool True)]))"
    by code_simp
  then obtain sv where run: "post_push_subscribe push_http (push_request\<lparr>rq_params := []\<rparr>) (example_server example_tables) =
      (Inr (json_reply 201 (JObj [(''ok'', JBool True)])), sv)"
    by (metis prod.collapse)
  have "origin_guard (hx_env push_http) ''/api/push/subscribe'' push_request = None"
    by code_simp
  with run have "served_unit example_outside push_http (signed_in example_request) (CallSubscribePush ''p'' ''k'' ''a'')
      (example_server example_tables) = (Inr (), sv)"
    by (simp add: served_unit_def served_call_eq serve_def handle_def push_route push_request_def json_reply_def read_response_def)
  then show ?thesis
    by (simp add: init_push_def push_browser_def push_platform_def current_subscription_def postSubscription_def served_api_def filled_def)
qed

theorem toggle_on_means_registered_witness:
  "\<exists>sv. init_push (served_api example_outside push_http (signed_in example_request)) push_platform new_push_view
      (push_browser, example_server example_tables) = (settle_push On (new_push_view\<lparr>pv_publicKey := Some ''key''\<rparr>), push_browser, sv) \<and>
    registered push_http (signed_in example_request) ''p'' sv"
proof -
  obtain sv where run: "init_push (served_api example_outside push_http (signed_in example_request)) push_platform new_push_view
      (push_browser, example_server example_tables) = (settle_push On (new_push_view\<lparr>pv_publicKey := Some ''key''\<rparr>), push_browser, sv)"
    using push_example by blast
  with toggle_on_means_registered [OF disjI1 [OF run]] show ?thesis
    by (simp add: new_push_view_def push_browser_def settle_push_def)
qed

text \<open>
  Enabling on top of a subscription the browser already had turns the toggle off when the server cannot be
  reached, though that subscription stays, and with it whatever the server has stored for it.
\<close>

lemma enable_off_with_live_subscription:
  assumes "pv_publicKey v = Some key" and "urlBase64ToUint8Array key \<noteq> None" and "pf_requestPermission pf = Some Granted"
    and "pf_getRegistration pf" and "pf_getSubscription pf" and "br_registered b" and "br_subscription b = Some subscription"
    and "postSubscription api subscription s = (PostedError, s)"
  shows "case enable_push api pf v (b, s) of (v', b', s') \<Rightarrow>
    pv_state v' = Off \<and> br_subscription b' = Some subscription \<and> s' = s"
  using assms by (simp add: enable_push_def subscribeAndRegister_def Let_def)

end
