(* ===== verification/Signin.thy ===== *)
theory Signin
  imports ApiClient
begin

section \<open>The session in the browser\<close>

text \<open>
  \<open>apps/web/src/auth\<close>: what the application knows of the session, how it is set and forgotten, and the guards
  of the routes; \<open>api/queryKeys.ts\<close> and the rules for retries in \<open>main.tsx\<close>. The cache of queries is the query
  library's: its operations are a parameter, and what is relied on is named below.
\<close>

subsection \<open>Keys and retries\<close>

definition session_key :: "json list" where
  "session_key = [JStr ''session'']"

definition auth_config_key :: "json list" where
  "auth_config_key = [JStr ''auth-config'']"

definition devices_key :: "json list" where
  "devices_key = [JStr ''devices'']"

definition device_key :: "ident \<Rightarrow> json list" where
  "device_key deviceId = [JStr ''devices'', JStr deviceId]"

definition all_repositories_key :: "json list" where
  "all_repositories_key = [JStr ''repositories'']"

definition repository_key :: "ident \<Rightarrow> json list" where
  "repository_key repositoryId = [JStr ''repositories'', JStr repositoryId]"

definition actions_key :: "ident \<Rightarrow> json list" where
  "actions_key repositoryId = [JStr ''repositories'', JStr repositoryId, JStr ''actions'']"

definition all_jobs_key :: "json list" where
  "all_jobs_key = [JStr ''jobs'']"

definition jobs_key :: "properties \<Rightarrow> json list" where
  "jobs_key filters = [JStr ''jobs'', JObj filters]"

definition job_key :: "ident \<Rightarrow> json list" where
  "job_key jobId = [JStr ''jobs'', JStr jobId]"

definition output_key :: "ident \<Rightarrow> json list" where
  "output_key jobId = [JStr ''jobs'', JStr jobId, JStr ''output'']"

text \<open>Whether a failed query runs again: the rule of the session, and the one of every other query.\<close>

fun retry_session :: "nat \<Rightarrow> api_error \<Rightarrow> bool" where
  "retry_session attempt (ApiError m status c i) = False"
| "retry_session attempt _ = (attempt < 2)"

fun retry_query :: "nat \<Rightarrow> api_error \<Rightarrow> bool" where
  "retry_query failureCount (ApiError m status c i) = (status \<noteq> 401 \<and> status \<noteq> 403 \<and> status \<noteq> 404 \<and> failureCount < 2)"
| "retry_query failureCount _ = (failureCount < 2)"

lemma retries_bounded: "retry_session n e \<Longrightarrow> n < 2" "retry_query n e \<Longrightarrow> n < 2"
  by (cases e; simp)+

subsection \<open>What the application knows\<close>

text \<open>A query in the cache, as its observers see it.\<close>

datatype query_state = Absent | Waiting | Broken api_error | Resolved json

record 'c query_cache =
  qc_get :: "json list \<Rightarrow> 'c \<Rightarrow> query_state"
  qc_set :: "json list \<Rightarrow> json \<Rightarrow> 'c \<Rightarrow> 'c"
  qc_remove :: "(json list \<Rightarrow> bool) \<Rightarrow> 'c \<Rightarrow> 'c"

text \<open>\<open>setQueryData\<close> resolves the one query, \<open>removeQueries\<close> removes those its predicate holds of.\<close>

definition cache_laws :: "'c query_cache \<Rightarrow> bool" where
  "cache_laws qc \<longleftrightarrow>
     (\<forall>k k' v c. qc_get qc k (qc_set qc k' v c) = (if k = k' then Resolved v else qc_get qc k c)) \<and>
     (\<forall>k P c. qc_get qc k (qc_remove qc P c) = (if P k then Absent else qc_get qc k c))"

definition not_session :: "json list \<Rightarrow> bool" where
  "not_session k \<longleftrightarrow> take 1 k \<noteq> session_key"

text \<open>\<open>invalidateSession\<close>, the listener of the event that a request was not authorized.\<close>

definition invalidateSession :: "'c query_cache \<Rightarrow> 'c \<Rightarrow> 'c" where
  "invalidateSession qc c = qc_set qc session_key JNull (qc_remove qc not_session c)"

text \<open>
  The listener during a call of the client, whose outcome comes with the event it raises, and is \<open>None\<close> when
  the call throws before anything is sent.
\<close>

definition after_call :: "'c query_cache \<Rightarrow> (bool \<times> (api_error + json option)) option \<Rightarrow> 'c \<Rightarrow> (api_error + json option) option \<times> 'c" where
  "after_call qc outcome c =
     (case outcome of
        None \<Rightarrow> (None, c)
      | Some (unauthorized, result) \<Rightarrow> (Some result, if unauthorized then invalidateSession qc c else c))"

text \<open>\<open>login\<close> and \<open>register\<close>, and \<open>logout\<close>, given what the call came to; the flag tells whether they threw.\<close>

definition sign_in :: "'c query_cache \<Rightarrow> (bool \<times> (api_error + json option)) option \<Rightarrow> 'c \<Rightarrow> bool \<times> 'c" where
  "sign_in qc outcome c =
     (case after_call qc outcome c of
        (Some (Inr (Some session)), c) \<Rightarrow> (False, qc_set qc session_key session c)
      | (Some (Inr None), c) \<Rightarrow> (False, c)
      | (_, c) \<Rightarrow> (True, c))"

definition logout :: "'c query_cache \<Rightarrow> (bool \<times> (api_error + json option)) option \<Rightarrow> 'c \<Rightarrow> bool \<times> 'c" where
  "logout qc outcome c =
     (case after_call qc outcome c of
        (Some (Inr _), c) \<Rightarrow> (False, qc_remove qc not_session (qc_set qc session_key JNull c))
      | (_, c) \<Rightarrow> (True, c))"

record auth_view =
  av_user :: "json option"
  av_loading :: bool
  av_sessionUnavailable :: bool

text \<open>The value of the context; \<open>Absent\<close> is a query that has not started.\<close>

definition auth_value :: "query_state \<Rightarrow> auth_view" where
  "auth_value q =
     \<lparr>av_user = (case q of
          Resolved session \<Rightarrow> (case property ''user'' session of Some JNull \<Rightarrow> None | u \<Rightarrow> u)
        | _ \<Rightarrow> None),
      av_loading = (q = Waiting \<or> q = Absent),
      av_sessionUnavailable = (case q of Broken (ApiError m status c i) \<Rightarrow> status = 0 | _ \<Rightarrow> False)\<rparr>"

datatype screen = LoaderScreen | OfflineScreen | ToLogin | ToDevices | PageScreen

definition ProtectedRoute :: "auth_view \<Rightarrow> screen" where
  "ProtectedRoute v =
     (if av_loading v then LoaderScreen
      else if av_sessionUnavailable v then OfflineScreen
      else if av_user v = None then ToLogin
      else PageScreen)"

definition GuestRoute :: "auth_view \<Rightarrow> screen" where
  "GuestRoute v =
     (if av_loading v then LoaderScreen
      else if av_sessionUnavailable v then OfflineScreen
      else if av_user v \<noteq> None then ToDevices
      else PageScreen)"

text \<open>The routes of \<open>App.tsx\<close>: where a path leads, with the guards in front.\<close>

definition guest_paths :: "string list" where
  "guest_paths = [''/login'', ''/register'']"

definition page_patterns :: "string list" where
  "page_patterns = [''/devices'', ''/devices/:deviceId'', ''/repositories/:repositoryId'', ''/jobs/:jobId'', ''/history'']"

definition route_path :: "auth_view \<Rightarrow> string \<Rightarrow> screen" where
  "route_path v path =
     (if path \<in> set guest_paths then GuestRoute v
      else if list_ex (\<lambda>p. match_segments (split_on (CHR ''/'') p) (split_on (CHR ''/'') path) \<noteq> None) page_patterns then ProtectedRoute v
      else ToDevices)"

subsection \<open>Signing out\<close>

lemma signed_out_cache:
  assumes "cache_laws qc"
  shows "qc_get qc session_key (invalidateSession qc c) = Resolved JNull"
    "take 1 k \<noteq> session_key \<Longrightarrow> qc_get qc k (invalidateSession qc c) = Absent"
    "qc_get qc session_key (qc_remove qc not_session (qc_set qc session_key JNull c)) = Resolved JNull"
    "take 1 k \<noteq> session_key \<Longrightarrow> qc_get qc k (qc_remove qc not_session (qc_set qc session_key JNull c)) = Absent"
  using assms by (auto simp: cache_laws_def invalidateSession_def not_session_def session_key_def)

lemma signed_out_view: "auth_value (Resolved JNull) = \<lparr>av_user = None, av_loading = False, av_sessionUnavailable = False\<rparr>"
  by (simp add: auth_value_def)

text \<open>
  C34. Nothing of a user stays behind. After any call of the client that the server answered with 401, and
  after every sign-out that did not throw, the cache holds no query but the session, the session is
  known to be empty, and every page leads to the sign-in page, without waiting for a request.
\<close>

theorem sign_out_leaves_nothing:
  assumes laws: "cache_laws qc"
    and run: "after_call qc (call_api fetch document_cookie call) c = (res, c') \<and> map_option fst (call_api fetch document_cookie call) = Some True \<or>
      logout qc (call_api fetch document_cookie CallLogout) c = (False, c')"
    and page: "path \<notin> set guest_paths" "match_segments (split_on (CHR ''/'') p) (split_on (CHR ''/'') path) \<noteq> None" "p \<in> set page_patterns"
  shows "(\<forall>k. take 1 k \<noteq> session_key \<longrightarrow> qc_get qc k c' = Absent) \<and> qc_get qc session_key c' = Resolved JNull \<and>
    route_path (auth_value (qc_get qc session_key c')) path = ToLogin \<and>
    route_path (auth_value (qc_get qc session_key c')) ''/login'' = PageScreen"
proof -
  have "c' = invalidateSession qc c \<or> (\<exists>c0. c' = qc_remove qc not_session (qc_set qc session_key JNull c0))"
    using run by (auto simp: after_call_def logout_def split: option.splits sum.splits prod.splits)
  then have "qc_get qc session_key c' = Resolved JNull" "\<forall>k. take 1 k \<noteq> session_key \<longrightarrow> qc_get qc k c' = Absent"
    using signed_out_cache [OF laws] by auto
  moreover have "list_ex (\<lambda>p. match_segments (split_on (CHR ''/'') p) (split_on (CHR ''/'') path) \<noteq> None) page_patterns"
    using page(2,3) by (auto simp: list_ex_iff)
  ultimately show ?thesis
    using page(1) by (simp add: route_path_def signed_out_view ProtectedRoute_def GuestRoute_def guest_paths_def)
qed

definition example_cache :: "(json list \<Rightarrow> query_state) query_cache" where
  "example_cache = \<lparr>qc_get = (\<lambda>k c. c k), qc_set = (\<lambda>k v c. c(k := Resolved v)), qc_remove = (\<lambda>P c k. if P k then Absent else c k)\<rparr>"

theorem sign_out_leaves_nothing_witness:
  "let c = snd (logout example_cache (call_api (\<lambda>_. Fetched 204 None) '''' CallLogout) (\<lambda>_. Resolved (JStr ''private'')))
   in qc_get example_cache devices_key c = Absent \<and> route_path (auth_value (qc_get example_cache session_key c)) ''/devices'' = ToLogin"
proof -
  let ?run = "logout example_cache (call_api (\<lambda>_. Fetched 204 None) '''' CallLogout) (\<lambda>_. Resolved (JStr ''private''))"
  have laws: "cache_laws example_cache"
    by (simp add: cache_laws_def example_cache_def)
  have "fst ?run = False"
    by (simp add: logout_def after_call_def call_api_def build_request_def cookie_value_def read_response_def Let_def encodeURIComponent_def encode_char_def
        is_lower_char_def is_upper_char_def is_digit_char_def startsWith_def)
  then have run: "?run = (False, snd ?run)"
    by (metis prod.collapse)
  have page: "''/devices'' \<notin> set guest_paths" "match_segments (split_on (CHR ''/'') ''/devices'') (split_on (CHR ''/'') ''/devices'') \<noteq> None"
      "''/devices'' \<in> set page_patterns"
    by (simp_all add: guest_paths_def page_patterns_def startsWith_def)
  have "take 1 devices_key \<noteq> session_key"
    by (simp add: devices_key_def session_key_def)
  with sign_out_leaves_nothing [OF laws disjI2 [OF run] page] show ?thesis
    unfolding Let_def by blast
qed

lemma no_redirect_loop:
  "route_path v ''/login'' = ToDevices \<Longrightarrow> route_path v ''/devices'' = PageScreen"
  "route_path v ''/devices'' = ToLogin \<Longrightarrow> route_path v ''/login'' = PageScreen"
  by (auto simp: route_path_def guest_paths_def page_patterns_def GuestRoute_def ProtectedRoute_def startsWith_def split: if_splits)

end
