(* ===== verification/Shell.thy ===== *)
theory Shell
  imports WebPush Signin
begin

section \<open>Signing out\<close>

text \<open>
  \<open>apps/web/src/components/AppShell.tsx\<close>: the sign-out of the application, over the push subscription, the
  session and the server.
\<close>

subsection \<open>The steps\<close>

text \<open>
  \<open>handleLogout\<close>, up to the page it navigates to: the flag tells whether it did. The call to sign out changes
  the server too.
\<close>

definition handleLogout ::
  "'s push_api \<Rightarrow> platform \<Rightarrow> 'c query_cache \<Rightarrow> ('s \<Rightarrow> (bool \<times> (api_error + json option)) option \<times> 's) \<Rightarrow>
    push_view \<Rightarrow> browser \<times> 's \<Rightarrow> 'c \<Rightarrow> bool \<times> push_view \<times> (browser \<times> 's) \<times> 'c" where
  "handleLogout api pf qc call_logout v w c =
     (case disable_push api pf v w of (v, b, s) \<Rightarrow>
        (case call_logout s of (outcome, s) \<Rightarrow>
           (case logout qc outcome c of (threw, c) \<Rightarrow> (\<not> threw, v, (b, s), c))))"

definition served_logout :: "outside \<Rightarrow> http \<Rightarrow> request \<Rightarrow> server \<Rightarrow> (bool \<times> (api_error + json option)) option \<times> server" where
  "served_logout out hx rq sv = (case served_outcome out hx rq CallLogout sv of (outcome, sv) \<Rightarrow> (Some outcome, sv))"

subsection \<open>The routes it calls\<close>

lemma requireCsrf_body [simp]: "requireCsrf hx (rq\<lparr>rq_body := x, rq_auth := a\<rparr>) = requireCsrf hx (rq\<lparr>rq_auth := a\<rparr>)"
  by (simp add: requireCsrf_def header_def cong: option.case_cong)

lemma origin_guard_body: "path \<noteq> ''/api/auth/google/callback'' \<Longrightarrow> path' \<noteq> ''/api/auth/google/callback'' \<Longrightarrow>
    origin_guard env path (rq\<lparr>rq_body := x\<rparr>) = origin_guard env path' (rq\<lparr>rq_body := y\<rparr>)"
  by (simp add: origin_guard_def header_def)

lemma sign_out_routes:
  "find_route ''POST'' ''/api/auth/logout'' routes = Some (\<lambda>out. post_logout, [])"
  "find_route ''DELETE'' ''/api/push/subscribe'' routes = Some (\<lambda>out. delete_push_subscribe, [])"
  using call_reaches [of CallLogout] call_reaches [of "CallUnsubscribePush endpoint" for endpoint]
  by (simp_all add: id_ok_def find_route_segments route_segments_def)

text \<open>A sign-out that succeeds had a session and its CSRF token, and leaves the subscriptions alone.\<close>

lemma logout_had_session:
  assumes "served_outcome out hx rq CallLogout sv = ((f, Inr x), sv')"
  shows "origin_guard (hx_env hx) ''/api/auth/logout'' (rq\<lparr>rq_body := None\<rparr>) = None \<and>
    (\<exists>a d. authenticate hx rq (sdb sv) = (Inr a, d) \<and> requireCsrf hx (rq\<lparr>rq_auth := Some a\<rparr>) = None) \<and>
    db_push (sdb sv') = db_push (sdb sv)"
proof -
  let ?rq = "rq\<lparr>rq_body := None, rq_params := []\<rparr>"
  obtain response where served: "serve out hx ''POST'' ''/api/auth/logout'' (rq\<lparr>rq_body := None\<rparr>) sv = (response, sv')"
      "snd (read_response (Fetched (rs_status response) (rs_body response))) = Inr x"
    using assms by (auto simp: served_outcome_def split: prod.splits)
  have ok: "rs_status response \<le> 299"
    using served(2) by (auto simp: read_response_def Let_def split: if_splits option.splits)
  have guard: "origin_guard (hx_env hx) ''/api/auth/logout'' (rq\<lparr>rq_body := None\<rparr>) = None"
    using served(1) ok by (auto simp: serve_def handle_def origin_guard_def json_reply_def split: if_splits option.splits)
  obtain res sv2 where run: "post_logout hx ?rq sv = (res, sv2)"
    by fastforce
  have res: "sv2 = sv'" "\<And>e. res = Inl e \<Longrightarrow> response = error_response (rq_id rq) e"
    using served(1) guard run by (auto simp: serve_def handle_def sign_out_routes split: sum.splits)
  obtain who d where auth: "authenticate hx rq (sdb sv) = (who, d)"
    by fastforce
  show ?thesis
  proof (cases who)
    case (Inl e)
    then have "res = Inl e" "400 \<le> rs_status (error_response (rq_id rq) e)"
      using run auth by (auto simp: post_logout_def requireAuthCsrf_def requireAuth_def authenticate_def Let_def json_reply_def
          split: option.splits if_splits)
    with res ok show ?thesis
      by simp
  next
    case (Inr a)
    have frame: "db_push d = db_push (sdb sv)"
      using authenticate_refreshes [where hx = hx and rq = rq and d = "sdb sv"] by (auto simp: auth Inr)
    show ?thesis
    proof (cases "requireCsrf hx (rq\<lparr>rq_auth := Some a\<rparr>)")
      case (Some e)
      then have "res = Inl e"
        using run auth Inr by (auto simp: post_logout_def requireAuthCsrf_def requireAuth_def)
      moreover have "400 \<le> rs_status (error_response (rq_id rq) e)"
        using Some by (auto simp: requireCsrf_def json_reply_def split: option.splits if_splits)
      ultimately show ?thesis
        using res ok by simp
    next
      case None
      then have "db_push (sdb sv') = db_push d"
        using run auth Inr res(1)
        by (auto simp: post_logout_def requireAuthCsrf_def requireAuth_def revokeCurrent_def split: prod.splits)
      with None auth Inr guard frame show ?thesis
        by simp
    qed
  qed
qed

text \<open>Without a session or its CSRF token the request to unsubscribe changes no row; with both it removes its own.\<close>

lemma unsubscribe_served:
  assumes "served_unit out hx rq (CallUnsubscribePush endpoint) sv = (r, sv')"
    and "lib_url (hx_lib hx) endpoint \<noteq> None" and "length endpoint \<le> 2048"
    and "origin_guard (hx_env hx) ''/api/auth/logout'' (rq\<lparr>rq_body := None\<rparr>) = None"
    and later: "authenticate hx rq (sdb sv') = (Inr a, d)" "requireCsrf hx (rq\<lparr>rq_auth := Some a\<rparr>) = None"
  shows "fst (authenticate hx rq (sdb sv)) = Inr a \<and>
    (\<forall>q \<in> set (db_push (sdb sv')). \<not> (ps_endpoint q = endpoint \<and> ps_userId q = ax_userId a))"
proof -
  define body where "body = Some (JObj [(''endpoint'', JStr endpoint)])"
  let ?rq = "rq\<lparr>rq_body := body, rq_params := []\<rparr>"
  have parsed: "unsubscribeSchema (hx_lib hx) body = Some endpoint"
    using assms(2,3) by (simp add: unsubscribeSchema_def body_def zs_field_def zs_length_def zs_refine_def zs_url_def)
  have "origin_guard (hx_env hx) ''/api/push/subscribe'' (rq\<lparr>rq_body := body\<rparr>) = None"
    using assms(4) origin_guard_body [where path = "''/api/push/subscribe''" and path' = "''/api/auth/logout''" and rq = rq and x = body and y = None] by simp
  with assms(1) have run: "snd (delete_push_subscribe hx ?rq sv) = sv'"
    by (auto simp: served_unit_def served_call_eq serve_def handle_def sign_out_routes body_def split: prod.splits sum.splits)
  obtain who d0 where auth: "authenticate hx rq (sdb sv) = (who, d0)"
    by fastforce
  show ?thesis
  proof (cases who)
    case (Inl e)
    then have "sdb sv' = sdb sv"
      using run auth authenticate_refreshes [where hx = hx and rq = rq and d = "sdb sv"]
      by (auto simp: delete_push_subscribe_def requireAuthCsrf_def requireAuth_def)
    with later(1) auth Inl show ?thesis
      by simp
  next
    case (Inr a0)
    have again: "fst (authenticate hx rq d0) = Inr a0"
      using authenticate_again auth Inr by simp
    show ?thesis
    proof (cases "requireCsrf hx (rq\<lparr>rq_auth := Some a0\<rparr>)")
      case (Some e)
      then have "sdb sv' = d0"
        using run auth Inr by (auto simp: delete_push_subscribe_def requireAuthCsrf_def requireAuth_def)
      with later again Some show ?thesis
        by simp
    next
      case None
      then have db: "sdb sv' = d0\<lparr>db_push := deleteMany (\<lambda>r. ps_endpoint r = endpoint \<and> ps_userId r = ax_userId a0) (db_push d0)\<rparr>"
        using run auth Inr parsed
        by (auto simp: delete_push_subscribe_def requireAuthCsrf_def requireAuth_def with_owner_def with_parsed_def)
      have "fst (authenticate hx rq (sdb sv')) = Inr a0"
        using again by (subst authenticate_frame [of _ d0]) (simp_all add: db)
      with later(1) have "a = a0"
        by simp
      then show ?thesis
        by (auto simp: db auth Inr)
    qed
  qed
qed

subsection \<open>After signing out\<close>



end
