(* ===== verification/JobStream.thy ===== *)
theory JobStream
  imports Complex_Main Wire Paging
begin

section \<open>The browser's view of a job\<close>

text \<open>
  \<open>apps/web/src/hooks/useJobSocket.ts\<close>: the state of the hook, what it does on each event of its sockets,
  of the network, of its timers and of its component, and the terminal's output it passes on. A run of
  the hook's effect has a number; the handlers of a socket belong to the run that made it, and are
  disposed when that run is cleaned up. The database cache of the page is the entry of this job.
\<close>

datatype connection_state = ConnConnecting | ConnConnected | ConnReconnecting | ConnOffline | ConnClosed

record view_socket =
  vs_effect :: nat
  vs_readyState :: nat
  vs_sent :: "client_to_server list"
  vs_closes :: "(int \<times> string) option list"

record job_view =
  jv_jobId :: ident
  jv_enabled :: bool
  jv_effect :: nat
  jv_disposed :: bool
  jv_connection :: connection_state
  jv_status :: job_status
  jv_exitCode :: "int option"
  jv_streamError :: "string option"
  jv_hasOutput :: bool
  jv_sockets :: "view_socket list"
  jv_socketRef :: "nat option"
  jv_reconnectTimer :: "int option"
  jv_reconnectAttempt :: nat
  jv_terminal :: bool
  jv_inputSequence :: int
  jv_awaitingReplay :: bool
  jv_replayBatchCount :: nat
  jv_latestSize :: "(int \<times> int) option"
  jv_lastSequence :: int
  jv_outputSink :: "nat option"
  jv_pendingChunks :: "out_chunk list"
  jv_shown :: "out_chunk list"
  jv_closeTimers :: "nat list"
  jv_cachedJob :: "(job_status \<times> int option) option"
  jv_invalidated :: nat

subsection \<open>Helpers\<close>

definition websocketUrl :: "string \<Rightarrow> string \<Rightarrow> string" where
  "websocketUrl protocol host = (if protocol = ''https:'' then ''wss:'' else ''ws:'') @ ''//'' @ host @ ''/ws/client''"

text \<open>A \<open>Map\<close> keyed by sequence keeps the last chunk of each, at the place of the first.\<close>

definition uniqueSortedChunks :: "out_chunk list \<Rightarrow> out_chunk list" where
  "uniqueSortedChunks chunks =
     sort_key oc_sequence (map snd (fold (\<lambda>c m. AList.update (oc_sequence c) c m) chunks []))"

definition asJobOutput :: "json \<Rightarrow> (ident \<times> out_chunk) option" where
  "asJobOutput raw =
     (case raw of
        JObj message \<Rightarrow>
          (case (map_of message ''type'', map_of message ''payload'') of
             (Some (JStr tag), Some (JObj payload)) \<Rightarrow>
               if tag \<noteq> ''job.output'' then None
               else (case (map_of payload ''jobId'', map_of payload ''sequence'', map_of payload ''stream'', map_of payload ''data'') of
                       (Some (JStr jobId), Some (JNum sequence), Some (JStr stream), Some (JStr data)) \<Rightarrow>
                         if stream = ''stdout'' then Some (jobId, \<lparr>oc_sequence = sequence, oc_stream = Stdout, oc_data = data\<rparr>)
                         else if stream = ''stderr'' then Some (jobId, \<lparr>oc_sequence = sequence, oc_stream = Stderr, oc_data = data\<rparr>)
                         else None
                     | _ \<Rightarrow> None)
           | _ \<Rightarrow> None)
      | _ \<Rightarrow> None)"

definition createInputSequenceSeed :: "ms \<Rightarrow> nat \<Rightarrow> int" where
  "createInputSequenceSeed nowMilliseconds entropy = nowMilliseconds * 1000 + int (entropy mod 1000)"

definition finished :: "job_status \<Rightarrow> bool" where
  "finished s \<longleftrightarrow> s \<in> {Completed, Failed, Cancelled}"

definition disposed :: "nat \<Rightarrow> job_view \<Rightarrow> bool" where
  "disposed i v \<longleftrightarrow> vs_effect (jv_sockets v ! i) \<noteq> jv_effect v \<or> jv_disposed v"

definition on_socket :: "nat \<Rightarrow> (view_socket \<Rightarrow> view_socket) \<Rightarrow> job_view \<Rightarrow> job_view" where
  "on_socket i f v = v\<lparr>jv_sockets := (jv_sockets v)[i := f (jv_sockets v ! i)]\<rparr>"

text \<open>\<open>WebSocket.send\<close> on a socket that is closing or closed discards; \<open>close\<close> starts closing.\<close>

definition socket_send :: "nat \<Rightarrow> client_to_server \<Rightarrow> job_view \<Rightarrow> job_view" where
  "socket_send i message = on_socket i (\<lambda>s. if vs_readyState s = OPEN_STATE then s\<lparr>vs_sent := vs_sent s @ [message]\<rparr> else s)"

definition socket_close :: "nat \<Rightarrow> (int \<times> string) option \<Rightarrow> job_view \<Rightarrow> job_view" where
  "socket_close i reason = on_socket i (\<lambda>s. s\<lparr>vs_readyState := max 2 (vs_readyState s), vs_closes := vs_closes s @ [reason]\<rparr>)"

definition view_open :: "nat \<Rightarrow> job_view \<Rightarrow> bool" where
  "view_open i v \<longleftrightarrow> i < length (jv_sockets v) \<and> vs_readyState (jv_sockets v ! i) = OPEN_STATE"

subsection \<open>Sending\<close>

definition view_send :: "client_to_server \<Rightarrow> job_view \<Rightarrow> bool \<times> job_view" where
  "view_send message v =
     (case jv_socketRef v of
        Some i \<Rightarrow> if \<not> view_open i v then (False, v) else (True, socket_send i message v)
      | None \<Rightarrow> (False, v))"

definition sendInput :: "string \<Rightarrow> job_view \<Rightarrow> bool \<times> job_view" where
  "sendInput data v =
     view_send (ClientJobInput (jv_jobId v) (jv_inputSequence v) data) (v\<lparr>jv_inputSequence := jv_inputSequence v + 1\<rparr>)"

definition sendResize :: "int \<Rightarrow> int \<Rightarrow> job_view \<Rightarrow> bool \<times> job_view" where
  "sendResize columns rows v =
     view_send (ClientJobResize (jv_jobId v) columns rows) (v\<lparr>jv_latestSize := Some (columns, rows)\<rparr>)"

definition sendCancel :: "job_view \<Rightarrow> bool \<times> job_view" where
  "sendCancel v = view_send (ClientJobCancel (jv_jobId v)) v"

subsection \<open>Output\<close>

definition emitOutput :: "out_chunk \<Rightarrow> job_view \<Rightarrow> job_view" where
  "emitOutput chunk v =
     (let v = v\<lparr>jv_hasOutput := True\<rparr> in
      case jv_outputSink v of
        Some sink \<Rightarrow> v\<lparr>jv_shown := jv_shown v @ [chunk]\<rparr>
      | None \<Rightarrow> v\<lparr>jv_pendingChunks := jv_pendingChunks v @ [chunk]\<rparr>)"

definition subscribeOutput :: "nat \<Rightarrow> job_view \<Rightarrow> job_view" where
  "subscribeOutput sink v =
     v\<lparr>jv_outputSink := Some sink, jv_shown := jv_shown v @ jv_pendingChunks v, jv_pendingChunks := []\<rparr>"

definition unsubscribeOutput :: "nat \<Rightarrow> job_view \<Rightarrow> job_view" where
  "unsubscribeOutput sink v = (if jv_outputSink v = Some sink then v\<lparr>jv_outputSink := None\<rparr> else v)"

definition receive_output :: "out_chunk \<Rightarrow> job_view \<Rightarrow> job_view" where
  "receive_output c v =
     (if oc_sequence c \<le> jv_lastSequence v then v
      else emitOutput c (v\<lparr>jv_lastSequence := oc_sequence c,
             jv_replayBatchCount := jv_replayBatchCount v + (if jv_awaitingReplay v then 1 else 0)\<rparr>))"

subsection \<open>Connecting\<close>

text \<open>\<open>Math.random\<close> is \<open>random\<close>, from 0 up to but not 1; \<open>Math.round\<close> rounds half up.\<close>

definition reconnect_delay :: "nat \<Rightarrow> rat \<Rightarrow> int" where
  "reconnect_delay attempt random =
     (let baseDelay = min 15000 (500 * 2 ^ attempt) :: int
      in baseDelay + \<lfloor>random * min (of_int baseDelay / 4) 1000 + 1 / 2\<rfloor>)"

definition scheduleReconnect :: "bool \<Rightarrow> rat \<Rightarrow> nat \<Rightarrow> job_view \<Rightarrow> job_view" where
  "scheduleReconnect onLine random i v =
     (if disposed i v \<or> jv_terminal v \<or> \<not> jv_enabled v then v
      else if \<not> onLine then v\<lparr>jv_connection := ConnOffline\<rparr>
      else v\<lparr>jv_connection := ConnReconnecting, jv_reconnectAttempt := Suc (jv_reconnectAttempt v),
             jv_reconnectTimer := Some (reconnect_delay (jv_reconnectAttempt v) random)\<rparr>)"

definition connect :: "bool \<Rightarrow> job_view \<Rightarrow> job_view" where
  "connect onLine v =
     (if jv_disposed v \<or> jv_terminal v \<or> \<not> jv_enabled v \<or> \<not> onLine
      then (if \<not> onLine then v\<lparr>jv_connection := ConnOffline\<rparr> else v)
      else v\<lparr>jv_connection := (if jv_reconnectAttempt v = 0 then ConnConnecting else ConnReconnecting),
             jv_sockets := jv_sockets v @ [\<lparr>vs_effect = jv_effect v, vs_readyState = 0, vs_sent = [], vs_closes = []\<rparr>],
             jv_socketRef := Some (length (jv_sockets v))\<rparr>)"

definition onopen :: "nat \<Rightarrow> job_view \<Rightarrow> job_view" where
  "onopen i v =
     (if disposed i v then socket_close i None v
      else
        (let v = v\<lparr>jv_reconnectAttempt := 0, jv_connection := ConnConnected, jv_streamError := None,
                   jv_awaitingReplay := True, jv_replayBatchCount := 0\<rparr>;
             v = socket_send i (JobSubscribe (jv_jobId v) (jv_lastSequence v)) v
         in case jv_latestSize v of
              Some (columns, rows) \<Rightarrow> socket_send i (ClientJobResize (jv_jobId v) columns rows) v
            | None \<Rightarrow> v))"

subsection \<open>Messages\<close>

definition closeFinishedSocket :: "nat \<Rightarrow> job_view \<Rightarrow> job_view" where
  "closeFinishedSocket i v =
     (if \<not> view_open i v then v
      else socket_close i (Some (1000, ''Job finished'')) (socket_send i (JobUnsubscribe (jv_jobId v)) v))"

text \<open>\<open>exitCode ?? current\<close>: neither \<open>undefined\<close> nor \<open>null\<close> replaces the current one.\<close>

fun coalesce :: "'a option option \<Rightarrow> 'a option \<Rightarrow> 'a option" where
  "coalesce (Some (Some x)) y = Some x"
| "coalesce _ y = y"

definition receive_status :: "nat \<Rightarrow> job_status \<Rightarrow> int option option \<Rightarrow> job_view \<Rightarrow> job_view" where
  "receive_status i status code v =
     (let replayHasMore = jv_awaitingReplay v \<and> jv_replayBatchCount v \<ge> 1000;
          v = v\<lparr>jv_awaitingReplay := replayHasMore, jv_replayBatchCount := 0, jv_status := status,
                jv_exitCode := (case code of None \<Rightarrow> jv_exitCode v | Some c \<Rightarrow> c),
                jv_cachedJob := map_option (\<lambda>(_, c). (status, coalesce code c)) (jv_cachedJob v)\<rparr>
      in if replayHasMore then socket_send i (JobSubscribe (jv_jobId v) (jv_lastSequence v)) v
         else if finished status
         then (let v = v\<lparr>jv_terminal := True, jv_connection := ConnClosed, jv_invalidated := Suc (jv_invalidated v)\<rparr>
               in if status = Cancelled then closeFinishedSocket i v
                  else v\<lparr>jv_closeTimers := jv_closeTimers v @ [i]\<rparr>)
         else v)"

fun receive :: "nat \<Rightarrow> server_to_client \<Rightarrow> job_view \<Rightarrow> job_view" where
  "receive i (ClientDeviceStatus d status seen) v = v"
| "receive i (ClientJobOutput j c) v = (if j \<noteq> jv_jobId v then v else receive_output c v)"
| "receive i (ClientJobStatus j status code) v = (if j \<noteq> jv_jobId v then v else receive_status i status code v)"
| "receive i (ClientJobCompleted j code) v =
     (if j \<noteq> jv_jobId v then v
      else (let v = v\<lparr>jv_terminal := True, jv_status := Completed, jv_exitCode := Some code, jv_connection := ConnClosed\<rparr>;
                v = socket_close i (Some (1000, ''Job complete'')) (socket_send i (JobUnsubscribe (jv_jobId v)) v)
            in v\<lparr>jv_invalidated := Suc (jv_invalidated v)\<rparr>))"
| "receive i (ClientJobFailed j e code) v =
     (if j \<noteq> jv_jobId v then v
      else (let v = v\<lparr>jv_terminal := True, jv_status := Failed, jv_exitCode := coalesce code None, jv_streamError := Some e,
                      jv_connection := ConnClosed\<rparr>;
                v = socket_close i (Some (1000, ''Job failed'')) v
            in v\<lparr>jv_invalidated := Suc (jv_invalidated v)\<rparr>))"

text \<open>\<open>onmessage\<close>; \<open>None\<close> is data that is not JSON. The browser calls it only while the socket is open.\<close>

definition onmessage :: "(string \<Rightarrow> bool) \<Rightarrow> nat \<Rightarrow> json option \<Rightarrow> job_view \<Rightarrow> job_view" where
  "onmessage uuid i data v =
     (if disposed i v then v
      else (case data of
              None \<Rightarrow> v
            | Some raw \<Rightarrow>
                (case asJobOutput raw of
                   Some (jobId, c) \<Rightarrow> if jobId \<noteq> jv_jobId v then v else receive_output c v
                 | None \<Rightarrow>
                     (case serverToClientMessageSchema uuid (Some raw) of
                        None \<Rightarrow> v
                      | Some message \<Rightarrow> receive i message v))))"

definition onerror :: "nat \<Rightarrow> job_view \<Rightarrow> job_view" where
  "onerror i v =
     (if disposed i v then v
      else v\<lparr>jv_streamError := Some ''The live stream was interrupted. RelayDock will keep trying to reconnect.''\<rparr>)"

definition onclose :: "bool \<Rightarrow> rat \<Rightarrow> nat \<Rightarrow> job_view \<Rightarrow> job_view" where
  "onclose onLine random i v =
     (let v = (if jv_socketRef v = Some i then v\<lparr>jv_socketRef := None\<rparr> else v)
      in if disposed i v \<or> jv_terminal v then v\<lparr>jv_connection := ConnClosed\<rparr>
         else scheduleReconnect onLine random i v)"

subsection \<open>The network and the component\<close>

definition onOffline :: "job_view \<Rightarrow> job_view" where
  "onOffline v =
     (let v = v\<lparr>jv_reconnectTimer := None, jv_connection := ConnOffline\<rparr>
      in case jv_socketRef v of None \<Rightarrow> v | Some i \<Rightarrow> socket_close i None v)"

definition onOnline :: "bool \<Rightarrow> job_view \<Rightarrow> job_view" where
  "onOnline onLine v =
     (if \<not> jv_terminal v \<and> (case jv_socketRef v of None \<Rightarrow> True | Some i \<Rightarrow> \<not> view_open i v)
      then connect onLine (v\<lparr>jv_reconnectAttempt := 0\<rparr>) else v)"

definition run_effect :: "bool \<Rightarrow> job_status \<Rightarrow> int option \<Rightarrow> bool \<Rightarrow> job_view \<Rightarrow> job_view" where
  "run_effect onLine status exitCode enabled v =
     connect onLine (v\<lparr>jv_effect := Suc (jv_effect v), jv_disposed := False, jv_enabled := enabled,
       jv_terminal := finished status, jv_status := status, jv_exitCode := exitCode\<rparr>)"

definition cleanup_effect :: "job_view \<Rightarrow> job_view" where
  "cleanup_effect v =
     (let v = v\<lparr>jv_disposed := True, jv_reconnectTimer := None\<rparr>
      in case jv_socketRef v of
           None \<Rightarrow> v
         | Some i \<Rightarrow>
             (let v = (if view_open i v then socket_send i (JobUnsubscribe (jv_jobId v)) v else v)
              in (socket_close i (Some (1000, ''Viewer left'')) v)\<lparr>jv_socketRef := None\<rparr>))"

definition useJobSocket ::
  "ident \<Rightarrow> job_status \<Rightarrow> int option \<Rightarrow> out_chunk list \<Rightarrow> bool \<Rightarrow> bool \<Rightarrow> int \<Rightarrow> job_view" where
  "useJobSocket jobId status exitCode initialChunks enabled onLine seed =
     (let initialSortedChunks = uniqueSortedChunks initialChunks
      in run_effect onLine status exitCode enabled
        \<lparr>jv_jobId = jobId, jv_enabled = enabled, jv_effect = 0, jv_disposed = False,
         jv_connection = (if onLine then ConnConnecting else ConnOffline), jv_status = status, jv_exitCode = exitCode,
         jv_streamError = None, jv_hasOutput = (initialSortedChunks \<noteq> []), jv_sockets = [], jv_socketRef = None,
         jv_reconnectTimer = None, jv_reconnectAttempt = 0, jv_terminal = finished status, jv_inputSequence = seed,
         jv_awaitingReplay = False, jv_replayBatchCount = 0, jv_latestSize = None,
         jv_lastSequence = fold (\<lambda>c maximum. max maximum (oc_sequence c)) initialSortedChunks (- 1),
         jv_outputSink = None, jv_pendingChunks = [], jv_shown = [], jv_closeTimers = [],
         jv_cachedJob = Some (status, exitCode), jv_invalidated = 0\<rparr>)"

subsection \<open>Events\<close>

datatype view_event =
    SocketOpened nat
  | SocketMessage nat "json option"
  | SocketError nat
  | SocketClosed nat bool rat
  | NetworkOffline
  | NetworkOnline bool
  | ReconnectTimer bool
  | CloseTimer nat
  | SinkAttached nat
  | SinkDetached nat
  | InputTyped string
  | TerminalResized int int
  | CancelPressed
  | JobChanged bool job_status "int option" bool
  | Unmounted

text \<open>
  One event. A socket opens once, receives while it is open and closes once; the listeners of the
  network and the timer exist while the effect runs.
\<close>

fun view_step :: "(string \<Rightarrow> bool) \<Rightarrow> view_event \<Rightarrow> job_view \<Rightarrow> job_view" where
  "view_step uuid (SocketOpened i) v =
     (if i < length (jv_sockets v) \<and> vs_readyState (jv_sockets v ! i) = 0
      then onopen i (on_socket i (\<lambda>s. s\<lparr>vs_readyState := OPEN_STATE\<rparr>) v) else v)"
| "view_step uuid (SocketMessage i data) v = (if view_open i v then onmessage uuid i data v else v)"
| "view_step uuid (SocketError i) v = (if i < length (jv_sockets v) then onerror i v else v)"
| "view_step uuid (SocketClosed i onLine random) v =
     (if i < length (jv_sockets v) \<and> vs_readyState (jv_sockets v ! i) \<noteq> 3
      then onclose onLine random i (on_socket i (\<lambda>s. s\<lparr>vs_readyState := 3\<rparr>) v) else v)"
| "view_step uuid NetworkOffline v = (if jv_disposed v then v else onOffline v)"
| "view_step uuid (NetworkOnline onLine) v = (if jv_disposed v then v else onOnline onLine v)"
| "view_step uuid (ReconnectTimer onLine) v =
     (if jv_reconnectTimer v = None then v else connect onLine (v\<lparr>jv_reconnectTimer := None\<rparr>))"
| "view_step uuid (CloseTimer i) v =
     (if i \<in> set (jv_closeTimers v) then closeFinishedSocket i (v\<lparr>jv_closeTimers := remove1 i (jv_closeTimers v)\<rparr>) else v)"
| "view_step uuid (SinkAttached sink) v = subscribeOutput sink v"
| "view_step uuid (SinkDetached sink) v = unsubscribeOutput sink v"
| "view_step uuid (InputTyped data) v = snd (sendInput data v)"
| "view_step uuid (TerminalResized columns rows) v = snd (sendResize columns rows v)"
| "view_step uuid CancelPressed v = snd (sendCancel v)"
| "view_step uuid (JobChanged onLine status exitCode enabled) v =
     (if jv_disposed v then v else run_effect onLine status exitCode enabled (cleanup_effect v))"
| "view_step uuid Unmounted v = (if jv_disposed v then v else cleanup_effect v)"

definition view_run :: "(string \<Rightarrow> bool) \<Rightarrow> view_event list \<Rightarrow> job_view \<Rightarrow> job_view" where
  "view_run uuid es v = fold (view_step uuid) es v"

subsection \<open>What the terminal is given\<close>

definition view_output :: "job_view \<Rightarrow> out_chunk list" where
  "view_output v = jv_shown v @ jv_pendingChunks v"

text \<open>The chunks that raise the highest sequence so far, starting from \<open>n\<close>.\<close>

fun advance :: "int \<Rightarrow> out_chunk list \<Rightarrow> out_chunk list" where
  "advance n [] = []"
| "advance n (c # cs) = (if n < oc_sequence c then c # advance (oc_sequence c) cs else advance n cs)"

text \<open>The chunk of this job that an event brings, if it brings one the hook looks at.\<close>

definition message_output :: "(string \<Rightarrow> bool) \<Rightarrow> json \<Rightarrow> job_view \<Rightarrow> out_chunk list" where
  "message_output uuid raw v =
     (case asJobOutput raw of
        Some (jobId, c) \<Rightarrow> if jobId = jv_jobId v then [c] else []
      | None \<Rightarrow>
          (case serverToClientMessageSchema uuid (Some raw) of
             Some (ClientJobOutput jobId c) \<Rightarrow> if jobId = jv_jobId v then [c] else []
           | _ \<Rightarrow> []))"

fun arrival :: "(string \<Rightarrow> bool) \<Rightarrow> view_event \<Rightarrow> job_view \<Rightarrow> out_chunk list" where
  "arrival uuid (SocketMessage i (Some raw)) v = (if view_open i v \<and> \<not> disposed i v then message_output uuid raw v else [])"
| "arrival uuid _ v = []"

fun arrivals :: "(string \<Rightarrow> bool) \<Rightarrow> view_event list \<Rightarrow> job_view \<Rightarrow> out_chunk list" where
  "arrivals uuid [] v = []"
| "arrivals uuid (e # es) v = arrival uuid e v @ arrivals uuid es (view_step uuid e v)"

lemma socket_ops_output [simp]:
  "jv_shown (on_socket i f v) = jv_shown v" "jv_pendingChunks (on_socket i f v) = jv_pendingChunks v"
  "jv_lastSequence (on_socket i f v) = jv_lastSequence v" "jv_outputSink (on_socket i f v) = jv_outputSink v"
  "jv_jobId (on_socket i f v) = jv_jobId v" "jv_awaitingReplay (on_socket i f v) = jv_awaitingReplay v"
  "jv_replayBatchCount (on_socket i f v) = jv_replayBatchCount v"
  by (simp_all add: on_socket_def)

lemmas socket_op_defs = socket_send_def socket_close_def

text \<open>The fields the output depends on.\<close>

definition output_fields :: "job_view \<Rightarrow> out_chunk list \<times> out_chunk list \<times> int \<times> nat option \<times> ident" where
  "output_fields v = (jv_shown v, jv_pendingChunks v, jv_lastSequence v, jv_outputSink v, jv_jobId v)"

lemma output_fields_simps [simp]:
  "output_fields (on_socket i f v) = output_fields v"
  "output_fields (socket_send i m v) = output_fields v"
  "output_fields (socket_close i reason v) = output_fields v"
  "output_fields (connect onLine v) = output_fields v"
  "output_fields (scheduleReconnect onLine r i v) = output_fields v"
  "output_fields (closeFinishedSocket i v) = output_fields v"
  "output_fields (snd (view_send m v)) = output_fields v"
  by (simp_all add: output_fields_def socket_op_defs connect_def scheduleReconnect_def closeFinishedSocket_def view_send_def
      on_socket_def split: option.split)

lemma output_fields_updates [simp]:
  "output_fields (v\<lparr>jv_enabled := a\<rparr>) = output_fields v" "output_fields (v\<lparr>jv_effect := b\<rparr>) = output_fields v"
  "output_fields (v\<lparr>jv_disposed := c\<rparr>) = output_fields v" "output_fields (v\<lparr>jv_connection := d\<rparr>) = output_fields v"
  "output_fields (v\<lparr>jv_status := e\<rparr>) = output_fields v" "output_fields (v\<lparr>jv_exitCode := f\<rparr>) = output_fields v"
  "output_fields (v\<lparr>jv_streamError := g\<rparr>) = output_fields v" "output_fields (v\<lparr>jv_socketRef := h\<rparr>) = output_fields v"
  "output_fields (v\<lparr>jv_reconnectTimer := k\<rparr>) = output_fields v" "output_fields (v\<lparr>jv_reconnectAttempt := l\<rparr>) = output_fields v"
  "output_fields (v\<lparr>jv_terminal := m\<rparr>) = output_fields v" "output_fields (v\<lparr>jv_awaitingReplay := n\<rparr>) = output_fields v"
  "output_fields (v\<lparr>jv_replayBatchCount := p\<rparr>) = output_fields v" "output_fields (v\<lparr>jv_closeTimers := q\<rparr>) = output_fields v"
  "output_fields (v\<lparr>jv_cachedJob := r\<rparr>) = output_fields v" "output_fields (v\<lparr>jv_invalidated := s\<rparr>) = output_fields v"
  "output_fields (v\<lparr>jv_inputSequence := t\<rparr>) = output_fields v" "output_fields (v\<lparr>jv_latestSize := u\<rparr>) = output_fields v"
  by (simp_all add: output_fields_def)

lemma receive_fields:
  "output_fields (receive i m v) = (case m of
     ClientJobOutput j c \<Rightarrow> if j = jv_jobId v then output_fields (receive_output c v) else output_fields v | _ \<Rightarrow> output_fields v)"
  by (cases m) (simp_all add: receive_status_def Let_def)

lemma onopen_fields: "output_fields (onopen i v) = output_fields v"
  by (simp add: onopen_def Let_def split: option.split)

lemma step_fields:
  assumes "\<forall>s. e \<noteq> SinkAttached s" and "\<forall>s. e \<noteq> SinkDetached s"
  shows "output_fields (view_step uuid e v) = output_fields (fold receive_output (arrival uuid e v) v)"
proof (cases e)
  case (SocketMessage i data)
  then show ?thesis
    by (cases data) (auto simp: onmessage_def message_output_def receive_fields split: option.split prod.split server_to_client.split)
qed (use assms in \<open>auto simp: onopen_fields onerror_def onclose_def onOffline_def onOnline_def run_effect_def cleanup_effect_def
  sendInput_def sendResize_def sendCancel_def Let_def split: option.split\<close>)

abbreviation highest :: "int \<Rightarrow> 'a out_chunk_scheme list \<Rightarrow> int" where
  "highest n cs \<equiv> fold (\<lambda>c maximum. max maximum (oc_sequence c)) cs n"

lemma advance_append: "advance n (xs @ ys) = advance n xs @ advance (highest n xs) ys"
  by (induction xs arbitrary: n) (auto simp: max_def)

lemma advance_sorted: "strict_sorted_by oc_sequence (advance n cs) \<and> (\<forall>c \<in> set (advance n cs). n < oc_sequence c \<and> c \<in> set cs)"
proof (induction cs arbitrary: n)
  case (Cons c cs)
  show ?case
    using Cons [of n] Cons [of "oc_sequence c"] by auto
qed simp

lemma advance_all: "strict_sorted_by oc_sequence cs \<Longrightarrow> \<forall>c \<in> set cs. n < oc_sequence c \<Longrightarrow> advance n cs = cs"
  by (induction cs arbitrary: n) auto

lemma highest_start: "n \<le> highest n cs"
  by (induction cs arbitrary: n) (simp, metis fold_simps(2) max.bounded_iff)

lemma highest_ge: "c \<in> set cs \<Longrightarrow> oc_sequence c \<le> highest n cs"
proof (induction cs arbitrary: n)
  case (Cons x cs)
  show ?case
  proof (cases "c = x")
    case True
    then show ?thesis
      using highest_start [of "max n (oc_sequence x)" cs] by simp
  next
    case False
    then show ?thesis
      using Cons by simp
  qed
qed simp

definition drained :: "job_view \<Rightarrow> bool" where
  "drained v \<longleftrightarrow> (jv_outputSink v \<noteq> None \<longrightarrow> jv_pendingChunks v = [])"

lemma receive_one:
  assumes "drained v"
  shows "view_output (receive_output c v) = view_output v @ (if jv_lastSequence v < oc_sequence c then [c] else []) \<and>
    jv_lastSequence (receive_output c v) = max (jv_lastSequence v) (oc_sequence c) \<and> drained (receive_output c v)"
  using assms by (auto simp: receive_output_def emitOutput_def view_output_def drained_def Let_def split: option.split)

lemma receive_outputs:
  assumes "drained v"
  shows "view_output (fold receive_output cs v) = view_output v @ advance (jv_lastSequence v) cs \<and>
    jv_lastSequence (fold receive_output cs v) = highest (jv_lastSequence v) cs \<and> drained (fold receive_output cs v)"
  using assms
proof (induction cs arbitrary: v)
  case (Cons c cs)
  then show ?case
    using receive_one [OF Cons.prems, of c] Cons.IH [of "receive_output c v"] by (auto simp: max_def)
qed simp

lemma fields_output:
  "output_fields v = output_fields v' \<Longrightarrow>
    view_output v = view_output v' \<and> jv_lastSequence v = jv_lastSequence v' \<and> drained v = drained v'"
  by (simp add: output_fields_def view_output_def drained_def)

lemma step_output:
  assumes "drained v"
  shows "view_output (view_step uuid e v) = view_output v @ advance (jv_lastSequence v) (arrival uuid e v) \<and>
    jv_lastSequence (view_step uuid e v) = highest (jv_lastSequence v) (arrival uuid e v) \<and> drained (view_step uuid e v)"
proof (cases "\<exists>s. e = SinkAttached s \<or> e = SinkDetached s")
  case True
  then show ?thesis
    using assms by (auto simp: subscribeOutput_def unsubscribeOutput_def view_output_def drained_def)
next
  case False
  then show ?thesis
    using fields_output [OF step_fields, of e] receive_outputs [OF assms] by simp
qed

lemma run_output:
  assumes "drained v"
  shows "view_output (view_run uuid es v) = view_output v @ advance (jv_lastSequence v) (arrivals uuid es v) \<and>
    jv_lastSequence (view_run uuid es v) = highest (jv_lastSequence v) (arrivals uuid es v) \<and> drained (view_run uuid es v)"
  using assms
proof (induction es arbitrary: v)
  case (Cons e es)
  then show ?case
    using step_output [OF Cons.prems, of uuid e] Cons.IH [of "view_step uuid e v"] by (simp add: view_run_def advance_append)
qed (simp add: view_run_def)

lemma update_subset: "set (AList.update k c m) \<subseteq> insert (k, c) (set m)"
  by (induction m) auto

lemma uniqueSortedChunks_strict:
  "strict_sorted_by oc_sequence (uniqueSortedChunks chunks)"
  "oc_sequence ` set (uniqueSortedChunks chunks) = oc_sequence ` set chunks"
proof -
  let ?m = "\<lambda>m. fold (\<lambda>c m. AList.update (oc_sequence c) c m) chunks m"
  have inv: "distinct (map fst (?m m)) \<and> (\<forall>p \<in> set (?m m). fst p = oc_sequence (snd p)) \<and>
      fst ` set (?m m) = fst ` set m \<union> oc_sequence ` set chunks"
    if "distinct (map fst m)" "\<forall>p \<in> set m. fst p = oc_sequence (snd p)" for m
    using that
  proof (induction chunks arbitrary: m)
    case (Cons c chunks)
    have "\<forall>p \<in> set (AList.update (oc_sequence c) c m). fst p = oc_sequence (snd p)"
      using update_subset [of "oc_sequence c" c m] Cons.prems(2) by auto
    note IH = Cons.IH [OF distinct_update [OF Cons.prems(1)] this]
    have sets: "fst ` set (AList.update (oc_sequence c) c m) \<union> oc_sequence ` set chunks = fst ` set m \<union> oc_sequence ` set (c # chunks)"
      unfolding dom_update by auto
    show ?case
      using IH unfolding sets fold_simps(2) .
  qed simp
  note start = inv [of "[]", unfolded list.set(1) list.map(1) ball_empty image_empty Un_empty_left,
    OF distinct.simps(1) [THEN iffD2, OF TrueI] TrueI]
  note m = start [THEN conjunct1] start [THEN conjunct2, THEN conjunct1] start [THEN conjunct2, THEN conjunct2]
  from m(2) have "map fst (?m []) = map oc_sequence (map snd (?m []))"
    by simp
  with m show "strict_sorted_by oc_sequence (uniqueSortedChunks chunks)"
    unfolding uniqueSortedChunks_def by (metis strict_sorted_by_sort_key)
  show "oc_sequence ` set (uniqueSortedChunks chunks) = oc_sequence ` set chunks"
    using m(2,3) by (auto simp: uniqueSortedChunks_def image_image)
qed

lemma advance_above: "\<forall>c \<in> set xs. oc_sequence c \<le> n \<Longrightarrow> strict_sorted_by oc_sequence xs \<Longrightarrow> strict_sorted_by oc_sequence (xs @ advance n cs)"
  using advance_sorted [of n cs] by (fastforce simp: strict_sorted_by_append)

lemma useJobSocket_start:
  "output_fields (useJobSocket j st code initial enabled onLine seed) =
    ([], [], highest (- 1) (uniqueSortedChunks initial), None, j)"
  by (simp add: useJobSocket_def run_effect_def Let_def) (simp add: output_fields_def)

text \<open>
  C4. The terminal shows every chunk once and in order. Through any sequence of connections, messages,
  reconnections, network changes, status changes and terminals that attach and detach, the output handed
  out, after the output the page loaded, has strictly increasing sequences, and it is exactly the
  arriving chunks that go beyond everything before them: when chunks arrive in order, whatever is
  replayed twice, none is missing. While a terminal is attached nothing is held back.
\<close>

theorem view_output_once:
  assumes v0_def: "v0 = useJobSocket j st code initial enabled onLine seed" and v_def: "v = view_run uuid es v0"
  shows "strict_sorted_by oc_sequence (uniqueSortedChunks initial @ view_output v) \<and>
    oc_sequence ` set (uniqueSortedChunks initial) = oc_sequence ` set initial \<and>
    view_output v = advance (highest (- 1) initial) (arrivals uuid es v0) \<and>
    (strict_sorted_by oc_sequence (uniqueSortedChunks initial @ arrivals uuid es v0) \<and> (\<forall>c \<in> set (arrivals uuid es v0). 0 \<le> oc_sequence c) \<longrightarrow>
      view_output v = arrivals uuid es v0) \<and>
    (jv_outputSink v \<noteq> None \<longrightarrow> jv_shown v = view_output v)"
proof -
  let ?s = "uniqueSortedChunks initial" and ?a = "arrivals uuid es v0"
  have v0: "view_output v0 = []" "jv_lastSequence v0 = highest (- 1) ?s" "drained v0"
    using useJobSocket_start [of j st code initial enabled onLine seed]
    by (simp_all add: v0_def output_fields_def view_output_def drained_def)
  have same: "highest (- 1) ?s = highest (- 1) initial"
  proof -
    have "highest n cs = Max (insert n (oc_sequence ` set cs))" for n and cs :: "out_chunk list"
    proof (induction cs arbitrary: n)
      case (Cons c cs)
      have "Max (insert (max n (oc_sequence c)) (oc_sequence ` set cs)) = Max (insert n (insert (oc_sequence c) (oc_sequence ` set cs)))"
        by (cases "set cs = {}") (simp_all add: max.assoc)
      then show ?case
        using Cons.IH by simp
    qed simp
    then show ?thesis
      by (simp add: uniqueSortedChunks_strict)
  qed
  have out: "view_output v = advance (highest (- 1) ?s) ?a" "drained v"
    using run_output [OF v0(3), of uuid es] by (simp_all add: v_def v0)
  have "strict_sorted_by oc_sequence (?s @ view_output v)"
    unfolding out(1) using highest_ge by (blast intro: advance_above uniqueSortedChunks_strict(1))
  moreover have "view_output v = ?a" if "strict_sorted_by oc_sequence (?s @ ?a)" "\<forall>c \<in> set ?a. 0 \<le> oc_sequence c"
  proof -
    have "highest n cs < m" if "n < m" "\<forall>c \<in> set cs. oc_sequence c < m" for n m and cs :: "out_chunk list"
      using that by (induction cs arbitrary: n) auto
    then have "\<forall>c \<in> set ?a. highest (- 1) ?s < oc_sequence c"
      using that by (fastforce simp: strict_sorted_by_append)
    then show ?thesis
      using that unfolding out(1) by (intro advance_all) (auto simp: strict_sorted_by_append)
  qed
  moreover have "jv_outputSink v \<noteq> None \<longrightarrow> jv_shown v = view_output v"
    using out(2) by (simp add: drained_def view_output_def)
  ultimately show ?thesis
    using uniqueSortedChunks_strict(2) [of initial] out(1) same by metis
qed

definition example_chunk :: "int \<Rightarrow> out_chunk" where
  "example_chunk n = \<lparr>oc_sequence = n, oc_stream = Stdout, oc_data = ''x''\<rparr>"

definition example_view :: "int \<Rightarrow> job_view" where
  "example_view seed = useJobSocket ''j'' Running None [example_chunk 4] True True seed"

definition wire_event :: "nat \<Rightarrow> server_to_client \<Rightarrow> view_event" where
  "wire_event i m = SocketMessage i (Some (createMessage ''id'' 5 (client_message m)))"

theorem view_output_once_witness:
  "jv_shown (view_run (\<lambda>_. True) [SinkAttached 0, SocketOpened 0, wire_event 0 (ClientJobOutput ''j'' (example_chunk 5)),
      SocketClosed 0 True 0, ReconnectTimer True, SocketOpened 1, wire_event 1 (ClientJobOutput ''j'' (example_chunk 6))] (example_view 0)) =
    [example_chunk 5, example_chunk 6]"
proof -
  let ?es = "[SinkAttached 0, SocketOpened 0, wire_event 0 (ClientJobOutput ''j'' (example_chunk 5)),
      SocketClosed 0 True 0, ReconnectTimer True, SocketOpened 1, wire_event 1 (ClientJobOutput ''j'' (example_chunk 6))]"
  have sink: "jv_outputSink (view_run (\<lambda>_. True) ?es (example_view 0)) \<noteq> None"
    by code_simp
  have arrived: "arrivals (\<lambda>_. True) ?es (example_view 0) = [example_chunk 5, example_chunk 6]"
    by code_simp
  have initial: "uniqueSortedChunks [example_chunk 4] = [example_chunk 4]"
    by code_simp
  have order: "strict_sorted_by oc_sequence (uniqueSortedChunks [example_chunk 4] @ [example_chunk 5, example_chunk 6])"
    "\<forall>c \<in> set [example_chunk 5, example_chunk 6]. 0 \<le> oc_sequence c"
    unfolding initial by (simp_all add: example_chunk_def)
  note once = view_output_once [OF example_view_def [of 0] refl, of "\<lambda>_. True" ?es, unfolded arrived]
  have "view_output (view_run (\<lambda>_. True) ?es (example_view 0)) = [example_chunk 5, example_chunk 6]"
    using once order by blast
  moreover have "jv_shown (view_run (\<lambda>_. True) ?es (example_view 0)) = view_output (view_run (\<lambda>_. True) ?es (example_view 0))"
    using once sink by blast
  ultimately show ?thesis by (rule trans [rotated])
qed

subsection \<open>The hot path\<close>

lemma stream_read: "outputStreamSchema (Some (JStr (stream_name s))) = Some s"
  by (cases s) (simp_all add: outputStreamSchema_def zs_named_def)

lemma bind_SomeE: "Option.bind x f = Some y \<Longrightarrow> (\<And>z. x = Some z \<Longrightarrow> f z = Some y \<Longrightarrow> P) \<Longrightarrow> P"
  by (cases x) auto

text \<open>
  C22. The shortcut for output changes nothing. \<open>onmessage\<close> reads a \<open>job.output\<close> message without the schema;
  whatever message the schema accepts, output or not, is handled exactly as the message the schema reads.
\<close>

theorem hot_path_agrees:
  assumes "serverToClientMessageSchema uuid (Some raw) = Some m"
  shows "onmessage uuid i (Some raw) v = (if disposed i v then v else receive i m v)"
proof (cases "asJobOutput raw")
  case (Some jc)
  obtain j c where jc: "jc = (j, c)"
    by fastforce
  from Some obtain ps payload where raw: "raw = JObj ps" "map_of ps ''type'' = Some (JStr ''job.output'')"
    "map_of ps ''payload'' = Some (JObj payload)" "map_of payload ''jobId'' = Some (JStr j)"
    "map_of payload ''sequence'' = Some (JNum (oc_sequence c))" "map_of payload ''stream'' = Some (JStr (stream_name (oc_stream c)))"
    "map_of payload ''data'' = Some (JStr (oc_data c))"
    by (auto simp: asJobOutput_def jc split: json.splits option.splits if_splits)
  from assms have "m = ClientJobOutput j c"
    by (auto simp: raw serverToClientMessageSchema_def discriminatedUnion_def envelope_schema_def payload_defs chunk_schema_def
        stream_read split: if_splits option.splits elim!: bind_SomeE)
  then show ?thesis
    using Some by (simp add: onmessage_def jc)
qed (simp add: onmessage_def assms)

theorem hot_path_agrees_witness:
  "onmessage (\<lambda>_. True) 0 (Some (createMessage ''id'' 5 (client_message (ClientJobOutput ''j'' (example_chunk 5))))) (example_view 0) =
    receive 0 (ClientJobOutput ''j'' (example_chunk 5)) (example_view 0)"
proof -
  have "serverToClientMessageSchema (\<lambda>_. True) (Some (createMessage ''id'' 5 (client_message (ClientJobOutput ''j'' (example_chunk 5))))) =
      Some (ClientJobOutput ''j'' (example_chunk 5))"
    by (subst client_round_trip) (simp_all add: valid_chunk_def z_string_def example_chunk_def MAX_OUTPUT_CHUNK_BYTES_def)
  moreover have "\<not> disposed 0 (example_view 0)"
    by code_simp
  ultimately show ?thesis
    using hot_path_agrees [of "\<lambda>_. True"] by simp
qed

subsection \<open>Catching up\<close>

text \<open>What the server answers to a subscription (\<open>handle_subscribe\<close>): the page, then the status.\<close>

definition subscription_answer :: "ident \<Rightarrow> job_status \<Rightarrow> int option \<Rightarrow> 'a out_chunk_scheme list \<Rightarrow> server_to_client list" where
  "subscription_answer j status code chunks =
     map (\<lambda>c. ClientJobOutput j (out_chunk.truncate c)) chunks @ [ClientJobStatus j status (Some code)]"

text \<open>
  The dialog on one socket: the answer to the subscription after \<open>cursor\<close>, and as long as the hook
  reacts with another subscription, the answer to that one.
\<close>

fun converse :: "(int \<Rightarrow> server_to_client list) \<Rightarrow> nat \<Rightarrow> nat \<Rightarrow> int \<Rightarrow> job_view \<Rightarrow> job_view" where
  "converse answer i 0 cursor v = v"
| "converse answer i (Suc n) cursor v =
     (let v' = fold (receive i) (answer cursor) v
      in case drop (length (vs_sent (jv_sockets v ! i))) (vs_sent (jv_sockets v' ! i)) of
           [JobSubscribe j after] \<Rightarrow> converse answer i n after v'
         | _ \<Rightarrow> v')"

lemma receive_output_frame [simp]:
  "jv_sockets (receive_output c v) = jv_sockets v" "jv_jobId (receive_output c v) = jv_jobId v"
  "jv_awaitingReplay (receive_output c v) = jv_awaitingReplay v"
  by (simp_all add: receive_output_def emitOutput_def Let_def split: option.split)

lemma receive_outputs_frame [simp]:
  "jv_sockets (fold receive_output cs v) = jv_sockets v" "jv_jobId (fold receive_output cs v) = jv_jobId v"
  "jv_awaitingReplay (fold receive_output cs v) = jv_awaitingReplay v"
  by (induction cs arbitrary: v) simp_all

lemma receive_output_messages:
  "fold (receive i) (map (ClientJobOutput (jv_jobId v)) cs) v = fold receive_output cs v"
  by (induction cs arbitrary: v) (simp_all, metis receive_output_frame(2))

lemma receive_outputs_count:
  assumes "jv_awaitingReplay v" and "strict_sorted_by oc_sequence cs" and "\<forall>c \<in> set cs. jv_lastSequence v < oc_sequence c"
  shows "jv_replayBatchCount (fold receive_output cs v) = jv_replayBatchCount v + length cs"
  using assms
proof (induction cs arbitrary: v)
  case (Cons c cs)
  have "jv_lastSequence (receive_output c v) = oc_sequence c"
    "jv_replayBatchCount (receive_output c v) = Suc (jv_replayBatchCount v)"
    using Cons.prems by (simp_all add: receive_output_def emitOutput_def Let_def split: option.split)
  then show ?case
    using Cons by simp
qed simp

lemma truncate_sequence [simp]: "oc_sequence (out_chunk.truncate c) = oc_sequence c"
  by (simp add: out_chunk.truncate_def)

lemma highest_sorted:
  "strict_sorted_by oc_sequence cs \<Longrightarrow> \<forall>c \<in> set cs. n < oc_sequence c \<Longrightarrow>
    highest n cs = (if cs = [] then n else oc_sequence (last cs))"
  by (induction cs arbitrary: n) (auto simp: max_def)

text \<open>One answer of a page whose chunks are new, received while the replay is awaited.\<close>

lemma receive_answer:
  assumes "view_open i v" "drained v" "jv_awaitingReplay v" "jv_replayBatchCount v = 0"
    and cs: "strict_sorted_by oc_sequence cs" "\<forall>c \<in> set cs. jv_lastSequence v < oc_sequence c"
    and v': "v' = fold (receive i) (subscription_answer (jv_jobId v) status code cs) v"
  shows "view_output v' = view_output v @ map out_chunk.truncate cs \<and> drained v' \<and> jv_jobId v' = jv_jobId v \<and>
    jv_lastSequence v' = (if cs = [] then jv_lastSequence v else oc_sequence (last cs)) \<and>
    (if 1000 \<le> length cs
     then view_open i v' \<and> jv_awaitingReplay v' \<and> jv_replayBatchCount v' = 0 \<and>
       vs_sent (jv_sockets v' ! i) = vs_sent (jv_sockets v ! i) @ [JobSubscribe (jv_jobId v) (jv_lastSequence v')]
     else \<not> jv_awaitingReplay v' \<and> (\<forall>j after. drop (length (vs_sent (jv_sockets v ! i))) (vs_sent (jv_sockets v' ! i)) \<noteq> [JobSubscribe j after]))"
proof -
  let ?cs = "map out_chunk.truncate cs" and ?u = "fold receive_output (map out_chunk.truncate cs) v"
  have t: "strict_sorted_by oc_sequence ?cs" "\<forall>c \<in> set ?cs. jv_lastSequence v < oc_sequence c"
    using cs by (simp_all add: strict_sorted_by_def comp_def)
  have "map (\<lambda>c. ClientJobOutput (jv_jobId v) (out_chunk.truncate c)) cs = map (ClientJobOutput (jv_jobId v)) ?cs"
    by simp
  then have v'': "v' = receive_status i status (Some code) ?u"
    unfolding v' subscription_answer_def by (simp add: receive_output_messages del: map_map)
  have u: "view_output ?u = view_output v @ ?cs" "drained ?u"
    "jv_lastSequence ?u = (if cs = [] then jv_lastSequence v else oc_sequence (last cs))"
    "jv_replayBatchCount ?u = length cs"
    using receive_outputs [OF assms(2), of ?cs] receive_outputs_count [OF assms(3) t] advance_all [OF t] highest_sorted [OF t] assms(4)
    by (simp_all add: last_map)
  have out: "view_output v' = view_output ?u" "jv_lastSequence v' = jv_lastSequence ?u" "drained v' = drained ?u"
    using fields_output [of v' ?u] receive_fields [of i "ClientJobStatus (jv_jobId v) status (Some code)" ?u] by (simp_all add: v'')
  have id: "jv_jobId v' = jv_jobId v"
    using receive_fields [of i "ClientJobStatus (jv_jobId v) status (Some code)" ?u] by (simp add: v'' output_fields_def)
  have "view_open i ?u"
    using assms(1) by (simp add: view_open_def)
  then show ?thesis
    using out u id assms(3)
    by (auto simp: v'' receive_status_def Let_def view_open_def socket_op_defs on_socket_def closeFinishedSocket_def)
qed

context strict_source begin

lemma converse_catches_up:
  assumes "ok d" "view_open i v" "drained v" "jv_awaitingReplay v" "jv_replayBatchCount v = 0"
    and "length (stream d (jv_lastSequence v)) div 1000 < n"
  shows "view_output (converse (\<lambda>cursor. subscription_answer (jv_jobId v) status code (page d cursor)) i n (jv_lastSequence v) v) =
      view_output v @ map out_chunk.truncate (stream d (jv_lastSequence v)) \<and>
    \<not> jv_awaitingReplay (converse (\<lambda>cursor. subscription_answer (jv_jobId v) status code (page d cursor)) i n (jv_lastSequence v) v)"
  using assms(2-)
proof (induction n arbitrary: v)
  case (Suc n)
  let ?l = "jv_lastSequence v" and ?a = "\<lambda>cursor. subscription_answer (jv_jobId v) status code (page d cursor)"
  let ?v' = "fold (receive i) (?a ?l) v"
  obtain rest where rest: "stream d ?l = page d ?l @ rest"
    using page_prefix by blast
  have "strict_sorted_by oc_sequence (page d ?l)" "\<forall>c \<in> set (page d ?l). ?l < oc_sequence c"
    using stream_strict [OF assms(1), of ?l] stream_beyond [of _ d ?l] by (auto simp: rest strict_sorted_by_def sorted_wrt_append)
  note step = receive_answer [OF Suc.prems(1-4) this refl, of status code]
  from page_cases [OF assms(1), of ?l] show ?case
  proof
    assume whole: "length (page d ?l) < 1000 \<and> page d ?l = stream d ?l"
    then have "\<not> 1000 \<le> length (page d ?l)"
      by linarith
    with step have final: "view_output ?v' = view_output v @ map out_chunk.truncate (page d ?l)" "\<not> jv_awaitingReplay ?v'"
      "\<forall>j after. drop (length (vs_sent (jv_sockets v ! i))) (vs_sent (jv_sockets ?v' ! i)) \<noteq> [JobSubscribe j after]"
      by simp_all
    from final(3) have "converse ?a i (Suc n) ?l v = ?v'"
      by (auto simp: Let_def split: list.split client_to_server.split)
    moreover have "page d ?l = stream d ?l"
      using whole by blast
    ultimately show ?thesis
      using final(1,2) by metis
  next
    let ?more = "stream d (oc_sequence (last (page d ?l)))"
    assume full: "1000 \<le> length (page d ?l) \<and> ?l < oc_sequence (last (page d ?l)) \<and> stream d ?l = page d ?l @ ?more"
    then have v': "jv_lastSequence ?v' = oc_sequence (last (page d ?l))" "jv_jobId ?v' = jv_jobId v"
      and ready: "view_open i ?v'" "drained ?v'" "jv_awaitingReplay ?v'" "jv_replayBatchCount ?v' = 0"
      and sent: "vs_sent (jv_sockets ?v' ! i) = vs_sent (jv_sockets v ! i) @ [JobSubscribe (jv_jobId v) (jv_lastSequence ?v')]"
      using step by (auto split: if_splits)
    have "length (stream d ?l) = length (page d ?l) + length ?more"
      using full by (metis length_append)
    then have "length (stream d (jv_lastSequence ?v')) div 1000 < n"
      using Suc.prems(5) full unfolding v' by linarith
    from Suc.IH [OF ready this] have "view_output (converse ?a i n (jv_lastSequence ?v') ?v') = view_output ?v' @ map out_chunk.truncate ?more \<and>
        \<not> jv_awaitingReplay (converse ?a i n (jv_lastSequence ?v') ?v')"
      by (simp add: v')
    moreover have "view_output ?v' @ map out_chunk.truncate ?more = view_output v @ map out_chunk.truncate (stream d ?l)"
      using step full by (metis append.assoc map_append)
    moreover have "converse ?a i (Suc n) ?l v = converse ?a i n (jv_lastSequence ?v') ?v'"
      by (simp add: Let_def sent)
    ultimately show ?thesis by simp
  qed
qed simp

end


definition opened_view :: "out_chunk list \<Rightarrow> job_view" where
  "opened_view initial = view_run (\<lambda>_. True) [SinkAttached 0, SocketOpened 0] (useJobSocket ''j'' Running None initial True True 0)"

lemma opened_view_fields:
  "jv_jobId (opened_view []) = ''j''" "view_open 0 (opened_view [])" "drained (opened_view [])" "jv_awaitingReplay (opened_view [])"
  "jv_replayBatchCount (opened_view []) = 0" "jv_lastSequence (opened_view []) = - 1" "view_output (opened_view []) = []"
  unfolding view_output_def by code_simp+


text \<open>
  A live chunk cuts the replay short. When a page of the replay is full, more is stored behind it,
  and a live chunk, broadcast while the server replayed, follows the status, the hook has asked for the
  rest and then shows the live chunk; from then on it drops every chunk of the rest, whatever is
  sent later: that stretch of the output is never shown.
\<close>

theorem live_chunk_cuts_replay:
  assumes ok: "strictly_ok u (jv_jobId v) d" and v: "view_open i v" "drained v" "jv_awaitingReplay v" "jv_replayBatchCount v = 0"
    and shown: "\<forall>c \<in> set (view_output v). oc_sequence c \<le> jv_lastSequence v"
    and page: "page = output_page u (jv_jobId v) d (jv_lastSequence v)" "1000 \<le> length page"
    and live: "\<forall>c \<in> set (whole_output u (jv_jobId v) d (jv_lastSequence v)). oc_sequence c < oc_sequence x"
    and missing: "c \<in> set (whole_output u (jv_jobId v) d (oc_sequence (last page)))"
    and v': "v' = fold (receive i) (subscription_answer (jv_jobId v) status code page @ [ClientJobOutput (jv_jobId v) x]) v"
  shows "vs_sent (jv_sockets v' ! i) = vs_sent (jv_sockets v ! i) @ [JobSubscribe (jv_jobId v) (oc_sequence (last page))] \<and>
    x \<in> set (view_output v') \<and> oc_sequence c \<notin> oc_sequence ` set (view_output (view_run uuid es v'))"
proof -
  let ?l = "jv_lastSequence v" and ?v1 = "fold (receive i) (subscription_answer (jv_jobId v) status code page) v"
  have whole: "whole_output u (jv_jobId v) d ?l = page @ whole_output u (jv_jobId v) d (oc_sequence (last page))"
    using strictly.page_cases [OF ok, of ?l] page by simp
  have "strict_sorted_by oc_sequence page" and page_above: "\<forall>c \<in> set page. ?l < oc_sequence c"
    using strictly.stream_strict [OF ok, of ?l] strictly.stream_beyond [of _ u "jv_jobId v" d ?l]
    by (auto simp: whole strict_sorted_by_def sorted_wrt_append)
  from receive_answer [OF v this refl, of status code] page(2)
  have v1: "view_output ?v1 = view_output v @ map out_chunk.truncate page" "drained ?v1" "jv_jobId ?v1 = jv_jobId v"
    "jv_lastSequence ?v1 = oc_sequence (last page)"
    "vs_sent (jv_sockets ?v1 ! i) = vs_sent (jv_sockets v ! i) @ [JobSubscribe (jv_jobId v) (oc_sequence (last page))]"
    by (auto split: if_splits)
  have c: "oc_sequence (last page) < oc_sequence c"
    using strictly.stream_beyond [OF missing] .
  moreover have "oc_sequence c < oc_sequence x"
    using live missing by (simp add: whole)
  ultimately have x: "jv_lastSequence ?v1 < oc_sequence x"
    by (simp add: v1)
  have v'': "v' = receive_output x ?v1"
    by (simp add: v' v1(3))
  have out: "view_output v' = view_output v @ map out_chunk.truncate page @ [x]" "jv_lastSequence v' = oc_sequence x" "drained v'"
    using receive_one [OF v1(2), of x] x by (simp_all add: v'' v1)
  have page_below: "oc_sequence p \<le> oc_sequence (last page)" if "p \<in> set page" for p
    using \<open>strict_sorted_by oc_sequence page\<close> that by (rule strict_sorted_le_last)
  have "?l < oc_sequence (last page)"
    using page_above page(2) by (metis last_in_set list.size(3) not_numeral_le_zero)
  then have "n < oc_sequence c" if "n \<in> oc_sequence ` set (view_output v) \<union> oc_sequence ` set page" for n
    using that shown page_below c by fastforce
  moreover have "oc_sequence c < oc_sequence q" if "q \<in> set (advance (oc_sequence x) cs)" for q cs
    using advance_sorted [of "oc_sequence x" cs] that \<open>oc_sequence c < oc_sequence x\<close> by fastforce
  ultimately have "oc_sequence c \<notin> oc_sequence ` set (view_output (view_run uuid es v'))"
    using run_output [OF out(3), of uuid es] \<open>oc_sequence c < oc_sequence x\<close> by (fastforce simp: out)
  then show ?thesis
    using out v1(5) by (simp add: v'')
qed

definition long_row :: "nat \<Rightarrow> chunk" where
  "long_row n = \<lparr>ch_id = n, ch_jobId = ''j'', ch_sequence = int n, ch_stream = Stdout, ch_data = ''x'', ch_byteLength = 1, ch_timestamp = 0\<rparr>"

definition long_db :: db where
  "long_db = empty_db\<lparr>db_jobs := [example_job ''j'' ''u'' ''d'' Running], db_chunks := map long_row [0..<1002], db_nextId := 1002\<rparr>"

lemma long_db_rows: "stored_beyond ''j'' long_db (int n - 1) = map long_row [n..<1002]"
proof -
  have sorted: "strict_sorted_by ch_sequence (map long_row [k..<l])" for k l
    by (simp add: strict_sorted_by_def long_row_def comp_def sorted_wrt_map)
  have "chunks_of ''j'' (db_chunks long_db) = map long_row [0..<1002]"
    by (simp add: chunks_of_def long_db_def long_row_def filter_id_conv)
  then have "sort_key ch_sequence (chunks_of ''j'' (db_chunks long_db)) = map long_row [0..<1002]"
    using sorted [of 0 1002] strict_sorted_by_distinct [OF sorted [of 0 1002]]
    by (intro strict_sorted_by_unique [of ch_sequence] strict_sorted_by_sort_key) simp_all
  moreover have "filter (\<lambda>c. int n - 1 < ch_sequence c) (map long_row [0..<1002]) = map long_row [n..<1002]"
    using sorted [of 0 1002] sorted [of n 1002]
    by (intro strict_sorted_by_unique [of ch_sequence] strict_sorted_by_filter) (auto simp: long_row_def image_iff)
  ultimately show ?thesis by simp
qed

theorem live_chunk_cuts_replay_witness:
  "let page = output_page ''u'' ''j'' long_db (- 1);
       v' = fold (receive 0) (subscription_answer ''j'' Running None page @ [ClientJobOutput ''j'' (example_chunk 2000)]) (opened_view [])
   in \<forall>es. 1001 \<notin> oc_sequence ` set (view_output (view_run (\<lambda>_. True) es v'))"
proof -
  have job: "findUserJob ''u'' ''j'' long_db = Some (example_job ''j'' ''u'' ''d'' Running)"
    "notice_part (example_job ''j'' ''u'' ''d'' Running) long_db cursor = []" for cursor
    by (simp_all add: findUserJob_def long_db_def example_job_def notice_part_cases)
  have ok: "strictly_ok ''u'' (jv_jobId (opened_view [])) long_db"
    using job by (auto simp: opened_view_fields strictly_ok_def stored_ok_def chunks_keyed_def distinct_map inj_on_def long_db_def long_row_def example_job_def)
  have page: "output_page ''u'' ''j'' long_db (- 1) = map serializeOutputChunk (map long_row [0..<1000])"
    using long_db_rows [of 0] by (simp add: output_page_parts job take_map)
  have whole: "whole_output ''u'' ''j'' long_db (- 1) = map serializeOutputChunk (map long_row [0..<1002])"
    using long_db_rows [of 0] by (simp add: whole_output_parts job)
  have last: "oc_sequence (last (output_page ''u'' ''j'' long_db (- 1))) = 999"
    by (simp add: page last_map long_row_def)
  have rest: "whole_output ''u'' ''j'' long_db 999 = map serializeOutputChunk (map long_row [1000..<1002])"
    using long_db_rows [of 1000] by (simp add: whole_output_parts job)
  let ?page = "output_page ''u'' ''j'' long_db (- 1)" and ?c = "serializeOutputChunk (long_row 1001)"
  have missing: "?c \<in> set (whole_output ''u'' ''j'' long_db (oc_sequence (last ?page)))"
    unfolding last rest by simp
  have full: "1000 \<le> length ?page"
    by (simp add: page)
  have live: "\<forall>c \<in> set (whole_output ''u'' ''j'' long_db (- 1)). oc_sequence c < oc_sequence (example_chunk 2000)"
    by (auto simp: whole long_row_def example_chunk_def)
  have shown: "\<forall>c \<in> set (view_output (opened_view [])). oc_sequence c \<le> jv_lastSequence (opened_view [])"
    by (simp add: opened_view_fields)
  have c: "oc_sequence ?c = 1001"
    by (simp add: long_row_def)
  note cut = live_chunk_cuts_replay [OF ok opened_view_fields(2-5) shown refl, unfolded opened_view_fields(1,6), OF full live missing refl,
    of Running None "\<lambda>_. True", unfolded c]
  then show ?thesis
    unfolding Let_def by blast
qed

subsection \<open>Losing and regaining the connection\<close>

lemma reconnect_delay_bounds:
  assumes "0 \<le> r" and "r < 1"
  shows "min 15000 (500 * 2 ^ n) \<le> reconnect_delay n r" and "reconnect_delay n r \<le> 16000"
proof -
  let ?b = "min 15000 (500 * 2 ^ n) :: int" and ?m = "min (of_int (min 15000 (500 * 2 ^ n)) / 4) 1000 :: rat"
  have "0 \<le> ?m" "?m \<le> 1000"
    by simp_all
  then have "0 \<le> r * ?m" "r * ?m \<le> 1000"
    using assms mult_left_le_one_le [of ?m r] by auto
  then have "0 \<le> \<lfloor>r * ?m + 1 / 2\<rfloor>" "\<lfloor>r * ?m + 1 / 2\<rfloor> \<le> 1000"
    by linarith+
  moreover have "reconnect_delay n r = ?b + \<lfloor>r * ?m + 1 / 2\<rfloor>" "?b \<le> 15000"
    by (simp_all add: reconnect_delay_def Let_def)
  ultimately show "?b \<le> reconnect_delay n r" and "reconnect_delay n r \<le> 16000"
    by linarith+
qed

text \<open>
  A lost connection is retried and resumes. When the socket of a running view closes while the
  browser is online, a timer is armed whose delay doubles with every failed attempt, from half a
  second to at most 16 seconds; when it fires there is a new socket, and once that one opens the hook
  subscribes from exactly the last sequence it has shown, with the terminal's last size, and the delays
  start over.
\<close>

theorem lost_connection_retried:
  assumes closing: "i < length (jv_sockets v)" "vs_readyState (jv_sockets v ! i) \<noteq> 3" "\<not> disposed i v"
    and running: "\<not> jv_terminal v" "jv_enabled v" and r: "0 \<le> r" "r < 1"
    and v1: "v1 = view_step uuid (SocketClosed i True r) v" and v2: "v2 = view_step uuid (ReconnectTimer True) v1"
    and v3: "v3 = view_step uuid (SocketOpened (length (jv_sockets v))) v2"
  shows "(\<exists>delay. jv_reconnectTimer v1 = Some delay \<and> min 15000 (500 * 2 ^ jv_reconnectAttempt v) \<le> delay \<and> delay \<le> 16000) \<and>
    jv_reconnectAttempt v1 = Suc (jv_reconnectAttempt v) \<and> jv_socketRef v2 = Some (length (jv_sockets v)) \<and>
    vs_sent (jv_sockets v3 ! length (jv_sockets v)) =
      JobSubscribe (jv_jobId v) (jv_lastSequence v) #
      (case jv_latestSize v of None \<Rightarrow> [] | Some (columns, rows) \<Rightarrow> [ClientJobResize (jv_jobId v) columns rows]) \<and>
    jv_connection v3 = ConnConnected \<and> jv_reconnectAttempt v3 = 0 \<and> view_output v3 = view_output v"
proof -
  let ?c = "(if jv_socketRef v = Some i then v\<lparr>jv_socketRef := None\<rparr> else v)"
  have d: "\<not> jv_disposed v" "vs_effect (jv_sockets v ! i) = jv_effect v"
    using closing(3) by (simp_all add: disposed_def)
  have e1: "v1 = (on_socket i (\<lambda>s. s\<lparr>vs_readyState := 3\<rparr>) ?c)\<lparr>jv_connection := ConnReconnecting,
      jv_reconnectAttempt := Suc (jv_reconnectAttempt v), jv_reconnectTimer := Some (reconnect_delay (jv_reconnectAttempt v) r)\<rparr>"
    using closing running d by (simp add: v1 onclose_def scheduleReconnect_def disposed_def on_socket_def Let_def)
  show ?thesis
    using reconnect_delay_bounds [OF r, of "jv_reconnectAttempt v"] closing(1) running d
    by (auto simp: v3 v2 e1 connect_def onopen_def disposed_def socket_send_def on_socket_def view_output_def OPEN_STATE_def nth_append
        split: option.split prod.split)
qed

theorem lost_connection_retried_witness:
  "vs_sent (jv_sockets (view_run (\<lambda>_. True) [SocketClosed 0 True (1 / 2), ReconnectTimer True, SocketOpened 1] (opened_view [])) ! 1) =
    [JobSubscribe ''j'' (- 1)]"
proof -
  have v: "length (jv_sockets (opened_view [])) = 1" "vs_readyState (jv_sockets (opened_view []) ! 0) = OPEN_STATE"
    "\<not> disposed 0 (opened_view [])" "\<not> jv_terminal (opened_view [])" "jv_enabled (opened_view [])" "jv_latestSize (opened_view []) = None"
    by code_simp+
  have "0 < length (jv_sockets (opened_view []))" "vs_readyState (jv_sockets (opened_view []) ! 0) \<noteq> 3"
    by (simp_all add: v OPEN_STATE_def)
  note retried = lost_connection_retried [OF this v(3-5) _ _ refl refl refl, of "1 / 2" "\<lambda>_. True", unfolded v(1) v(6) opened_view_fields]
  then show ?thesis
    by (simp add: view_run_def)
qed

text \<open>
  A short network drop can leave a socket behind. The browser goes offline and online again before
  the close event of its socket arrives: the hook connects at once, and the late close event schedules
  one more connection although there is one. When the view is left only the newest socket is closed;
  the other one stays open and subscribed.
\<close>

theorem network_drop_leaks_socket:
  assumes "\<not> finished st"
    and "v = view_run uuid [SocketOpened 0, NetworkOffline, NetworkOnline True, SocketClosed 0 True r, SocketOpened 1, ReconnectTimer True,
      SocketOpened 2, Unmounted] (useJobSocket j st code initial True True seed)"
  shows "jv_disposed v \<and> jv_socketRef v = None \<and> view_open 1 v \<and> \<not> view_open 2 v \<and>
    (\<exists>after. vs_sent (jv_sockets v ! 1) = [JobSubscribe j after])"
  using assms(1)
  by (simp add: assms(2) view_run_def useJobSocket_def run_effect_def connect_def onopen_def onOffline_def onOnline_def onclose_def
      scheduleReconnect_def cleanup_effect_def disposed_def socket_op_defs on_socket_def view_open_def OPEN_STATE_def Let_def)

theorem network_drop_leaks_socket_witness:
  "view_open 1 (view_run (\<lambda>_. True) [SocketOpened 0, NetworkOffline, NetworkOnline True, SocketClosed 0 True 0, SocketOpened 1,
    ReconnectTimer True, SocketOpened 2, Unmounted] (useJobSocket ''j'' Running None [] True True 0))"
proof -
  have "\<not> finished Running"
    by (simp add: finished_def)
  then show ?thesis
    using network_drop_leaks_socket [OF _ refl, of Running "\<lambda>_. True" 0 "''j''" None "[]" 0] by blast
qed

text \<open>
  A late close event marks a live view closed. When the job's status changes the hook replaces its
  socket; the close event of the old socket, when it arrives after the new one opened, sets the
  connection to closed although the new socket is open, current and subscribed, and no later message
  of output corrects it.
\<close>

theorem late_close_shows_closed:
  assumes "\<not> finished st" and "\<not> finished st'"
    and "v = view_run uuid [SocketOpened 0, JobChanged True st' code' True, SocketOpened 1, SocketClosed 0 True r] (useJobSocket j st code initial True True seed)"
  shows "jv_connection v = ConnClosed \<and> jv_socketRef v = Some 1 \<and> view_open 1 v \<and> \<not> jv_terminal v \<and>
    jv_connection (fold receive_output cs v) = ConnClosed"
proof -
  have "jv_connection (fold receive_output cs w) = jv_connection w" for w
    by (induction cs arbitrary: w) (simp_all add: receive_output_def emitOutput_def Let_def split: option.split)
  then show ?thesis
    using assms(1,2)
    by (simp add: assms(3) view_run_def useJobSocket_def run_effect_def connect_def onopen_def onclose_def cleanup_effect_def disposed_def
        socket_op_defs on_socket_def view_open_def OPEN_STATE_def Let_def)
qed

theorem late_close_shows_closed_witness:
  "jv_connection (view_run (\<lambda>_. True) [SocketOpened 0, JobChanged True WaitingForInput None True, SocketOpened 1, SocketClosed 0 True 0]
    (useJobSocket ''j'' Running None [] True True 0)) = ConnClosed"
proof -
  have "\<not> finished Running" "\<not> finished WaitingForInput"
    by (simp_all add: finished_def)
  then show ?thesis
    using late_close_shows_closed [OF _ _ refl, of Running WaitingForInput "\<lambda>_. True" None 0 "''j''" None "[]" 0 "[]"] by blast
qed

end
