(* ===== verification/BrowserLib.thy ===== *)
theory BrowserLib
  imports Complex_Main ApiClient JobStream
begin

section \<open>Helpers of the browser\<close>

text \<open>
  \<open>apps/web/src/lib\<close>: the command that installs an agent, the texts of the pages, and the translation of a
  swipe over the terminal into turns of a mouse wheel, with the touch handlers of \<open>TerminalView.tsx\<close>.
\<close>

subsection \<open>The install command\<close>

abbreviation apostrophe :: char where
  "apostrophe \<equiv> CHR 0x27"

abbreviation backslash :: char where
  "backslash \<equiv> CHR 0x5C"

definition shellQuote :: "string \<Rightarrow> string" where
  "shellQuote value =
     [apostrophe] @ concat (map (\<lambda>c. if c = apostrophe then [apostrophe, backslash, apostrophe, apostrophe] else [c]) value) @ [apostrophe]"

definition buildAgentInstallCommand :: "string \<Rightarrow> string \<Rightarrow> string" where
  "buildAgentInstallCommand origin pairingCode =
     (let serverOrigin = rev (dropWhile (\<lambda>c. c = CHR ''/'') (rev origin));
          installerUrl = serverOrigin @ ''/install-agent.sh''
      in ''curl -fsSL '' @ shellQuote installerUrl @ '' | sh -s -- --server '' @ shellQuote serverOrigin @ '' --code '' @ shellQuote pairingCode)"

text \<open>
  How a POSIX shell splits a line that uses only words, single quotes, backslashes and pipes; \<open>None\<close> for
  a quote that is not closed and for any character with another meaning outside quotes.
\<close>

datatype shell_token = Word string | Pipe

definition end_word :: "string option \<Rightarrow> shell_token list" where
  "end_word w = (case w of None \<Rightarrow> [] | Some s \<Rightarrow> [Word s])"

definition add_char :: "string option \<Rightarrow> char \<Rightarrow> string option" where
  "add_char w c = Some ((case w of None \<Rightarrow> '''' | Some s \<Rightarrow> s) @ [c])"

definition plain_shell_char :: "char \<Rightarrow> bool" where
  "plain_shell_char c \<longleftrightarrow> is_upper_char c \<or> is_lower_char c \<or> is_digit_char c \<or> c \<in> set ''-_./:''"

fun shell_tokens :: "bool \<Rightarrow> string option \<Rightarrow> string \<Rightarrow> shell_token list option" where
  "shell_tokens True w [] = None"
| "shell_tokens True w (c # s) = (if c = apostrophe then shell_tokens False w s else shell_tokens True (add_char w c) s)"
| "shell_tokens False w [] = Some (end_word w)"
| "shell_tokens False w (c # s) =
     (if c = apostrophe then shell_tokens True (Some (case w of None \<Rightarrow> '''' | Some v \<Rightarrow> v)) s
      else if c = backslash then (case s of [] \<Rightarrow> None | d # s' \<Rightarrow> shell_tokens False (add_char w d) s')
      else if c = CHR '' '' then map_option ((@) (end_word w)) (shell_tokens False None s)
      else if c = CHR ''|'' then map_option ((@) (end_word w @ [Pipe])) (shell_tokens False None s)
      else if plain_shell_char c then shell_tokens False (add_char w c) s
      else None)"

lemma shell_quoted_body:
  "shell_tokens True (Some w) (concat (map (\<lambda>c. if c = apostrophe then [apostrophe, backslash, apostrophe, apostrophe] else [c]) v) @ apostrophe # s) =
    shell_tokens False (Some (w @ v)) s"
  by (induction v arbitrary: w) (auto simp: add_char_def)

lemma shell_quoted: "shell_tokens False None (shellQuote v @ s) = shell_tokens False (Some v) s"
  using shell_quoted_body [of "''''" v s] by (simp add: shellQuote_def)

text \<open>
  C39. The command to paste runs what it shows. Whatever the server's origin and the pairing code contain, quotes,
  spaces, dollar signs and semicolons included, a shell reads the install command as these two commands
  with these arguments and nothing else.
\<close>

theorem install_command_words:
  "shell_tokens False None (buildAgentInstallCommand origin code) =
    (let server = rev (dropWhile (\<lambda>c. c = CHR ''/'') (rev origin))
     in Some [Word ''curl'', Word ''-fsSL'', Word (server @ ''/install-agent.sh''), Pipe,
          Word ''sh'', Word ''-s'', Word ''--'', Word ''--server'', Word server, Word ''--code'', Word code])"
proof -
  have plain: "shell_tokens False w (c # s) = shell_tokens False (add_char w c) s" if "plain_shell_char c" for w c s
    using that by (auto simp: plain_shell_char_def is_upper_char_def is_lower_char_def is_digit_char_def)
  have chars: "list_all plain_shell_char ''curl-fsSLshservercode''"
    by code_simp
  have last: "shell_tokens False None (shellQuote v) = Some [Word v]" for v
    using shell_quoted [of v "''''"] by (simp add: end_word_def)
  show ?thesis
    using chars by (simp add: buildAgentInstallCommand_def Let_def plain shell_quoted last add_char_def end_word_def del: shell_tokens.simps(4)
        add: shell_tokens.simps(4) [of _ "CHR '' ''"] shell_tokens.simps(4) [of _ "CHR ''|''"])
qed

subsection \<open>Texts\<close>

text \<open>
  \<open>formatDuration\<close>; times are parsed already, \<open>None\<close> for a missing one. The result is \<open>None\<close> for the dash
  of a job that has not started.
\<close>

definition formatDuration :: "ms \<Rightarrow> ms option \<Rightarrow> ms option \<Rightarrow> string option" where
  "formatDuration now start end_time =
     (case start of
        None \<Rightarrow> None
      | Some startTime \<Rightarrow>
          (let endTime = (case end_time of None \<Rightarrow> now | Some t \<Rightarrow> t);
               seconds = max 0 ((endTime - startTime + 500) div 1000);
               minutes = seconds div 60;
               hours = minutes div 60
           in Some (if seconds < 60 then int_string seconds @ ''s''
                    else if minutes < 60 then int_string minutes @ ''m '' @ int_string (seconds mod 60) @ ''s''
                    else int_string hours @ ''h '' @ int_string (minutes mod 60) @ ''m'')))"

definition isJobActive :: "job_status \<Rightarrow> bool" where
  "isJobActive status \<longleftrightarrow>
     status_name status \<in> set [''queued'', ''dispatched'', ''running'', ''waiting_for_input'', ''disconnected'']"

definition humanizeStatus :: "string \<Rightarrow> string" where
  "humanizeStatus status =
     (case map (\<lambda>c. if c = CHR ''_'' then CHR '' '' else c) status of
        [] \<Rightarrow> []
      | c # s \<Rightarrow> toUpperCase [c] @ s)"

lemma isJobActive_terminal: "isJobActive status \<longleftrightarrow> \<not> isTerminalJobStatus status"
  by (cases status) (simp_all add: isJobActive_def isTerminalJobStatus_def)

subsection \<open>Swipes\<close>

text \<open>
  \<open>wheelStepsFromDrag\<close>, in exact arithmetic; \<open>None\<close> is a number that is not finite.
\<close>

definition MAX_STEPS_PER_MOVE :: int where
  "MAX_STEPS_PER_MOVE = 40"

definition trunc :: "rat \<Rightarrow> int" where
  "trunc x = (if 0 \<le> x then \<lfloor>x\<rfloor> else \<lceil>x\<rceil>)"

definition wheelStepsFromDrag :: "rat option \<Rightarrow> rat option \<Rightarrow> int \<times> rat" where
  "wheelStepsFromDrag upwardPx rowHeightPx =
     (case (upwardPx, rowHeightPx) of
        (Some up, Some row) \<Rightarrow>
          if row \<le> 0 then (0, 0)
          else (let raw = trunc (up / row) in
                if raw = 0 then (0, up)
                else (sgn raw * min \<bar>raw\<bar> MAX_STEPS_PER_MOVE, up - of_int raw * row))
      | _ \<Rightarrow> (0, 0))"

text \<open>The touch handlers: the state, and the turns of the wheel a move causes, one row each, 1 for down.\<close>

record touch_state =
  to_lastTouchY :: "rat option"
  to_carriedPx :: rat

definition emitWheel :: "int \<Rightarrow> int list" where
  "emitWheel steps = replicate (nat \<bar>steps\<bar>) (if steps > 0 then 1 else - 1)"

definition onTouchStart :: "bool \<Rightarrow> bool \<Rightarrow> rat list \<Rightarrow> touch_state \<Rightarrow> touch_state" where
  "onTouchStart shouldDriveTui inputEnabled touches st =
     (case touches of
        [y] \<Rightarrow> if \<not> shouldDriveTui \<or> \<not> inputEnabled then st\<lparr>to_lastTouchY := None\<rparr> else st\<lparr>to_lastTouchY := Some y, to_carriedPx := 0\<rparr>
      | _ \<Rightarrow> st\<lparr>to_lastTouchY := None\<rparr>)"

definition onTouchMove :: "nat \<Rightarrow> nat \<Rightarrow> rat list \<Rightarrow> touch_state \<Rightarrow> int list \<times> touch_state" where
  "onTouchMove clientHeight rows touches st =
     (case (to_lastTouchY st, touches) of
        (Some lastTouchY, [currentY]) \<Rightarrow>
          (let st = st\<lparr>to_carriedPx := to_carriedPx st + (lastTouchY - currentY), to_lastTouchY := Some currentY\<rparr>;
               rowHeightPx = of_nat clientHeight / of_nat (max rows 1)
           in case wheelStepsFromDrag (Some (to_carriedPx st)) (Some rowHeightPx) of
                (steps, remainderPx) \<Rightarrow>
                  if steps \<noteq> 0 then (emitWheel steps, st\<lparr>to_carriedPx := remainderPx\<rparr>) else ([], st))
      | _ \<Rightarrow> ([], st))"

definition endTouch :: "touch_state \<Rightarrow> touch_state" where
  "endTouch st = st\<lparr>to_lastTouchY := None, to_carriedPx := 0\<rparr>"

fun swipe :: "nat \<Rightarrow> nat \<Rightarrow> rat list \<Rightarrow> touch_state \<Rightarrow> int list \<times> touch_state" where
  "swipe height rows [] st = ([], st)"
| "swipe height rows (y # ys) st =
     (case onTouchMove height rows [y] st of (turns, st) \<Rightarrow>
        (case swipe height rows ys st of (later, st) \<Rightarrow> (turns @ later, st)))"

lemma trunc_bounds: "\<bar>x - of_int (trunc x)\<bar> < 1" "\<bar>of_int (trunc x)\<bar> \<le> \<bar>x\<bar>"
proof -
  show "\<bar>x - of_int (trunc x)\<bar> < 1"
    unfolding trunc_def using floor_correct [of x] ceiling_correct [of x] by auto
  have "\<lceil>x\<rceil> \<le> 0" if "x < 0"
    using that by (simp add: ceiling_le_iff)
  then show "\<bar>of_int (trunc x)\<bar> \<le> \<bar>x\<bar>"
    unfolding trunc_def using floor_correct [of x] ceiling_correct [of x] by auto
qed

lemma emitWheel: "sum_list (emitWheel n) = n" "length (emitWheel n) = nat \<bar>n\<bar>" "set (emitWheel n) \<subseteq> {sgn n}"
  by (auto simp: emitWheel_def sum_list_replicate)

lemma wheel_bounds:
  assumes "0 < row" and "wheelStepsFromDrag (Some up) (Some row) = (steps, rest)"
  shows "\<bar>steps\<bar> \<le> 40" "\<bar>rest\<bar> < row" "steps = 0 \<Longrightarrow> rest = up" "\<bar>up\<bar> < 41 * row \<Longrightarrow> of_int steps * row + rest = up"
proof -
  let ?raw = "trunc (up / row)"
  have rest: "rest = up - of_int ?raw * row" "steps = sgn ?raw * min \<bar>?raw\<bar> 40"
    using assms by (auto simp: wheelStepsFromDrag_def Let_def MAX_STEPS_PER_MOVE_def split: if_splits)
  have "\<bar>(up / row - of_int ?raw) * row\<bar> < 1 * row"
    using mult_strict_right_mono [OF trunc_bounds(1) assms(1), of "up / row"] assms(1) by (simp add: abs_mult)
  then show "\<bar>rest\<bar> < row"
    using assms(1) by (simp add: rest left_diff_distrib)
  show "\<bar>steps\<bar> \<le> 40"
    by (simp add: rest abs_mult sgn_if)
  show "steps = 0 \<Longrightarrow> rest = up"
    by (auto simp: rest sgn_if min_def split: if_splits)
  assume "\<bar>up\<bar> < 41 * row"
  then have "\<bar>up / row\<bar> < 41"
    using assms(1) by (simp add: abs_divide field_simps)
  then have "\<bar>of_int ?raw :: rat\<bar> < 41"
    using trunc_bounds(2) [of "up / row"] by linarith
  then have "\<bar>?raw\<bar> \<le> 40"
    by linarith
  then have "steps = ?raw"
    by (auto simp: rest sgn_if abs_if min_def)
  then show "of_int steps * row + rest = up"
    by (simp add: rest)
qed

lemma move_conserves:
  assumes "onTouchMove height rows [y] \<lparr>to_lastTouchY = Some y0, to_carriedPx = carried\<rparr> = (turns, st)" and "0 < height"
  defines "row \<equiv> of_nat height / of_nat (max rows 1)"
  shows "to_lastTouchY st = Some y" "length turns \<le> 40" "\<bar>to_carriedPx st\<bar> < row"
    "\<bar>carried + (y0 - y)\<bar> < 41 * row \<Longrightarrow> of_int (sum_list turns) * row + to_carriedPx st = carried + (y0 - y)"
proof -
  have row: "0 < row"
    using assms(2) by (simp add: row_def)
  obtain steps rest where wheel: "wheelStepsFromDrag (Some (carried + (y0 - y))) (Some row) = (steps, rest)"
    by fastforce
  have move: "turns = emitWheel steps" "st = \<lparr>to_lastTouchY = Some y, to_carriedPx = rest\<rparr>"
    using assms(1) wheel wheel_bounds(3) [OF row wheel] unfolding row_def
    by (auto simp: onTouchMove_def Let_def emitWheel_def split: if_splits)
  show "to_lastTouchY st = Some y" "length turns \<le> 40" "\<bar>to_carriedPx st\<bar> < row"
    using wheel_bounds(1,2) [OF row wheel] by (simp_all add: move emitWheel)
  show "of_int (sum_list turns) * row + to_carriedPx st = carried + (y0 - y)" if "\<bar>carried + (y0 - y)\<bar> < 41 * row"
    using wheel_bounds(4) [OF row wheel that] by (simp add: move emitWheel)
qed

text \<open>The positions of a finger that moves at most 40 rows between two events.\<close>

fun steady :: "rat \<Rightarrow> rat \<Rightarrow> rat list \<Rightarrow> bool" where
  "steady row y0 [] = True"
| "steady row y0 (y # ys) = (\<bar>y0 - y\<bar> \<le> 40 * row \<and> steady row y ys)"

text \<open>
  A swipe loses nothing. For a finger that starts where the terminal takes the swipe and moves at most 40
  rows between two events, the wheel has turned, after any number of moves, by exactly the rows between
  the first position and the last, less a rest smaller than one row that is carried on.
\<close>

theorem swipe_loses_nothing:
  assumes "0 < height" and "steady (of_nat height / of_nat (max rows 1)) y0 ys"
    and "swipe height rows ys (onTouchStart True True [y0] st) = (turns, st')"
  shows "of_int (sum_list turns) * (of_nat height / of_nat (max rows 1)) + to_carriedPx st' = y0 - last (y0 # ys) \<and>
    \<bar>to_carriedPx st'\<bar> < of_nat height / of_nat (max rows 1)"
proof -
  let ?row = "of_nat height / of_nat (max rows 1) :: rat"
  have "swipe height rows ys \<lparr>to_lastTouchY = Some y0, to_carriedPx = carried\<rparr> = (turns, st') \<Longrightarrow> \<bar>carried\<bar> < ?row \<Longrightarrow> steady ?row y0 ys \<Longrightarrow>
      of_int (sum_list turns) * ?row + to_carriedPx st' = carried + (y0 - last (y0 # ys)) \<and> \<bar>to_carriedPx st'\<bar> < ?row" for carried
  proof (induction ys arbitrary: y0 carried turns)
    case (Cons y ys)
    obtain now st1 later where run: "onTouchMove height rows [y] \<lparr>to_lastTouchY = Some y0, to_carriedPx = carried\<rparr> = (now, st1)"
        "swipe height rows ys st1 = (later, st')" "turns = now @ later"
      using Cons.prems(1) by (auto split: prod.splits)
    note moved = move_conserves [OF run(1) assms(1)]
    have "st1 = \<lparr>to_lastTouchY = Some y, to_carriedPx = to_carriedPx st1\<rparr>"
      using moved(1) by simp
    with Cons.IH [of y "to_carriedPx st1" later] run(2) moved(3) Cons.prems(3)
    have rest: "of_int (sum_list later) * ?row + to_carriedPx st' = to_carriedPx st1 + (y - last (y # ys))" "\<bar>to_carriedPx st'\<bar> < ?row"
      by simp_all
    have "\<bar>carried + (y0 - y)\<bar> < 41 * ?row"
      using Cons.prems(2,3) abs_triangle_ineq [of carried "y0 - y"] by (simp only: steady.simps) linarith
    with moved(4) have "of_int (sum_list now) * ?row + to_carriedPx st1 = carried + (y0 - y)"
      by blast
    moreover have "of_int (sum_list turns) * ?row = of_int (sum_list now) * ?row + of_int (sum_list later) * ?row"
      by (simp only: run(3) sum_list_append of_int_add distrib_right)
    ultimately have "of_int (sum_list turns) * ?row + to_carriedPx st' = carried + (y0 - last (y # ys))"
      using rest(1) by linarith
    then show ?case
      using rest(2) by simp
  qed auto
  note moves = this
  have "onTouchStart True True [y0] st = \<lparr>to_lastTouchY = Some y0, to_carriedPx = 0\<rparr>"
    by (simp add: onTouchStart_def)
  then show ?thesis
    using moves [of 0] assms by simp
qed

theorem swipe_loses_nothing_witness:
  "let run = swipe 720 40 [80, 60] (onTouchStart True True [100] \<lparr>to_lastTouchY = None, to_carriedPx = 0\<rparr>)
   in of_int (sum_list (fst run)) * 18 + to_carriedPx (snd run) = 40 \<and> \<bar>to_carriedPx (snd run)\<bar> < 18"
  using swipe_loses_nothing [of 720 40 100 "[80, 60]", OF _ _ surjective_pairing] by (simp add: Let_def)

end
