(* ===== verification/Pages.thy ===== *)
theory Pages
  imports Signin BrowserLib WebPush
begin

section \<open>The pages\<close>

text \<open>
  The logic of \<open>apps/web/src/pages\<close> and \<open>components\<close> between what is drawn: what the forms send, when an action
  or a command runs, what the terminal of a job accepts, the filters of the history, the messages of a failed
  sign-in, and the toggle of notifications.
\<close>

subsection \<open>Forms\<close>

record repository_form =
  rf_name :: string
  rf_absolutePath :: string
  rf_description :: string
  rf_shell :: string
  rf_inheritedEnvironment :: string
  rf_allowCustomCommands :: bool

definition new_repository_form :: repository_form where
  "new_repository_form = \<lparr>rf_name = '''', rf_absolutePath = '''', rf_description = '''', rf_shell = ''/bin/zsh'',
     rf_inheritedEnvironment = ''PATH, HOME, USER, LOGNAME, SHELL, TMPDIR, TERM, LANG'', rf_allowCustomCommands = False\<rparr>"

definition environment_names :: "string \<Rightarrow> string list" where
  "environment_names s = filter (\<lambda>w. w \<noteq> '''') (map js_trim (split_on (CHR '','') s))"

definition shell_arguments :: "string \<Rightarrow> string list" where
  "shell_arguments shell = (if shell = ''powershell.exe'' then [''-NoLogo'', ''-NoProfile'', ''-Command''] else [''-lc''])"

definition repository_body :: "repository_form \<Rightarrow> properties" where
  "repository_body f =
     [(''name'', JStr (js_trim (rf_name f))), (''absolutePath'', JStr (js_trim (rf_absolutePath f))),
      (''description'', JStr (js_trim (rf_description f))), (''shell'', JStr (rf_shell f)),
      (''shellArgs'', JArr (map JStr (shell_arguments (rf_shell f)))),
      (''inheritedEnvironment'', JArr (map JStr (environment_names (rf_inheritedEnvironment f)))),
      (''allowCustomCommands'', JBool (rf_allowCustomCommands f))]"

definition shell_options :: "string list" where
  "shell_options = [''/bin/zsh'', ''/bin/bash'', ''/bin/sh'', ''powershell.exe'']"

record action_form =
  af_name :: string
  af_command :: string
  af_workingDirectory :: string
  af_interactive :: bool
  af_persistent :: bool
  af_confirmationRequired :: bool

definition action_body :: "action_form \<Rightarrow> properties" where
  "action_body f =
     [(''name'', JStr (js_trim (af_name f))), (''command'', JStr (js_trim (af_command f))),
      (''workingDirectory'', JStr (js_trim (af_workingDirectory f))), (''interactive'', JBool (af_interactive f)),
      (''persistent'', JBool (af_persistent f)), (''confirmationRequired'', JBool (af_confirmationRequired f))]"

text \<open>\<open>submit\<close> of \<open>RenameDeviceModal\<close>: the name it passes on, if it does.\<close>

definition submit_rename :: "string \<Rightarrow> bool \<Rightarrow> string \<Rightarrow> string option" where
  "submit_rename currentName loading name =
     (let trimmed = js_trim name in
      if trimmed \<noteq> '''' \<and> trimmed \<noteq> js_trim currentName \<and> \<not> loading then Some trimmed else None)"

text \<open>The custom command: the fields, and what happens to them.\<close>

record command_form =
  cf_command :: string
  cf_interactive :: bool
  cf_persistent :: bool
  cf_confirmed :: bool

definition new_command_form :: command_form where
  "new_command_form = \<lparr>cf_command = '''', cf_interactive = True, cf_persistent = True, cf_confirmed = False\<rparr>"

datatype command_event = EditCommand string | SetInteractive bool | SetPersistent bool | SetConfirmed bool | SubmitCommand

definition submit_command :: "command_form \<Rightarrow> properties option" where
  "submit_command f =
     (if \<not> cf_confirmed f \<or> js_trim (cf_command f) = '''' then None
      else Some [(''command'', JStr (js_trim (cf_command f))), (''interactive'', JBool (cf_interactive f)),
                 (''persistent'', JBool (cf_persistent f))])"

fun command_step :: "command_event \<Rightarrow> command_form \<Rightarrow> command_form" where
  "command_step (EditCommand s) f = f\<lparr>cf_command := s, cf_confirmed := False\<rparr>"
| "command_step (SetInteractive b) f = f\<lparr>cf_interactive := b\<rparr>"
| "command_step (SetPersistent b) f = f\<lparr>cf_persistent := b\<rparr>"
| "command_step (SetConfirmed b) f = f\<lparr>cf_confirmed := b\<rparr>"
| "command_step SubmitCommand f = f"

lemma trim_starts: "dropWhile P (rev (dropWhile Q (rev (dropWhile P s)))) = rev (dropWhile Q (rev (dropWhile P s)))"
  if "\<And>c. Q c \<Longrightarrow> P c"
proof (cases "rev (dropWhile Q (rev (dropWhile P s)))")
  case (Cons c cs)
  obtain t where "dropWhile P s = rev (dropWhile Q (rev (dropWhile P s))) @ t"
    using takeWhile_dropWhile_id [of Q "rev (dropWhile P s)"] by (metis rev_append rev_rev_ident)
  with Cons have "dropWhile P s = c # cs @ t"
    by simp
  then have "\<not> P c"
    by (metis hd_dropWhile list.distinct(1) list.sel(1))
  with Cons show ?thesis
    by simp
qed (simp only: dropWhile.simps)

lemma js_trim_trim [simp]: "js_trim (js_trim s) = js_trim s"
proof -
  have "dropWhile is_space_char (rev (dropWhile is_space_char (rev (dropWhile is_space_char s)))) =
      rev (dropWhile is_space_char (rev (dropWhile is_space_char s)))"
    by (rule trim_starts)
  then show ?thesis
    by (simp add: js_trim_def)
qed

lemma those_strings: "those (map (\<lambda>j. s (Some j)) (map JStr ws)) = Some ws \<longleftrightarrow> (\<forall>w \<in> set ws. s (Some (JStr w)) = Some w)"
  by (induction ws) (auto split: option.split)

lemma those_words: "(\<And>w. w \<in> set ws \<Longrightarrow> P w) \<Longrightarrow> those (map (\<lambda>j. zs_refine P zs_string (Some j)) (map JStr ws)) = Some ws"
  by (subst those_strings) (simp add: zs_refine_def)

text \<open>
  C36. What is filled in is what is stored. The body of each form, read by the schema of its route, gives exactly the
  trimmed fields, flags and lists of the form when they are within the bounds of the schema: a repository
  with one of the shells offered, its arguments and the names of its environment, an action, a new name,
  and a custom command, which is never taken for an action.
\<close>

theorem forms_read_back:
  assumes "shell \<in> set shell_options" and "js_trim name \<noteq> ''''" and "length (js_trim name) \<le> 100"
    and "js_trim path \<noteq> ''''" and "length (js_trim path) \<le> 4096" and "length (js_trim description) \<le> 1000"
    and "\<forall>w \<in> set (environment_names environment). environmentName w" and "length (environment_names environment) \<le> 100"
    and "js_trim command \<noteq> ''''" and "length (js_trim command) \<le> MAX_COMMAND_BYTES" and "length (js_trim directory) \<le> 4096"
  shows "repositoryInputSchema (Some (JObj (repository_body \<lparr>rf_name = name, rf_absolutePath = path, rf_description = description,
        rf_shell = shell, rf_inheritedEnvironment = environment, rf_allowCustomCommands = b\<rparr>))) =
      Some \<lparr>ri_name = js_trim name, ri_absolutePath = js_trim path, ri_description = Some (js_trim description), ri_allowCustomCommands = b,
        ri_shell = shell, ri_shellArgs = shell_arguments shell, ri_inheritedEnvironment = environment_names environment\<rparr> \<and>
    actionSchema (Some (JObj (action_body \<lparr>af_name = name, af_command = command, af_workingDirectory = directory, af_interactive = i,
        af_persistent = p, af_confirmationRequired = c\<rparr>))) =
      Some \<lparr>an_name = js_trim name, an_command = js_trim command, an_workingDirectory = js_trim directory, an_interactive = i,
        an_persistent = p, an_confirmationRequired = c\<rparr> \<and>
    (\<forall>n. submit_rename current loading name = Some n \<longrightarrow>
      renameInputSchema (Some (JObj [(''name'', JStr n)])) = Some n \<and> n = js_trim name \<and> n \<noteq> js_trim current) \<and>
    (\<forall>ps. submit_command \<lparr>cf_command = command, cf_interactive = i, cf_persistent = p, cf_confirmed = True\<rparr> = Some ps \<longrightarrow>
      createJobSchema l (snd (snd (snd (call_request (CallCustomCommand repositoryId ps))))) = Some (CustomJob (js_trim command) '''' i p))"
proof (intro conjI allI impI)
  have shell: "js_trim shell = shell" "0 < length shell" "length shell \<le> 4096"
    using assms(1) by (auto simp: shell_options_def js_trim_def is_space_char_def)
  have arguments: "those (map (\<lambda>j. zs_text 0 1000 (Some j)) (map JStr (shell_arguments shell))) = Some (shell_arguments shell)"
      "length (shell_arguments shell) \<le> 20"
    by (simp_all add: shell_arguments_def zs_defs)
  have words: "those (map (\<lambda>j. environmentNameSchema (Some j)) (map JStr (environment_names environment))) = Some (environment_names environment)"
    unfolding environmentNameSchema_def using assms(7) by (intro those_words) blast
  have nonempty: "0 < length (js_trim name)" "0 < length (js_trim path)" "0 < length (js_trim command)"
    using assms(2,4,9) by simp_all
  show "repositoryInputSchema (Some (JObj (repository_body \<lparr>rf_name = name, rf_absolutePath = path, rf_description = description,
        rf_shell = shell, rf_inheritedEnvironment = environment, rf_allowCustomCommands = b\<rparr>))) =
      Some \<lparr>ri_name = js_trim name, ri_absolutePath = js_trim path, ri_description = Some (js_trim description), ri_allowCustomCommands = b,
        ri_shell = shell, ri_shellArgs = shell_arguments shell, ri_inheritedEnvironment = environment_names environment\<rparr>"
    using assms(3,5,6,8) nonempty shell arguments words
    by (simp add: repositoryInputSchema_def repository_body_def zs_field_def zs_length_def zs_refine_def zs_trimmed_def zs_transform_def Suc_le_eq del: map_map)
  show "actionSchema (Some (JObj (action_body \<lparr>af_name = name, af_command = command, af_workingDirectory = directory, af_interactive = i,
        af_persistent = p, af_confirmationRequired = c\<rparr>))) =
      Some \<lparr>an_name = js_trim name, an_command = js_trim command, an_workingDirectory = js_trim directory, an_interactive = i,
        an_persistent = p, an_confirmationRequired = c\<rparr>"
    using assms(3,10,11) nonempty by (simp add: actionSchema_def action_body_def zs_defs Suc_le_eq)
  fix n ps
  show "renameInputSchema (Some (JObj [(''name'', JStr n)])) = Some n" "n = js_trim name" "n \<noteq> js_trim current"
    if "submit_rename current loading name = Some n"
    using that assms(3) nonempty by (auto simp: submit_rename_def renameInputSchema_def zs_defs Let_def Suc_le_eq split: if_splits)
  show "createJobSchema l (snd (snd (snd (call_request (CallCustomCommand repositoryId ps))))) = Some (CustomJob (js_trim command) '''' i p)"
    if "submit_command \<lparr>cf_command = command, cf_interactive = i, cf_persistent = p, cf_confirmed = True\<rparr> = Some ps"
    using that assms(10) nonempty
    by (auto simp: submit_command_def createJobSchema_def actionJobSchema_def customJobSchema_def zs_strict_def uuid_field_def zs_defs Suc_le_eq
        split: if_splits)
qed

theorem forms_read_back_witness:
  "repositoryInputSchema (Some (JObj (repository_body (new_repository_form\<lparr>rf_name := '' mvp '', rf_absolutePath := ''/p''\<rparr>)))) =
    Some \<lparr>ri_name = ''mvp'', ri_absolutePath = ''/p'', ri_description = Some '''', ri_allowCustomCommands = False, ri_shell = ''/bin/zsh'',
      ri_shellArgs = [''-lc''], ri_inheritedEnvironment = default_environment\<rparr>"
proof -
  have trimmed: "js_trim '' mvp '' = ''mvp''" "js_trim ''/p'' = ''/p''" "js_trim '''' = ''''" "js_trim ''ls'' = ''ls''"
    by code_simp+
  have words: "environment_names (rf_inheritedEnvironment new_repository_form) = default_environment"
    by code_simp
  have valid: "\<forall>w \<in> set (environment_names (rf_inheritedEnvironment new_repository_form)). environmentName w"
    unfolding words by code_simp
  have few: "length (environment_names (rf_inheritedEnvironment new_repository_form)) \<le> 100"
    unfolding words by code_simp
  have shell: "''/bin/zsh'' \<in> set shell_options"
    by (simp add: shell_options_def)
  from forms_read_back [where name = "'' mvp ''" and path = "''/p''" and description = "''''" and command = "''ls''" and directory = "''''" and b = False,
      OF shell _ _ _ _ _ valid few]
  show ?thesis
    using words by (simp add: trimmed new_repository_form_def shell_arguments_def MAX_COMMAND_BYTES_def)
qed



subsection \<open>Running an action\<close>

text \<open>What the page knows of an action: the whole row. \<open>Inl\<close> opens the dialog, \<open>Inr\<close> sends the call.\<close>

definition startAction :: "ident \<Rightarrow> action \<Rightarrow> action + api_call" where
  "startAction repositoryId a =
     (if act_confirmationRequired a then Inl a else Inr (CallRunAction repositoryId (act_id a) False))"

definition confirm_run :: "ident \<Rightarrow> action \<Rightarrow> api_call" where
  "confirm_run repositoryId a = CallRunAction repositoryId (act_id a) True"

definition can_run :: "bool \<Rightarrow> device_status option \<Rightarrow> bool" where
  "can_run enabled status \<longleftrightarrow> enabled \<and> status = Some Online"

definition repository_badge :: "bool \<Rightarrow> device_status option \<Rightarrow> string" where
  "repository_badge enabled status =
     (if can_run enabled status then ''ready''
      else if enabled then (case status of None \<Rightarrow> ''offline'' | Some s \<Rightarrow> device_status_name s) else ''disabled'')"

text \<open>
  C37. The button of an action runs that action. An action that asks for confirmation is not sent before the
  dialog is answered, and one that is sent, directly or from the dialog, is read by the route as that
  action with the confirmation it needs: planning the job never fails for a missing confirmation, and the
  job gets the command the button showed.
\<close>

theorem action_button_runs_action:
  assumes "List.find (\<lambda>q. act_id q = act_id a \<and> act_repositoryId q = repo_id r) (db_actions d) = Some a"
    and "lib_uuid l (act_id a)" and "call \<in> {confirm_run i a} \<union> (case startAction i a of Inl _ \<Rightarrow> {} | Inr c \<Rightarrow> {c})"
  shows "isl (startAction i a) = act_confirmationRequired a \<and>
    (\<exists>input p. createJobSchema l (snd (snd (snd (call_request call)))) = Some input \<and> plan_job input r d = Inr p \<and>
      jp_actionId p = Some (act_id a) \<and> jp_command p = act_command a)"
  using assms
  by (auto simp: startAction_def confirm_run_def createJobSchema_def actionJobSchema_def zs_strict_def uuid_field_def zs_defs split: if_splits)

definition example_action :: action where
  "example_action = new_action (example_http 0) ''r'' \<lparr>an_name = ''list'', an_command = ''ls'', an_workingDirectory = '''', an_interactive = False,
     an_persistent = False, an_confirmationRequired = True\<rparr> ''''"

theorem action_button_runs_action_witness:
  "isl (startAction ''r'' example_action) \<and>
    (\<exists>input p. createJobSchema example_lib (snd (snd (snd (call_request (confirm_run ''r'' example_action))))) = Some input \<and>
      plan_job input example_repository (empty_db\<lparr>db_actions := [example_action]\<rparr>) = Inr p \<and> jp_command p = ''ls'')"
proof -
  have found: "List.find (\<lambda>q. act_id q = act_id example_action \<and> act_repositoryId q = repo_id example_repository)
      (db_actions (empty_db\<lparr>db_actions := [example_action]\<rparr>)) = Some example_action"
    by (simp add: example_action_def new_action_def example_repository_def)
  have flags: "act_confirmationRequired example_action" "act_command example_action = ''ls''"
    by (simp_all add: example_action_def new_action_def)
  have uuid: "lib_uuid example_lib (act_id example_action)"
    by (simp add: example_lib_def)
  from action_button_runs_action [OF found uuid, of "confirm_run ''r'' example_action" "''r''"] show ?thesis
    using flags by auto
qed

subsection \<open>The terminal of a job\<close>

definition connection_label :: "connection_state \<Rightarrow> bool \<Rightarrow> string" where
  "connection_label connection terminal =
     (if terminal then ''Retained output''
      else (case connection of
              ConnConnected \<Rightarrow> ''Live'' | ConnOffline \<Rightarrow> ''Offline'' | ConnClosed \<Rightarrow> ''Closed'' | ConnConnecting \<Rightarrow> ''Connecting''
            | ConnReconnecting \<Rightarrow> ''Reconnecting''))"

definition showControls :: "bool \<Rightarrow> job_view \<Rightarrow> bool" where
  "showControls interactive v \<longleftrightarrow> interactive \<and> jv_status v \<in> {Running, WaitingForInput}"

definition acceptsInput :: "bool \<Rightarrow> job_view \<Rightarrow> bool" where
  "acceptsInput interactive v \<longleftrightarrow> showControls interactive v \<and> jv_connection v \<noteq> ConnClosed"

text \<open>\<open>onResize\<close>; and the mutation that cancels: over the socket, or else the call to make.\<close>

definition terminal_resized :: "int \<Rightarrow> int \<Rightarrow> job_view \<Rightarrow> job_view" where
  "terminal_resized columns rows v = (if isJobActive (jv_status v) then snd (sendResize columns rows v) else v)"

definition cancel_job :: "job_view \<Rightarrow> api_call option \<times> job_view" where
  "cancel_job v = (case sendCancel v of (True, v) \<Rightarrow> (None, v) | (False, v) \<Rightarrow> (Some (CallCancelJob (jv_jobId v)), v))"

text \<open>The keys of \<open>TerminalKeys.tsx\<close>, by their titles.\<close>

definition TERMINAL_KEYS :: "(string \<times> string) list" where
  "TERMINAL_KEYS = [(''Up arrow'', CHR 0x1B # ''[A''), (''Down arrow'', CHR 0x1B # ''[B''), (''Enter'', [CHR 0x0D])]"

definition sendKey :: "string \<Rightarrow> job_view \<Rightarrow> job_view" where
  "sendKey data v = snd (sendInput data v)"

subsection \<open>History, sign-in and notifications\<close>

text \<open>The filters the page takes from its address; a status that is none is left out.\<close>

definition history_call :: "properties \<Rightarrow> api_call" where
  "history_call search =
     (let given = (\<lambda>name. case zs_string (map_of search name) of Some s \<Rightarrow> if s = '''' then None else Some s | None \<Rightarrow> None)
      in CallJobs (given ''deviceId'') (given ''repositoryId'')
           (map_option status_name (JobRoutes.jobStatusSchema (map_of search ''status''))) None)"

definition googleErrorMessages :: "(string \<times> string) list" where
  "googleErrorMessages =
     [(''google'', ''Google sign-in could not be completed. Please try again.''),
      (''google_cancelled'', ''Google sign-in was cancelled.''),
      (''google_domain'', ''Sign-in with this email domain is not allowed.''),
      (''google_unverified'', ''Your Google account email address is not verified.''),
      (''google_conflict'', ''This email is already linked to a different Google account.'')]"

text \<open>The call a submitted sign-in makes, and where it leads when it works.\<close>

definition submit_sign_in :: "bool \<Rightarrow> string \<Rightarrow> string \<Rightarrow> api_call" where
  "submit_sign_in isRegister email password =
     (if isRegister then CallRegister (js_trim email) password else CallLogin (js_trim email) password)"

definition after_sign_in :: "string option \<Rightarrow> string" where
  "after_sign_in from_path = (case from_path of None \<Rightarrow> ''/devices'' | Some p \<Rightarrow> p)"

text \<open>The toggle: whether it is drawn, can be pressed, and shows on; and what pressing it does.\<close>

definition toggle_view :: "push_state \<Rightarrow> (bool \<times> bool) option" where
  "toggle_view st =
     (case st of
        IosNeedsInstall \<Rightarrow> Some (False, False) | PushDenied \<Rightarrow> Some (False, False) | Off \<Rightarrow> Some (True, False) | On \<Rightarrow> Some (True, True)
      | _ \<Rightarrow> None)"

definition press_toggle :: "push_view \<Rightarrow> push_event option" where
  "press_toggle v =
     (case toggle_view (pv_state v) of
        Some (True, on) \<Rightarrow> if pv_busy v then None else Some (if on then Disable else Enable)
      | _ \<Rightarrow> None)"

definition titleForPath :: "string \<Rightarrow> string" where
  "titleForPath pathname =
     (if startsWith ''/jobs/'' pathname then ''Session''
      else if pathname = ''/history'' then ''Job history''
      else if startsWith ''/repositories/'' pathname then ''Repository''
      else if startsWith ''/devices/'' pathname \<and> length pathname > 9 then ''Device''
      else ''Your devices'')"

text \<open>
  Every failed Google sign-in is explained. Whenever the callback sends the browser back to the sign-in page
  with an error, whatever went wrong, the page has a message for that error.
\<close>

lemma callback_errors_explained:
  assumes "get_google_callback fetch decode hx rq sv = (Inr response, sv')" and "rs_location response = Some (''/login?error='' @ code)"
  shows "map_of googleErrorMessages code \<noteq> None"
proof -
  have codes: "googleErrorCode e \<in> {''google_domain'', ''google_unverified'', ''google_conflict'', ''google''}" for e
    by (cases e) auto
  have known: "\<exists>m. map_of googleErrorMessages (googleErrorCode e) = Some m" "\<exists>m. map_of googleErrorMessages ''google'' = Some m"
      "\<exists>m. map_of googleErrorMessages ''google_cancelled'' = Some m" for e
    using codes [of e] by (auto simp: googleErrorMessages_def)
  then show ?thesis
    using assms
    by (auto simp: get_google_callback_def Let_def redirect_def not_found_response_def json_reply_def split: if_splits sum.splits prod.splits)
qed

subsection \<open>A deleted device\<close>

text \<open>
  What the success of a permanent deletion does to the cache of queries, in \<open>DevicesPage\<close> and
  \<open>DeviceDetailPage\<close> alike; the list is marked stale after that, which leaves what is cached.
\<close>

definition device_deleted :: "'c query_cache \<Rightarrow> ident \<Rightarrow> 'c \<Rightarrow> 'c" where
  "device_deleted qc deviceId c =
     (let c = (case qc_get qc devices_key c of
                 Resolved (JArr devices) \<Rightarrow>
                   qc_set qc devices_key (JArr (filter (\<lambda>device. property ''id'' device \<noteq> Some (JStr deviceId)) devices)) c
               | _ \<Rightarrow> c);
          c = qc_remove qc (\<lambda>k. k = device_key deviceId) c;
          c = qc_remove qc (\<lambda>k. take 1 k = all_repositories_key) c
      in qc_remove qc (\<lambda>k. take 1 k = all_jobs_key) c)"

text \<open>
  Nothing of a deleted device stays cached: its row is gone from the list, and its own query, every
  repository, action, job and output; the other devices and the session are as they were.
\<close>

lemma device_deleted_forgotten:
  assumes "cache_laws qc"
  shows "qc_get qc (device_key i) (device_deleted qc i c) = Absent"
    and "qc_get qc devices_key (device_deleted qc i c) = Resolved (JArr ds) \<Longrightarrow> d \<in> set ds \<Longrightarrow> property ''id'' d \<noteq> Some (JStr i)"
    and "k \<in> {all_repositories_key, repository_key r, actions_key r, all_jobs_key, jobs_key f, job_key j, output_key j} \<Longrightarrow>
      qc_get qc k (device_deleted qc i c) = Absent"
    and "k \<in> {session_key, auth_config_key, device_key i'} \<Longrightarrow> i \<noteq> i' \<Longrightarrow> qc_get qc k (device_deleted qc i c) = qc_get qc k c"
proof -
  note keys = session_key_def auth_config_key_def devices_key_def device_key_def all_repositories_key_def repository_key_def actions_key_def
    all_jobs_key_def jobs_key_def job_key_def output_key_def
  have laws: "qc_get qc k (qc_set qc k' v c) = (if k = k' then Resolved v else qc_get qc k c)"
      "qc_get qc k (qc_remove qc P c) = (if P k then Absent else qc_get qc k c)" for k k' v P c
    using assms by (simp_all add: cache_laws_def)
  have left: "qc_get qc k (device_deleted qc i c) = qc_get qc k c" if "k \<noteq> device_key i" "take 1 k \<notin> {all_repositories_key, all_jobs_key}" "k \<noteq> devices_key" for k
    using that by (simp add: device_deleted_def Let_def laws split: query_state.split json.split)
  have listed: "qc_get qc devices_key (device_deleted qc i c) =
      (case qc_get qc devices_key c of
         Resolved (JArr devices) \<Rightarrow> Resolved (JArr (filter (\<lambda>device. property ''id'' device \<noteq> Some (JStr i)) devices))
       | q \<Rightarrow> q)"
  proof -
    have "take 1 devices_key \<notin> {all_repositories_key, all_jobs_key}" "devices_key \<noteq> device_key i"
      by (simp_all add: keys)
    then show ?thesis
      by (simp add: device_deleted_def Let_def laws split: query_state.split json.split)
  qed
  show "qc_get qc (device_key i) (device_deleted qc i c) = Absent"
    by (simp add: device_deleted_def Let_def laws)
  show "qc_get qc k (device_deleted qc i c) = Absent"
    if "k \<in> {all_repositories_key, repository_key r, actions_key r, all_jobs_key, jobs_key f, job_key j, output_key j}"
  proof -
    have "take 1 k \<in> {all_repositories_key, all_jobs_key}"
      using that by (auto simp: keys)
    then show ?thesis
      by (auto simp: device_deleted_def Let_def laws)
  qed
  show "property ''id'' d \<noteq> Some (JStr i)"
    if "qc_get qc devices_key (device_deleted qc i c) = Resolved (JArr ds)" "d \<in> set ds"
    using that unfolding listed by (auto split: query_state.splits json.splits)
  show "qc_get qc k (device_deleted qc i c) = qc_get qc k c" if "k \<in> {session_key, auth_config_key, device_key i'}" "i \<noteq> i'"
    using that by (intro left) (auto simp: keys)
qed

end
