(* ===== verification/Focus.thy ===== *)
theory Focus
  imports Prelude
begin

section \<open>The focus of the keyboard\<close>

text \<open>
  The menus and dialogs of \<open>apps/web/src/components\<close> as they handle keys: the menu of a device card
  (\<open>KebabMenu.tsx\<close>), the dialogs (\<open>Modal.tsx\<close>) and the terminal on the full screen (\<open>pages/JobPage.tsx\<close>). Where
  the browser itself moves the focus is an event of the menu and a parameter of the dialogs.
\<close>

subsection \<open>The menu\<close>

datatype menu_focus = OnTrigger | OnItem nat | Elsewhere

record kebab =
  kb_open :: bool
  kb_focus :: menu_focus

definition new_kebab :: kebab where
  "new_kebab = \<lparr>kb_open = False, kb_focus = Elsewhere\<rparr>"

text \<open>The remainder of JavaScript has the sign of the dividend.\<close>

definition js_rem :: "int \<Rightarrow> int \<Rightarrow> int" where
  "js_rem a b = sgn a * (\<bar>a\<bar> mod \<bar>b\<bar>)"

definition focusItem :: "nat \<Rightarrow> int \<Rightarrow> kebab \<Rightarrow> kebab" where
  "focusItem items index k =
     (let count = int items
      in if count = 0 then k else k\<lparr>kb_focus := OnItem (nat (js_rem (js_rem index count + count) count))\<rparr>)"

text \<open>\<open>setOpen(false)\<close>: the items are unmounted, and the focus with them.\<close>

definition set_closed :: "kebab \<Rightarrow> kebab" where
  "set_closed k = k\<lparr>kb_open := False, kb_focus := (case kb_focus k of OnItem i \<Rightarrow> Elsewhere | f \<Rightarrow> f)\<rparr>"

definition close_kebab :: "bool \<Rightarrow> kebab \<Rightarrow> kebab" where
  "close_kebab returnFocus k = (let k = set_closed k in if returnFocus then k\<lparr>kb_focus := OnTrigger\<rparr> else k)"

text \<open>\<open>onMenuKeyDown\<close>, which sees the keys pressed on an item.\<close>

definition onMenuKeyDown :: "nat \<Rightarrow> string \<Rightarrow> kebab \<Rightarrow> kebab" where
  "onMenuKeyDown items key k =
     (let current = (case kb_focus k of OnItem i \<Rightarrow> int i | _ \<Rightarrow> - 1)
      in if key = ''ArrowDown'' then focusItem items (current + 1) k
         else if key = ''ArrowUp'' then focusItem items (current - 1) k
         else if key = ''Home'' then focusItem items 0 k
         else if key = ''End'' then focusItem items (int items - 1) k
         else if key = ''Escape'' then close_kebab True k
         else if key = ''Tab'' then set_closed k
         else k)"

datatype kebab_event =
    PressTrigger
  | MenuKey string
  | PointerDown bool
  | SelectItem nat
  | BrowserFocus menu_focus

text \<open>One event; a pointer event says whether it is within the component.\<close>

fun kebab_step :: "nat \<Rightarrow> kebab_event \<Rightarrow> kebab \<Rightarrow> kebab" where
  "kebab_step items PressTrigger k =
     (if kb_open k then set_closed k else (let k = k\<lparr>kb_open := True\<rparr> in if items = 0 then k else k\<lparr>kb_focus := OnItem 0\<rparr>))"
| "kebab_step items (MenuKey key) k = (case kb_focus k of OnItem i \<Rightarrow> onMenuKeyDown items key k | _ \<Rightarrow> k)"
| "kebab_step items (PointerDown inside) k = (if kb_open k \<and> \<not> inside then set_closed k else k)"
| "kebab_step items (SelectItem i) k = (if kb_open k \<and> i < items then close_kebab False k else k)"
| "kebab_step items (BrowserFocus f) k = (case f of OnItem i \<Rightarrow> if kb_open k \<and> i < items then k\<lparr>kb_focus := f\<rparr> else k | _ \<Rightarrow> k\<lparr>kb_focus := f\<rparr>)"

lemma js_rem_pos: "0 \<le> a \<Longrightarrow> 0 < c \<Longrightarrow> js_rem a c = a mod c"
  by (cases "a = 0") (simp_all add: js_rem_def)

lemma wrapped_index: "0 < c \<Longrightarrow> js_rem (js_rem a c + c) c = a mod c"
proof -
  assume c: "0 < c"
  show ?thesis
  proof (cases "0 \<le> a")
    case True
    have "0 \<le> a mod c + c"
      using c by (simp add: add_nonneg_nonneg)
    with True c show ?thesis
      by (simp add: js_rem_pos)
  next
    case False
    with c have rem: "js_rem a c = - ((- a) mod c)"
      by (simp add: js_rem_def)
    have bound: "(- a) mod c < c"
      using c by (rule pos_mod_bound)
    have "js_rem (js_rem a c + c) c = (- ((- a) mod c) + c) mod c"
      unfolding rem using c by (intro js_rem_pos) (simp_all add: bound [THEN less_imp_le])
    also have "\<dots> = (- ((- a) mod c)) mod c"
      by (rule mod_add_self2)
    also have "\<dots> = a mod c"
      by (simp add: mod_minus_eq)
    finally show ?thesis .
  qed
qed

lemma focusItem_wraps: "0 < items \<Longrightarrow> focusItem items index k = k\<lparr>kb_focus := OnItem (nat (index mod int items))\<rparr>"
  by (simp add: focusItem_def wrapped_index Let_def)

text \<open>The focus is on an item only while the menu is open, and then on one it has.\<close>

definition kebab_ok :: "nat \<Rightarrow> kebab \<Rightarrow> bool" where
  "kebab_ok items k \<longleftrightarrow> (\<forall>i. kb_focus k = OnItem i \<longrightarrow> kb_open k \<and> i < items)"

lemma kebab_ok_moves:
  "kebab_ok items (set_closed k)" "kebab_ok items (close_kebab returnFocus k)"
  "kb_open k \<Longrightarrow> kebab_ok items k \<Longrightarrow> kebab_ok items (focusItem items index k)"
proof -
  show "kebab_ok items (set_closed k)" "kebab_ok items (close_kebab returnFocus k)"
    by (auto simp: kebab_ok_def set_closed_def close_kebab_def Let_def split: menu_focus.splits if_splits)
  show "kebab_ok items (focusItem items index k)" if "kb_open k" "kebab_ok items k"
  proof (cases "items = 0")
    case True
    with that show ?thesis
      by (simp add: focusItem_def)
  next
    case False
    then have "nat (index mod int items) < items"
      by (simp add: nat_less_iff)
    with that False show ?thesis
      by (simp add: focusItem_wraps kebab_ok_def)
  qed
qed

lemma kebab_ok_step: "kebab_ok items k \<Longrightarrow> kebab_ok items (kebab_step items e k)"
proof (cases e)
  case (MenuKey key)
  assume ok: "kebab_ok items k"
  show ?thesis
  proof (cases "kb_focus k")
    case (OnItem i)
    with ok have "kb_open k"
      by (simp add: kebab_ok_def)
    with ok have "kebab_ok items (onMenuKeyDown items key k)"
      unfolding onMenuKeyDown_def Let_def by (simp only: kebab_ok_moves split: if_split) simp
    with MenuKey OnItem show ?thesis
      by simp
  qed (use ok MenuKey in simp_all)
qed (auto simp: kebab_ok_moves Let_def, auto simp: kebab_ok_def split: menu_focus.splits)

lemma kebab_ok_always: "kebab_ok items (fold (kebab_step items) events new_kebab)"
  by (rule fold_invariant [where Q = "\<lambda>_. True"]) (simp_all add: kebab_ok_step, simp add: kebab_ok_def new_kebab_def)

text \<open>The arrows walk round the items, and each undoes the other; the other keys go where they say.\<close>

lemma arrows_walk_round:
  assumes "kb_focus k = OnItem i" and "i < items"
  shows "fold (kebab_step items) (replicate n (MenuKey ''ArrowDown'')) k = k\<lparr>kb_focus := OnItem ((i + n) mod items)\<rparr>"
    and "kebab_step items (MenuKey ''ArrowUp'') (kebab_step items (MenuKey ''ArrowDown'') k) = k"
    and "kebab_step items (MenuKey ''Home'') k = k\<lparr>kb_focus := OnItem 0\<rparr>"
    and "kebab_step items (MenuKey ''End'') k = k\<lparr>kb_focus := OnItem (items - 1)\<rparr>"
    and "kebab_step items (MenuKey ''Escape'') k = k\<lparr>kb_open := False, kb_focus := OnTrigger\<rparr>"
proof -
  have down: "kebab_step items (MenuKey ''ArrowDown'') k = k\<lparr>kb_focus := OnItem (Suc j mod items)\<rparr>"
    if "kb_focus k = OnItem j" "j < items" for k j
    using that by (simp add: onMenuKeyDown_def focusItem_wraps Let_def nat_mod_distrib nat_add_distrib)
  show "fold (kebab_step items) (replicate n (MenuKey ''ArrowDown'')) k = k\<lparr>kb_focus := OnItem ((i + n) mod items)\<rparr>"
    using assms
  proof (induction n arbitrary: i k)
    case (Suc n)
    have "Suc i mod items < items"
      using Suc.prems by simp
    then show ?case
      using Suc.IH [of "k\<lparr>kb_focus := OnItem (Suc i mod items)\<rparr>" "Suc i mod items"] down [OF Suc.prems]
      by (simp add: mod_add_left_eq)
  qed simp
  show "kebab_step items (MenuKey ''ArrowUp'') (kebab_step items (MenuKey ''ArrowDown'') k) = k"
  proof -
    have "(int (Suc i mod items) - 1) mod int items = int i"
      using assms(2) by (simp add: zmod_int mod_diff_left_eq)
    then show ?thesis
      using assms by (simp add: down [OF assms] del: kebab_step.simps) (simp add: onMenuKeyDown_def focusItem_wraps Let_def)
  qed
  show "kebab_step items (MenuKey ''Home'') k = k\<lparr>kb_focus := OnItem 0\<rparr>"
    using assms by (simp add: onMenuKeyDown_def focusItem_wraps)
  show "kebab_step items (MenuKey ''End'') k = k\<lparr>kb_focus := OnItem (items - 1)\<rparr>"
  proof -
    have "(int items - 1) mod int items = int (items - 1)"
      using assms(2) by (subst mod_pos_pos_trivial) (simp_all add: of_nat_diff)
    with assms show ?thesis
      by (simp add: onMenuKeyDown_def focusItem_wraps Let_def del: minus_mod_self2 mod_diff_left_eq)
  qed
  show "kebab_step items (MenuKey ''Escape'') k = k\<lparr>kb_open := False, kb_focus := OnTrigger\<rparr>"
    using assms by (simp add: onMenuKeyDown_def close_kebab_def set_closed_def Let_def)
qed

subsection \<open>Dialogs and the full screen\<close>

text \<open>
  What a key does: close the dialog, move the focus, or what the browser does with it. \<open>focusable\<close> are the
  elements of the dialog that take the focus now, in the order of the document.
\<close>

datatype 'e key_effect = CloseDialog | FocusOn 'e | BrowserDefault

definition modal_key :: "'e list \<Rightarrow> 'e option \<Rightarrow> string \<Rightarrow> bool \<Rightarrow> 'e key_effect" where
  "modal_key focusable activeElement key shiftKey =
     (if key = ''Escape'' then CloseDialog
      else if key \<noteq> ''Tab'' then BrowserDefault
      else if focusable = [] then BrowserDefault
      else if shiftKey \<and> activeElement = Some (hd focusable) then FocusOn (last focusable)
      else if \<not> shiftKey \<and> activeElement = Some (last focusable) then FocusOn (hd focusable)
      else BrowserDefault)"

text \<open>The same on the full screen, when it is on.\<close>

definition fullscreen_key :: "bool \<Rightarrow> 'e list \<Rightarrow> 'e option \<Rightarrow> string \<Rightarrow> bool \<Rightarrow> bool \<times> 'e key_effect" where
  "fullscreen_key fullscreen focusable activeElement key shiftKey =
     (if \<not> fullscreen then (False, BrowserDefault)
      else if key = ''Escape'' then (False, BrowserDefault)
      else if key \<noteq> ''Tab'' then (True, BrowserDefault)
      else if focusable = [] then (True, BrowserDefault)
      else if shiftKey \<and> activeElement = Some (hd focusable) then (True, FocusOn (last focusable))
      else if \<not> shiftKey \<and> activeElement = Some (last focusable) then (True, FocusOn (hd focusable))
      else (True, BrowserDefault))"

text \<open>\<open>Tab\<close> in a browser that goes to the neighbour in the document, where there is one in the dialog.\<close>

definition tab_order :: "('e \<Rightarrow> bool \<Rightarrow> 'e) \<Rightarrow> 'e list \<Rightarrow> bool" where
  "tab_order browser focusable \<longleftrightarrow>
     (\<forall>i. Suc i < length focusable \<longrightarrow>
        browser (focusable ! i) False = focusable ! Suc i \<and> browser (focusable ! Suc i) True = focusable ! i)"

definition after_tab :: "('e \<Rightarrow> bool \<Rightarrow> 'e) \<Rightarrow> 'e key_effect \<Rightarrow> 'e \<Rightarrow> bool \<Rightarrow> 'e" where
  "after_tab browser effect activeElement shiftKey =
     (case effect of FocusOn e \<Rightarrow> e | _ \<Rightarrow> browser activeElement shiftKey)"

text \<open>
  The focus stays in the dialog: from any of its elements \<open>Tab\<close> goes to the next and from the last to the
  first, \<open>Shift-Tab\<close> the other way, in a dialog as on the full screen.
\<close>

lemma dialog_keeps_focus:
  assumes "tab_order browser focusable" and "distinct focusable" and "i < length focusable"
  shows "after_tab browser (modal_key focusable (Some (focusable ! i)) ''Tab'' False) (focusable ! i) False =
      focusable ! (Suc i mod length focusable)"
    and "after_tab browser (modal_key focusable (Some (focusable ! i)) ''Tab'' True) (focusable ! i) True =
      focusable ! ((i + length focusable - 1) mod length focusable)"
    and "fullscreen_key True focusable a ''Tab'' shift = (True, modal_key focusable a ''Tab'' shift)"
proof -
  have ends: "hd focusable = focusable ! 0" "last focusable = focusable ! (length focusable - 1)" "focusable \<noteq> []"
    using assms(3) by (cases focusable; simp add: last_conv_nth)+
  have same: "focusable ! i = focusable ! j \<longleftrightarrow> i = j" if "j < length focusable" for j
    using assms(2,3) that by (simp add: nth_eq_iff_index_eq)
  show "after_tab browser (modal_key focusable (Some (focusable ! i)) ''Tab'' False) (focusable ! i) False =
      focusable ! (Suc i mod length focusable)"
  proof (cases "Suc i = length focusable")
    case True
    then have "i = length focusable - 1"
      by simp
    with True ends show ?thesis
      by (simp add: modal_key_def after_tab_def)
  next
    case False
    with assms(3) have "Suc i < length focusable" "i \<noteq> length focusable - 1"
      by simp_all
    with assms(1) ends same [of "length focusable - 1"] show ?thesis
      by (simp add: modal_key_def after_tab_def tab_order_def)
  qed
  show "after_tab browser (modal_key focusable (Some (focusable ! i)) ''Tab'' True) (focusable ! i) True =
      focusable ! ((i + length focusable - 1) mod length focusable)"
  proof (cases i)
    case 0
    with assms(3) ends show ?thesis
      by (simp add: modal_key_def after_tab_def)
  next
    case (Suc j)
    then have "(i + length focusable - 1) mod length focusable = j"
      using assms(3) by simp
    moreover have "focusable ! i \<noteq> focusable ! 0"
      using same [of 0] assms(3) Suc by (metis gr_implies_not0 neq0_conv nat.distinct(1))
    ultimately show ?thesis
      using Suc assms(1,3) ends by (simp add: modal_key_def after_tab_def tab_order_def)
  qed
  show "fullscreen_key True focusable a ''Tab'' shift = (True, modal_key focusable a ''Tab'' shift)"
    by (simp add: fullscreen_key_def modal_key_def)
qed

end
