(* ===== verification/Contract.thy ===== *)
theory Contract
  imports ApiClient
begin

section \<open>The types of the API\<close>

text \<open>
  \<open>apps/web/src/api/types.ts\<close>: the types the browser reads responses at, as predicates on JSON, and the proof
  that the server's routes answer with them.
\<close>

subsection \<open>Interfaces\<close>

text \<open>The types in use; a field of an object comes with whether it is required.\<close>

datatype ts_type =
    TsString
  | TsNumber
  | TsBoolean
  | TsNull
  | TsTrue
  | TsLiterals "string list"
  | TsUnion ts_type ts_type
  | TsArray ts_type
  | TsObject "(string \<times> bool \<times> ts_type) list"

text \<open>A time is written as a string. Other properties of an object do not matter.\<close>

primrec conforms :: "ts_type \<Rightarrow> json \<Rightarrow> bool" where
  "conforms TsString j = (case j of JStr _ \<Rightarrow> True | JDate _ \<Rightarrow> True | _ \<Rightarrow> False)"
| "conforms TsNumber j = (case j of JNum _ \<Rightarrow> True | _ \<Rightarrow> False)"
| "conforms TsBoolean j = (case j of JBool _ \<Rightarrow> True | _ \<Rightarrow> False)"
| "conforms TsNull j = (j = JNull)"
| "conforms TsTrue j = (j = JBool True)"
| "conforms (TsLiterals names) j = (case j of JStr s \<Rightarrow> s \<in> set names | _ \<Rightarrow> False)"
| "conforms (TsUnion t u) j = (conforms t j \<or> conforms u j)"
| "conforms (TsArray t) j = (case j of JArr xs \<Rightarrow> list_all (conforms t) xs | _ \<Rightarrow> False)"
| "conforms (TsObject fs) j =
     (case j of
        JObj ps \<Rightarrow> list_all (\<lambda>(name, required, ok). case map_of ps name of None \<Rightarrow> \<not> required | Some v \<Rightarrow> ok v)
                    (map (map_prod id (map_prod id conforms)) fs)
      | _ \<Rightarrow> False)"

definition required :: "string \<Rightarrow> ts_type \<Rightarrow> string \<times> bool \<times> ts_type" where
  "required name t = (name, True, t)"

definition optional :: "string \<Rightarrow> ts_type \<Rightarrow> string \<times> bool \<times> ts_type" where
  "optional name t = (name, False, t)"

definition or_null :: "ts_type \<Rightarrow> ts_type" where
  "or_null t = TsUnion t TsNull"

definition ts_User :: ts_type where
  "ts_User = TsObject [required ''id'' TsString, required ''email'' TsString, required ''createdAt'' TsString]"

definition ts_Session :: ts_type where
  "ts_Session = TsObject [required ''user'' ts_User, required ''csrfToken'' TsString]"

definition ts_AuthConfig :: ts_type where
  "ts_AuthConfig = TsObject [required ''google'' TsBoolean, required ''allowRegistration'' TsBoolean]"

definition ts_PushConfig :: ts_type where
  "ts_PushConfig = TsObject [required ''enabled'' TsBoolean, required ''publicKey'' (or_null TsString)]"

definition ts_DeviceStatus :: ts_type where
  "ts_DeviceStatus = TsLiterals [''online'', ''offline'', ''revoked'']"

definition ts_Device :: ts_type where
  "ts_Device = TsObject [required ''id'' TsString, required ''name'' TsString, required ''platform'' TsString,
     required ''architecture'' TsString, required ''agentVersion'' TsString, required ''status'' ts_DeviceStatus,
     required ''lastSeenAt'' TsString, required ''createdAt'' TsString, required ''updatedAt'' TsString,
     optional ''repositoryCount'' TsNumber]"

definition ts_Repository :: ts_type where
  "ts_Repository = TsObject [required ''id'' TsString, required ''deviceId'' TsString, required ''name'' TsString,
     required ''absolutePath'' TsString, required ''description'' (or_null TsString), required ''enabled'' TsBoolean,
     required ''allowCustomCommands'' TsBoolean, required ''shell'' TsString, required ''shellArgs'' (TsArray TsString),
     required ''inheritedEnvironment'' (TsArray TsString), optional ''isGitRepository'' TsBoolean,
     optional ''branch'' (or_null TsString), required ''createdAt'' TsString, required ''updatedAt'' TsString,
     optional ''device'' (TsObject [required ''id'' TsString, required ''name'' TsString, required ''status'' ts_DeviceStatus])]"

definition ts_Action :: ts_type where
  "ts_Action = TsObject [required ''id'' TsString, required ''repositoryId'' TsString, required ''name'' TsString,
     required ''command'' TsString, required ''workingDirectory'' TsString, required ''interactive'' TsBoolean,
     required ''persistent'' TsBoolean, required ''confirmationRequired'' TsBoolean, required ''createdAt'' TsString,
     required ''updatedAt'' TsString]"

text \<open>\<open>JobStatus\<close> and \<open>OutputStream\<close> are inferred from the protocol's enumerations.\<close>

definition ts_JobStatus :: ts_type where
  "ts_JobStatus = TsLiterals [''queued'', ''dispatched'', ''running'', ''waiting_for_input'', ''completed'', ''failed'',
     ''cancelled'', ''disconnected'']"

definition ts_OutputStream :: ts_type where
  "ts_OutputStream = TsLiterals [''stdout'', ''stderr'', ''system'']"

definition ts_Job :: ts_type where
  "ts_Job = TsObject [required ''id'' TsString, required ''deviceId'' TsString, required ''repositoryId'' TsString,
     required ''actionId'' (or_null TsString), required ''command'' TsString, required ''workingDirectory'' TsString,
     required ''status'' ts_JobStatus, required ''interactive'' TsBoolean, required ''persistent'' TsBoolean,
     required ''exitCode'' (or_null TsNumber), required ''startedAt'' (or_null TsString),
     required ''finishedAt'' (or_null TsString), required ''createdAt'' TsString, required ''updatedAt'' TsString,
     optional ''repository'' (TsObject [required ''id'' TsString, required ''name'' TsString]),
     optional ''device'' (TsObject [required ''id'' TsString, required ''name'' TsString])]"

definition ts_OutputChunk :: ts_type where
  "ts_OutputChunk = TsObject [required ''sequence'' TsNumber, required ''stream'' ts_OutputStream, required ''data'' TsString,
     optional ''timestamp'' TsString]"

definition ts_DeviceDetails :: ts_type where
  "ts_DeviceDetails = TsObject [required ''device'' ts_Device, required ''repositories'' (TsArray ts_Repository),
     required ''recentJobs'' (TsArray ts_Job)]"

definition ts_PairingCode :: ts_type where
  "ts_PairingCode = TsObject [required ''code'' TsString, required ''expiresAt'' TsString]"

text \<open>The type \<open>T\<close> of \<open>request<T>\<close> in each call; \<open>None\<close> is \<open>void\<close>.\<close>

fun response_type :: "api_call \<Rightarrow> ts_type option" where
  "response_type CallSession = Some ts_Session"
| "response_type (CallLogin email password) = Some ts_Session"
| "response_type (CallRegister email password) = Some ts_Session"
| "response_type CallLogout = None"
| "response_type CallAuthConfig = Some ts_AuthConfig"
| "response_type CallPushConfig = Some ts_PushConfig"
| "response_type (CallSubscribePush endpoint p256dh auth) = Some (TsObject [required ''ok'' TsTrue])"
| "response_type (CallUnsubscribePush endpoint) = None"
| "response_type CallDevices = Some (TsObject [required ''devices'' (TsArray ts_Device)])"
| "response_type (CallDevice d) = Some ts_DeviceDetails"
| "response_type CallPairDevice = Some ts_PairingCode"
| "response_type (CallRenameDevice d name) = Some (TsObject [required ''device'' ts_Device])"
| "response_type (CallRevokeDevice d) = None"
| "response_type (CallDeleteDevice d) = None"
| "response_type (CallRepositories d) = Some (TsObject [required ''repositories'' (TsArray ts_Repository)])"
| "response_type (CallCreateRepository d input) = Some (TsObject [required ''repository'' ts_Repository])"
| "response_type (CallRepository r) = Some (TsObject [required ''repository'' ts_Repository])"
| "response_type (CallUpdateRepository r input) = Some (TsObject [required ''repository'' ts_Repository])"
| "response_type (CallDeleteRepository r) = None"
| "response_type (CallActions r) = Some (TsObject [required ''actions'' (TsArray ts_Action)])"
| "response_type (CallCreateAction r input) = Some (TsObject [required ''action'' ts_Action])"
| "response_type (CallDeleteAction a) = None"
| "response_type (CallJobs deviceId repositoryId status limit) = Some (TsObject [required ''jobs'' (TsArray ts_Job)])"
| "response_type (CallJob j) = Some (TsObject [required ''job'' ts_Job])"
| "response_type (CallOutput j cursor) = Some (TsObject [required ''chunks'' (TsArray ts_OutputChunk)])"
| "response_type (CallRunAction r actionId confirmation) = Some (TsObject [required ''job'' ts_Job])"
| "response_type (CallCustomCommand r input) = Some (TsObject [required ''job'' ts_Job])"
| "response_type (CallCancelJob j) = Some (TsObject [required ''job'' ts_Job])"

lemmas ts_fields = required_def optional_def

subsection \<open>The serializers\<close>

lemma conforms_values [simp]:
  "conforms TsString (JStr s)" "conforms TsString (JDate t)" "conforms TsNumber (JNum n)" "conforms TsBoolean (JBool b)" "conforms TsTrue (JBool True)"
  "conforms (TsArray u) (JArr xs) = list_all (conforms u) xs"
  "conforms (TsObject fs) (JObj ps) =
    list_all (\<lambda>(name, needed, t). case map_of ps name of None \<Rightarrow> \<not> needed | Some v \<Rightarrow> conforms t v) fs"
  by (auto simp: list_all_iff split: option.split)

declare conforms.simps [simp del]

lemma conforms_nullable [simp]: "conforms (or_null t) (nullable f x) = (case x of None \<Rightarrow> True | Some v \<Rightarrow> conforms t (f v) \<or> f v = JNull)"
  by (cases x) (auto simp: or_null_def conforms.simps)

lemma conforms_timestamp [simp]: "conforms TsString (timestamp t)"
  by (simp add: timestamp_def conforms.simps)

lemma conforms_device_status [simp]: "conforms ts_DeviceStatus (JStr (device_status_name s))"
  by (cases s) (simp_all add: ts_DeviceStatus_def conforms.simps)

lemma conforms_job_status [simp]: "conforms ts_JobStatus (JStr (status_name s))"
  by (cases s) (simp_all add: ts_JobStatus_def conforms.simps)

lemma conforms_stream [simp]: "conforms ts_OutputStream (JStr (stream_name s))"
  by (cases s) (simp_all add: ts_OutputStream_def conforms.simps)

lemma conforms_strings [simp]: "list_all (conforms TsString) (map JStr xs)"
  by (simp add: list_all_iff)

lemma user_conforms [simp]: "conforms ts_User (serializeUser i email createdAt)"
  by (simp add: ts_User_def ts_fields serializeUser_def)

lemma device_conforms [simp]: "conforms ts_Device (serializeDevice n dev)"
  by (cases n) (simp_all add: ts_Device_def ts_fields serializeDevice_def)

lemma action_conforms [simp]: "conforms ts_Action (serializeAction a)"
  by (simp add: ts_Action_def ts_fields serializeAction_def)

lemma job_conforms [simp]: "conforms ts_Job (serializeJob repo dev j)"
  by (cases repo; cases dev) (auto simp: ts_Job_def ts_fields serializeJob_def split: option.split)

lemma repository_conforms: "serializeRepository dev r = Some j \<Longrightarrow> conforms ts_Repository j"
  by (cases dev; cases "repo_isGitRepository r")
    (auto simp: ts_Repository_def ts_fields serializeRepository_def split: bind_splits option.split)

lemma chunk_conforms [simp]: "conforms ts_OutputChunk (chunk_json c)"
  by (cases "sv_timestamp c") (simp_all add: ts_OutputChunk_def ts_fields chunk_json_def)

subsection \<open>The routes\<close>

text \<open>What the client makes of a successful response: nothing for 204, else a body of the type.\<close>

definition well_typed :: "ts_type option \<Rightarrow> response \<Rightarrow> bool" where
  "well_typed T r =
     (case T of
        None \<Rightarrow> rs_status r = 204
      | Some t \<Rightarrow> rs_status r \<noteq> 204 \<and> (case rs_body r of None \<Rightarrow> False | Some b \<Rightarrow> conforms t b))"

text \<open>Errors are answered with a status the client takes for one.\<close>

fun is_error :: "js_error \<Rightarrow> bool" where
  "is_error (AppError status code message) = (400 \<le> status)"
| "is_error (StatusError status message) = (400 \<le> status)"
| "is_error _ = True"

lemma error_status: "is_error e \<Longrightarrow> 400 \<le> rs_status (error_response i e)"
  by (cases e) (auto simp: json_reply_def)

definition answers :: "ts_type option \<Rightarrow> outcome \<Rightarrow> bool" where
  "answers T oc = (case fst oc of Inl e \<Rightarrow> is_error e | Inr r \<Rightarrow> well_typed T r)"

lemma answers_fail [simp]: "answers T (Inl e, sv) = is_error e"
  by (simp add: answers_def)

lemma answers_body [simp]:
  "answers (Some t) (Inr (json_reply status b), sv) \<longleftrightarrow> status \<noteq> 204 \<and> conforms t b"
  "answers (Some t) (Inr ((json_reply status b)\<lparr>rs_cookies := cs\<rparr>), sv) \<longleftrightarrow> status \<noteq> 204 \<and> conforms t b"
  "answers None (Inr no_content, sv)" "answers None (Inr (no_content\<lparr>rs_cookies := cs\<rparr>), sv)"
  by (simp_all add: answers_def well_typed_def json_reply_def no_content_def)

text \<open>Where the errors of the routes come from.\<close>

lemmas error_constants = DEVICE_NOT_FOUND_def PAIRING_CODE_INVALID_def JOB_NOT_FOUND_def REPOSITORY_NOT_FOUND_def ACTION_NOT_FOUND_def
  PUSH_ENDPOINT_CONFLICT_def

lemma service_errors:
  "authenticate hx rq d = (Inl e, d') \<Longrightarrow> is_error e" "requireCsrf hx rq = Some e \<Longrightarrow> is_error e"
  "csrfFromRequest rq = Inl e \<Longrightarrow> is_error e"
  by (auto simp: authenticate_def requireCsrf_def csrfFromRequest_def Let_def split: option.splits if_splits)

lemma table_errors:
  "updateUnique P f rows = (Inl e, rows') \<Longrightarrow> is_error e" "createUnique key r rows = Inl e \<Longrightarrow> is_error e"
  "updateKeyed ident key i g rows2 = (Inl e, rows2') \<Longrightarrow> is_error e" "updateJob now j h d = (Inl e, d') \<Longrightarrow> is_error e"
  "set_enabled now i b d = (Inl e, d') \<Longrightarrow> is_error e"
  "delete_repositories Q d = Inl e \<Longrightarrow> is_error e" "delete_device_row i d = Inl e \<Longrightarrow> is_error e"
  by (auto simp: updateUnique_def createUnique_def updateKeyed_def updateJob_def set_enabled_def delete_repositories_def delete_device_row_def Let_def
      split: option.splits if_splits prod.splits sum.splits)

lemma route_errors:
  "store_subscription hx u input ua rows = (Some e, rows') \<Longrightarrow> is_error e"
  "revoke_transaction hx rq u dev d = (Inl e, d') \<Longrightarrow> is_error e" "purge_transaction hx rq u i d = (Inl e, d') \<Longrightarrow> is_error e"
  "validateCommand c = Some e \<Longrightarrow> is_error e" "workingDirectory w = Inl e \<Longrightarrow> is_error e"
  "replay u j cursor n d = Inl e \<Longrightarrow> is_error e"
  by (auto simp: store_subscription_def revoke_transaction_def purge_transaction_def validateCommand_def workingDirectory_def replay_def error_constants
      Let_def dest: table_errors split: if_splits option.splits sum.splits prod.splits)

lemma job_errors:
  "plan_job input r d = Inl e \<Longrightarrow> is_error e" "admit_job hx u i input sv = Inl e \<Longrightarrow> is_error e"
  "requestCancellation cx u j w = (Inl e, w') \<Longrightarrow> is_error e"
proof -
  show plan: "plan_job input r d = Inl e \<Longrightarrow> is_error e" for input r d
    by (cases "(input, r, d)" rule: plan_job.cases)
      (auto simp: error_constants dest: route_errors split: if_splits option.splits sum.splits)
  show "admit_job hx u i input sv = Inl e \<Longrightarrow> is_error e"
    by (auto simp: admit_job_def error_constants dest: plan route_errors split: if_splits option.splits sum.splits prod.splits)
  show "requestCancellation cx u j w = (Inl e, w') \<Longrightarrow> is_error e"
    by (auto simp: requestCancellation_def cancel_queued_def error_constants dest: table_errors split: if_splits option.splits sum.splits prod.splits bool.splits)
qed

lemma validation_errors:
  "validation_request hx i r p sv = (Inl e, sv') \<Longrightarrow> is_error e"
  "validated_path m oc = Inl e \<Longrightarrow> (\<And>e. oc = Inl e \<Longrightarrow> is_error e) \<Longrightarrow> is_error e"
  by (auto simp: validation_request_def request_begin_def request_finish_def validated_path_def
      split: if_splits option.splits sum.splits prod.splits bool.splits)

lemmas errors = service_errors table_errors route_errors job_errors validation_errors

lemma answers_auth: "(\<And>a sv. answers T (k (rq\<lparr>rq_auth := Some a\<rparr>) sv)) \<Longrightarrow> answers T (requireAuth hx rq k sv)"
  by (auto simp: requireAuth_def dest: errors split: prod.split sum.split)

lemma answers_auth_csrf: "(\<And>a sv. answers T (k (rq\<lparr>rq_auth := Some a\<rparr>) sv)) \<Longrightarrow> answers T (requireAuthCsrf hx rq k sv)"
  unfolding requireAuthCsrf_def by (rule answers_auth) (auto dest: errors split: option.split)

lemma answers_owner: "(\<And>u sv. answers T (k u sv)) \<Longrightarrow> answers T (with_owner rq k sv)"
  by (simp add: with_owner_def split: option.split)

lemma answers_parsed: "(\<And>x sv. answers T (k x sv)) \<Longrightarrow> answers T (with_parsed p k sv)"
  by (simp add: with_parsed_def split: option.split)

lemma answers_repository: "status \<noteq> 204 \<Longrightarrow> answers (Some (TsObject [required ''repository'' ts_Repository])) (reply_repository status dev r sv)"
  by (auto simp: reply_repository_def ts_fields dest: repository_conforms split: option.split)

lemmas answers_intro = answers_auth answers_auth_csrf answers_owner answers_parsed

lemma repositories_conform:
  assumes "those (map (serializeRepository dev) rows) = Some js"
  shows "list_all (conforms ts_Repository) js"
  using assms by (induction rows arbitrary: js) (auto dest: repository_conforms split: option.splits)

lemmas typed_bodies = ts_Session_def ts_AuthConfig_def ts_PushConfig_def ts_DeviceDetails_def ts_PairingCode_def ts_fields list_all_iff
  answers_repository [unfolded ts_fields]

lemma read_routes_typed:
  "answers (Some ts_Session) (get_session hx rq sv)"
  "answers (Some ts_AuthConfig) (get_auth_config hx sv)"
  "answers (Some ts_PushConfig) (get_push_config hx rq sv)"
  "answers (Some (TsObject [required ''devices'' (TsArray ts_Device)])) (get_devices hx rq sv)"
  "answers (Some ts_DeviceDetails) (get_device hx rq sv)"
  "answers (Some (TsObject [required ''repositories'' (TsArray ts_Repository)])) (get_device_repositories hx rq sv)"
  "answers (Some (TsObject [required ''repository'' ts_Repository])) (get_repository hx rq sv)"
  "answers (Some (TsObject [required ''actions'' (TsArray ts_Action)])) (get_actions hx rq sv)"
  "answers (Some (TsObject [required ''jobs'' (TsArray ts_Job)])) (get_jobs hx rq sv)"
  "answers (Some (TsObject [required ''job'' ts_Job])) (get_job hx rq sv)"
  "answers (Some (TsObject [required ''chunks'' (TsArray ts_OutputChunk)])) (get_job_output hx rq sv)"
proof -
  show "answers (Some ts_Session) (get_session hx rq sv)"
    unfolding get_session_def Let_def
    by (intro answers_intro) (auto simp: typed_bodies error_constants dest: repositories_conform [unfolded list_all_iff] errors split: option.split sum.split)
  show "answers (Some ts_AuthConfig) (get_auth_config hx sv)"
    unfolding get_auth_config_def Let_def
    by (auto simp: typed_bodies error_constants dest: repositories_conform [unfolded list_all_iff] errors split: option.split sum.split)
  show "answers (Some ts_PushConfig) (get_push_config hx rq sv)"
    unfolding get_push_config_def Let_def
    by (intro answers_intro) (auto simp: typed_bodies error_constants dest: repositories_conform [unfolded list_all_iff] errors split: option.split sum.split)
  show "answers (Some (TsObject [required ''devices'' (TsArray ts_Device)])) (get_devices hx rq sv)"
    unfolding get_devices_def Let_def
    by (intro answers_intro) (auto simp: typed_bodies error_constants dest: repositories_conform [unfolded list_all_iff] errors split: option.split sum.split)
  show "answers (Some ts_DeviceDetails) (get_device hx rq sv)"
    unfolding get_device_def Let_def
    by (intro answers_intro) (auto simp: typed_bodies error_constants dest: repositories_conform [unfolded list_all_iff] errors split: option.split sum.split)
  show "answers (Some (TsObject [required ''repositories'' (TsArray ts_Repository)])) (get_device_repositories hx rq sv)"
    unfolding get_device_repositories_def Let_def
    by (intro answers_intro) (auto simp: typed_bodies error_constants dest: repositories_conform [unfolded list_all_iff] errors split: option.split sum.split)
  show "answers (Some (TsObject [required ''repository'' ts_Repository])) (get_repository hx rq sv)"
    unfolding get_repository_def Let_def
    by (intro answers_intro) (auto simp: typed_bodies error_constants dest: repositories_conform [unfolded list_all_iff] errors split: option.split sum.split)
  show "answers (Some (TsObject [required ''actions'' (TsArray ts_Action)])) (get_actions hx rq sv)"
    unfolding get_actions_def Let_def
    by (intro answers_intro) (auto simp: typed_bodies error_constants dest: repositories_conform [unfolded list_all_iff] errors split: option.split sum.split)
  show "answers (Some (TsObject [required ''jobs'' (TsArray ts_Job)])) (get_jobs hx rq sv)"
    unfolding get_jobs_def Let_def
    by (intro answers_intro) (auto simp: typed_bodies error_constants dest: repositories_conform [unfolded list_all_iff] errors split: option.split sum.split)
  show "answers (Some (TsObject [required ''job'' ts_Job])) (get_job hx rq sv)"
    unfolding get_job_def Let_def
    by (intro answers_intro) (auto simp: typed_bodies error_constants dest: repositories_conform [unfolded list_all_iff] errors split: option.split sum.split)
  show "answers (Some (TsObject [required ''chunks'' (TsArray ts_OutputChunk)])) (get_job_output hx rq sv)"
    unfolding get_job_output_def Let_def
    by (intro answers_intro) (auto simp: typed_bodies error_constants dest: repositories_conform [unfolded list_all_iff] errors split: option.split sum.split)
qed

lemma write_routes_typed:
  "answers (Some ts_Session) (post_login hx rq sv)"
  "answers (Some ts_Session) (post_register hx rq sv)"
  "answers (None) (post_logout hx rq sv)"
  "answers (Some (TsObject [required ''ok'' TsTrue])) (post_push_subscribe hx rq sv)"
  "answers (None) (delete_push_subscribe hx rq sv)"
  "answers (Some ts_PairingCode) (post_pairing_codes hx rq sv)"
  "answers (Some (TsObject [required ''device'' ts_Device])) (patch_device hx rq sv)"
  "answers (None) (delete_device hx rq sv)"
  "answers (None) (delete_device_permanent hx rq sv)"
  "answers (None) (delete_repository hx rq sv)"
  "answers (Some (TsObject [required ''action'' ts_Action])) (post_actions hx rq sv)"
  "answers (None) (delete_action hx rq sv)"
  "answers (Some (TsObject [required ''job'' ts_Job])) (post_jobs hx rq sv)"
  "answers (Some (TsObject [required ''job'' ts_Job])) (post_job_cancel hx rq sv)"
proof -
  show "answers (Some ts_Session) (post_login hx rq sv)"
    unfolding post_login_def Let_def
    by (intro answers_intro) (auto simp: typed_bodies user_json_def error_constants intro!: answers_intro dest: errors split: option.split sum.split prod.split bool.split)
  show "answers (Some ts_Session) (post_register hx rq sv)"
    unfolding post_register_def Let_def
    by (auto simp: typed_bodies user_json_def error_constants intro!: answers_intro dest: errors split: option.split sum.split prod.split)
  show "answers (None) (post_logout hx rq sv)"
    unfolding post_logout_def Let_def
    by (intro answers_intro) (auto simp: typed_bodies user_json_def error_constants intro!: answers_intro dest: errors split: option.split sum.split prod.split)
  show "answers (Some (TsObject [required ''ok'' TsTrue])) (post_push_subscribe hx rq sv)"
    unfolding post_push_subscribe_def Let_def
    by (intro answers_intro) (auto simp: typed_bodies user_json_def error_constants intro!: answers_intro dest: errors split: option.split sum.split prod.split)
  show "answers (None) (delete_push_subscribe hx rq sv)"
    unfolding delete_push_subscribe_def Let_def
    by (intro answers_intro) (auto simp: typed_bodies user_json_def error_constants intro!: answers_intro dest: errors split: option.split sum.split prod.split)
  show "answers (Some ts_PairingCode) (post_pairing_codes hx rq sv)"
    unfolding post_pairing_codes_def Let_def
    by (intro answers_intro) (auto simp: typed_bodies user_json_def error_constants intro!: answers_intro dest: errors split: option.split sum.split prod.split)
  show "answers (Some (TsObject [required ''device'' ts_Device])) (patch_device hx rq sv)"
    unfolding patch_device_def Let_def
    by (intro answers_intro) (auto simp: typed_bodies user_json_def error_constants intro!: answers_intro dest: errors split: option.split sum.split prod.split)
  show "answers (None) (delete_device hx rq sv)"
    unfolding delete_device_def Let_def
    by (intro answers_intro) (auto simp: typed_bodies user_json_def error_constants intro!: answers_intro dest: errors split: option.split sum.split prod.split)
  show "answers (None) (delete_device_permanent hx rq sv)"
    unfolding delete_device_permanent_def Let_def
    by (intro answers_intro) (auto simp: typed_bodies user_json_def error_constants intro!: answers_intro dest: errors split: option.split sum.split prod.split)
  show "answers (None) (delete_repository hx rq sv)"
    unfolding delete_repository_def Let_def
    by (intro answers_intro) (auto simp: typed_bodies user_json_def error_constants intro!: answers_intro dest: errors split: option.split sum.split prod.split)
  show "answers (Some (TsObject [required ''action'' ts_Action])) (post_actions hx rq sv)"
    unfolding post_actions_def Let_def
    by (intro answers_intro) (auto simp: typed_bodies user_json_def error_constants intro!: answers_intro dest: errors split: option.split sum.split prod.split)
  show "answers (None) (delete_action hx rq sv)"
    unfolding delete_action_def Let_def
    by (intro answers_intro) (auto simp: typed_bodies user_json_def error_constants intro!: answers_intro dest: errors split: option.split sum.split prod.split)
  show "answers (Some (TsObject [required ''job'' ts_Job])) (post_jobs hx rq sv)"
    unfolding post_jobs_def start_job_def Let_def
    by (intro answers_intro) (auto simp: typed_bodies user_json_def error_constants intro!: answers_intro dest: errors split: option.split sum.split prod.split)
  show "answers (Some (TsObject [required ''job'' ts_Job])) (post_job_cancel hx rq sv)"
    unfolding post_job_cancel_def Let_def
    by (intro answers_intro) (auto simp: typed_bodies user_json_def error_constants intro!: answers_intro dest: errors split: option.split sum.split prod.split)
qed

lemma update_fields_typed:
  "answers (Some (TsObject [required ''repository'' ts_Repository])) (update_fields hx rq u i input b sv)"
  by (auto simp: update_fields_def answers_repository dest: errors split: sum.split prod.split)

lemma validating_routes_typed:
  assumes "\<And>p e. answer p = Inl e \<Longrightarrow> is_error e"
  shows "answers (Some (TsObject [required ''repository'' ts_Repository])) (post_device_repositories answer hx rq sv)"
    "answers (Some (TsObject [required ''repository'' ts_Repository])) (patch_repository answer hx rq sv)"
proof -
  have begun: "register_begin hx u i input sv = (Inl e, sv') \<Longrightarrow> is_error e"
    "register_begin hx u i input sv = (Inr (r, Inl e), sv') \<Longrightarrow> is_error e" for u i input sv e sv' r
    by (auto simp: register_begin_def error_constants dest: errors split: if_splits option.splits sum.splits prod.splits)
  have finished: "answers (Some (TsObject [required ''repository'' ts_Repository])) (register_finish hx rq u i r oc sv)"
    if "\<And>e. oc = Inl e \<Longrightarrow> is_error e" for rq u i r oc sv
    using that
    by (auto simp: register_finish_def answers_repository dest: errors validation_errors(2) split: sum.split prod.split sum.splits)
  show "answers (Some (TsObject [required ''repository'' ts_Repository])) (post_device_repositories answer hx rq sv)"
    unfolding post_device_repositories_def
    by (intro answers_intro) (auto intro!: finished dest: begun assms split: sum.split prod.split sum.splits)
  have path_begun: "change_path_begin hx r p sv = (Inl e, sv') \<Longrightarrow> is_error e"
    "change_path_begin hx r p sv = (Inr (Inl e), sv') \<Longrightarrow> is_error e" for r p sv e sv'
    by (auto simp: change_path_begin_def dest: errors split: if_splits option.splits sum.splits prod.splits)
  have path_finished: "change_path_finish hx r input oc sv = (Some e, sv') \<Longrightarrow> (\<forall>e. oc = Inl e \<longrightarrow> is_error e) \<Longrightarrow> is_error e" for r input oc sv e sv'
    by (auto simp: change_path_finish_def Let_def dest: errors validation_errors(2) split: if_splits sum.splits prod.splits)
  have answered: "change_path_finish hx r input (answer p) sv = (Some e, sv') \<Longrightarrow> is_error e" for r input p sv e sv'
    using path_finished assms by blast
  show "answers (Some (TsObject [required ''repository'' ts_Repository])) (patch_repository answer hx rq sv)"
    unfolding patch_repository_def
    by (intro answers_intro)
      (auto simp: update_fields_typed error_constants dest: path_begun path_finished answered split: option.split sum.split prod.split)
qed

lemma calls_answered:
  assumes "\<And>p e. os_answer out p = Inl e \<Longrightarrow> is_error e" and "call_route c = (h, params)"
  shows "answers (response_type c) (h out hx rq sv)"
  using assms(2) by (cases c) (auto simp: read_routes_typed write_routes_typed validating_routes_typed assms(1))

text \<open>
  C32. What the browser reads is what it declares. Whenever a call of the browser's client succeeds against
  the server, whatever the state, the request and the identifiers in the call, the value it returns has
  the type the client declares for it in \<open>types.ts\<close>: every required field is there with its type, optional
  ones have it when present, and a call declared \<open>void\<close> returns nothing.
\<close>

theorem responses_have_declared_types:
  assumes "id_ok c" and "\<And>p e. os_answer out p = Inl e \<Longrightarrow> is_error e" and "served_call out hx rq c sv = (Inr x, sv')"
  shows "case response_type c of None \<Rightarrow> x = None | Some t \<Rightarrow> \<exists>j. x = Some j \<and> conforms t j"
proof -
  obtain meth path query body where call: "call_request c = (meth, path, query, body)"
    by (metis prod.exhaust)
  obtain h params where route: "call_route c = (h, params)"
    by fastforce
  have found: "find_route meth (''/api'' @ path) routes = Some (h, params)"
    using call_reaches [OF assms(1)] by (simp add: call route find_route_segments route_segments_def)
  obtain response where served: "serve out hx meth (''/api'' @ path) (rq\<lparr>rq_body := body\<rparr>) sv = (response, sv')"
      "snd (read_response (Fetched (rs_status response) (rs_body response))) = Inr x"
    using assms(3) by (auto simp: served_call_eq call split: prod.splits)
  then have ok: "200 \<le> rs_status response" "rs_status response \<le> 299"
    by (auto simp: read_response_def Let_def split: if_splits option.splits)
  have "well_typed (response_type c) response"
  proof (cases "origin_guard (hx_env hx) (''/api'' @ path) (rq\<lparr>rq_body := body\<rparr>)")
    case (Some e)
    then have "is_error e"
      by (auto simp: origin_guard_def split: if_splits option.splits)
    with served(1) Some ok error_status [of e "rq_id rq"] show ?thesis
      by (auto simp: serve_def handle_def)
  next
    case None
    obtain res sv2 where run: "h out hx (rq\<lparr>rq_body := body, rq_params := params\<rparr>) sv = (res, sv2)"
      by fastforce
    have "answers (response_type c) (res, sv2)"
      using calls_answered [where out = out, OF _ route, of hx "rq\<lparr>rq_body := body, rq_params := params\<rparr>" sv] assms(2) by (simp add: run)
    with served(1) None found run ok error_status [of _ "rq_id rq"] show ?thesis
      by (cases res) (fastforce simp: serve_def handle_def answers_def)+
  qed
  then show ?thesis
    using served(2) ok by (simp add: well_typed_def read_response_def split: option.splits if_splits) metis
qed

theorem responses_have_declared_types_witness:
  "\<exists>j. fst (served_call example_outside (example_http 5) (signed_in example_request) CallDevices (example_server example_tables)) = Inr (Some j) \<and>
    conforms (TsObject [required ''devices'' (TsArray ts_Device)]) j"
proof -
  let ?rq = "(signed_in example_request)\<lparr>rq_params := []\<rparr>" and ?sv = "example_server example_tables"
  let ?call = "served_call example_outside (example_http 5) (signed_in example_request) CallDevices ?sv"
  have same: "(signed_in example_request)\<lparr>rq_body := None, rq_params := []\<rparr> = ?rq"
    by (simp add: signed_in_def example_request_def)
  have "find_route ''GET'' ''/api/devices'' routes = Some (\<lambda>out. get_devices, [])"
    using call_reaches [of CallDevices] by (simp add: id_ok_def find_route_segments route_segments_def)
  moreover have "origin_guard (hx_env (example_http 5)) ''/api/devices'' ((signed_in example_request)\<lparr>rq_body := None\<rparr>) = None"
    by code_simp
  moreover have "case fst (get_devices (example_http 5) ?rq ?sv) of Inl e \<Rightarrow> False | Inr r \<Rightarrow> rs_status r = 200 \<and> rs_body r \<noteq> None"
    by code_simp
  ultimately have "\<exists>j. fst ?call = Inr (Some j)"
    by (auto simp: served_call_eq serve_def handle_def same read_response_def split: prod.split sum.splits)
  then obtain j where j: "?call = (Inr (Some j), snd ?call)"
    by (metis prod.collapse)
  have "id_ok CallDevices"
    by (simp add: id_ok_def)
  from responses_have_declared_types [OF this _ j] show ?thesis
    using j by (auto simp: example_outside_def) (metis fst_conv)
qed

end
