(* ===== verification/Tenants.thy ===== *)
theory Tenants
  imports App
begin

section \<open>Users are kept apart\<close>

text \<open>
  What a request of one user may do to the rows of all others, over every route behind the session. The rows
  that belong to other users are given by the sets of their identifiers (\<open>foreign\<close>); \<open>separates\<close> says that the
  sets tell own and foreign rows apart in every table, and every step of every handler keeps that and the
  foreign rows.
\<close>

record foreign =
  fo_devices :: "ident set"
  fo_repositories :: "ident set"
  fo_actions :: "ident set"
  fo_jobs :: "ident set"
  fo_sessions :: "ident set"

definition device_apart :: "foreign \<Rightarrow> ident \<Rightarrow> device \<Rightarrow> bool" where
  "device_apart F u r \<longleftrightarrow> (dev_id r \<in> fo_devices F \<longleftrightarrow> dev_userId r \<noteq> u)"

definition session_apart :: "foreign \<Rightarrow> ident \<Rightarrow> session \<Rightarrow> bool" where
  "session_apart F u r \<longleftrightarrow> (ses_id r \<in> fo_sessions F \<longleftrightarrow> ses_userId r \<noteq> u)"

definition repository_apart :: "foreign \<Rightarrow> repository \<Rightarrow> bool" where
  "repository_apart F r \<longleftrightarrow> (repo_id r \<in> fo_repositories F \<longleftrightarrow> repo_deviceId r \<in> fo_devices F)"

definition action_apart :: "foreign \<Rightarrow> action \<Rightarrow> bool" where
  "action_apart F r \<longleftrightarrow> (act_id r \<in> fo_actions F \<longleftrightarrow> act_repositoryId r \<in> fo_repositories F)"

definition job_apart :: "foreign \<Rightarrow> ident \<Rightarrow> job \<Rightarrow> bool" where
  "job_apart F u r \<longleftrightarrow> (job_id r \<in> fo_jobs F \<longleftrightarrow> job_deviceId r \<in> fo_devices F) \<and>
     (job_userId r = u \<longrightarrow> job_deviceId r \<notin> fo_devices F) \<and>
     (job_deviceId r \<in> fo_devices F \<longrightarrow> set_option (job_actionId r) \<subseteq> fo_actions F)"

definition separates :: "foreign \<Rightarrow> ident \<Rightarrow> db \<Rightarrow> bool" where
  "separates F u d \<longleftrightarrow>
     (\<forall>r \<in> set (db_sessions d). session_apart F u r) \<and> (\<forall>r \<in> set (db_devices d). device_apart F u r) \<and>
     (\<forall>r \<in> set (db_repositories d). repository_apart F r) \<and> (\<forall>r \<in> set (db_actions d). action_apart F r) \<and>
     (\<forall>r \<in> set (db_jobs d). job_apart F u r)"

lemmas apart_defs = device_apart_def session_apart_def repository_apart_def action_apart_def job_apart_def

text \<open>The tables without the rows of the user; the audit log and the counter are left out.\<close>

definition others :: "foreign \<Rightarrow> ident \<Rightarrow> db \<Rightarrow> (user list \<times> session list \<times> device list \<times> credential list \<times> pairing_code list) \<times>
    repository list \<times> action list \<times> job list \<times> chunk list \<times> push_subscription list" where
  "others F u d =
     ((db_users d, filter (\<lambda>r. ses_userId r \<noteq> u) (db_sessions d), filter (\<lambda>r. dev_userId r \<noteq> u) (db_devices d),
       filter (\<lambda>r. cred_deviceId r \<in> fo_devices F) (db_credentials d), filter (\<lambda>r. pc_userId r \<noteq> u) (db_pairingCodes d)),
      filter (\<lambda>r. repo_deviceId r \<in> fo_devices F) (db_repositories d),
      filter (\<lambda>r. act_repositoryId r \<in> fo_repositories F) (db_actions d),
      filter (\<lambda>r. job_deviceId r \<in> fo_devices F) (db_jobs d),
      filter (\<lambda>c. ch_jobId c \<in> fo_jobs F) (db_chunks d),
      filter (\<lambda>r. ps_userId r \<noteq> u) (db_push d))"

definition spares_others :: "foreign \<Rightarrow> ident \<Rightarrow> db \<Rightarrow> db \<Rightarrow> bool" where
  "spares_others F u d d' \<longleftrightarrow> (separates F u d \<longrightarrow> separates F u d' \<and> others F u d' = others F u d)"

lemma others_refl [simp]: "spares_others F u d d"
  by (simp add: spares_others_def)

lemma others_trans [trans]: "spares_others F u d d' \<Longrightarrow> spares_others F u d' d'' \<Longrightarrow> spares_others F u d d''"
  by (auto simp: spares_others_def)

lemma spares_audited [simp]: "spares_others F u d (audited hx n rq a us dv md d') = spares_others F u d d'"
  by (simp add: spares_others_def separates_def others_def)

subsection \<open>What a handler writes\<close>

lemma filter_updateMany_own:
  "(\<And>r. r \<in> set rows \<Longrightarrow> P r \<Longrightarrow> \<not> Q r \<and> \<not> Q (f r)) \<Longrightarrow> filter Q (updateMany P f rows) = filter Q rows"
  by (induction rows) auto

lemma filter_deleteMany_own: "(\<And>r. r \<in> set rows \<Longrightarrow> P r \<Longrightarrow> \<not> Q r) \<Longrightarrow> filter Q (deleteMany P rows) = filter Q rows"
  by (induction rows) auto

lemma sparesI:
  assumes "separates F u d \<Longrightarrow> separates F u d'" and "separates F u d \<Longrightarrow> others F u d' = others F u d"
  shows "spares_others F u d d'"
  using assms by (simp add: spares_others_def)

lemma spares_devices:
  assumes "i \<notin> fo_devices F" and f: "\<And>r. dev_id (f r) = dev_id r" "\<And>r. dev_userId (f r) = dev_userId r"
  shows "spares_others F u d (d\<lparr>db_devices := updateMany (\<lambda>r. dev_id r = i) f (db_devices d)\<rparr>)"
proof (rule sparesI)
  have keep: "device_apart F u r \<Longrightarrow> device_apart F u (f r)" for r
    by (simp add: device_apart_def f)
  assume sep: "separates F u d"
  then show "separates F u (d\<lparr>db_devices := updateMany (\<lambda>r. dev_id r = i) f (db_devices d)\<rparr>)"
    by (auto simp: separates_def set_updateMany keep)
  have "filter (\<lambda>r. dev_userId r \<noteq> u) (updateMany (\<lambda>r. dev_id r = i) f (db_devices d)) = filter (\<lambda>r. dev_userId r \<noteq> u) (db_devices d)"
    by (rule filter_updateMany_own) (use sep assms(1) in \<open>auto simp: separates_def apart_defs f\<close>)
  then show "others F u (d\<lparr>db_devices := updateMany (\<lambda>r. dev_id r = i) f (db_devices d)\<rparr>) = others F u d"
    by (simp add: others_def)
qed

lemma spares_repositories:
  assumes "i \<notin> fo_repositories F" and f: "\<And>r. repo_id (f r) = repo_id r" "\<And>r. repo_deviceId (f r) = repo_deviceId r"
  shows "spares_others F u d (d\<lparr>db_repositories := updateMany (\<lambda>r. repo_id r = i) f (db_repositories d)\<rparr>)"
proof (rule sparesI)
  have keep: "repository_apart F r \<Longrightarrow> repository_apart F (f r)" for r
    by (simp add: repository_apart_def f)
  assume sep: "separates F u d"
  then show "separates F u (d\<lparr>db_repositories := updateMany (\<lambda>r. repo_id r = i) f (db_repositories d)\<rparr>)"
    by (auto simp: separates_def set_updateMany keep)
  have "filter (\<lambda>r. repo_deviceId r \<in> fo_devices F) (updateMany (\<lambda>r. repo_id r = i) f (db_repositories d)) = filter (\<lambda>r. repo_deviceId r \<in> fo_devices F) (db_repositories d)"
    by (rule filter_updateMany_own) (use sep assms(1) in \<open>auto simp: separates_def apart_defs f\<close>)
  then show "others F u (d\<lparr>db_repositories := updateMany (\<lambda>r. repo_id r = i) f (db_repositories d)\<rparr>) = others F u d"
    by (simp add: others_def)
qed

lemma spares_actions:
  assumes "i \<notin> fo_actions F" and f: "\<And>r. act_id (f r) = act_id r" "\<And>r. act_repositoryId (f r) = act_repositoryId r"
  shows "spares_others F u d (d\<lparr>db_actions := updateMany (\<lambda>r. act_id r = i) f (db_actions d)\<rparr>)"
proof (rule sparesI)
  have keep: "action_apart F r \<Longrightarrow> action_apart F (f r)" for r
    by (simp add: action_apart_def f)
  assume sep: "separates F u d"
  then show "separates F u (d\<lparr>db_actions := updateMany (\<lambda>r. act_id r = i) f (db_actions d)\<rparr>)"
    by (auto simp: separates_def set_updateMany keep)
  have "filter (\<lambda>r. act_repositoryId r \<in> fo_repositories F) (updateMany (\<lambda>r. act_id r = i) f (db_actions d)) = filter (\<lambda>r. act_repositoryId r \<in> fo_repositories F) (db_actions d)"
    by (rule filter_updateMany_own) (use sep assms(1) in \<open>auto simp: separates_def apart_defs f\<close>)
  then show "others F u (d\<lparr>db_actions := updateMany (\<lambda>r. act_id r = i) f (db_actions d)\<rparr>) = others F u d"
    by (simp add: others_def)
qed

lemma spares_jobs:
  assumes "\<And>r. P r \<Longrightarrow> job_apart F u r \<Longrightarrow> job_deviceId r \<notin> fo_devices F"
    and f: "\<And>r. job_id (f r) = job_id r" "\<And>r. job_deviceId (f r) = job_deviceId r" "\<And>r. job_userId (f r) = job_userId r"
      "\<And>r. set_option (job_actionId (f r)) \<subseteq> set_option (job_actionId r)"
  shows "spares_others F u d (d\<lparr>db_jobs := updateMany P f (db_jobs d)\<rparr>)"
proof (rule sparesI)
  assume sep: "separates F u d"
  have "job_apart F u r \<Longrightarrow> job_apart F u (f r)" for r
    using f(4) [of r] by (auto simp: job_apart_def f(1-3))
  then show "separates F u (d\<lparr>db_jobs := updateMany P f (db_jobs d)\<rparr>)"
    using sep by (auto simp: separates_def set_updateMany)
  have "filter (\<lambda>r. job_deviceId r \<in> fo_devices F) (updateMany P f (db_jobs d)) = filter (\<lambda>r. job_deviceId r \<in> fo_devices F) (db_jobs d)"
    by (rule filter_updateMany_own) (use sep assms(1) in \<open>auto simp: separates_def f\<close>)
  then show "others F u (d\<lparr>db_jobs := updateMany P f (db_jobs d)\<rparr>) = others F u d"
    by (simp add: others_def)
qed

lemma spares_updateJob:
  assumes "j \<notin> fo_jobs F" and "\<And>r. job_id (f r) = job_id r" "\<And>r. job_deviceId (f r) = job_deviceId r"
    "\<And>r. job_userId (f r) = job_userId r" "\<And>r. job_actionId (f r) = job_actionId r"
  shows "spares_others F u d (snd (updateJob now j f d))"
  using assms by (auto simp: updateJob_def updateUnique_def job_apart_def split: option.split prod.split intro!: spares_jobs)

lemma spares_delete_repositories:
  assumes "delete_repositories P d = Inr d'" and own: "\<And>r. P r \<Longrightarrow> repository_apart F r \<Longrightarrow> repo_id r \<notin> fo_repositories F"
  shows "spares_others F u d d'"
proof (rule sparesI)
  let ?gone = "repo_id ` {r \<in> set (db_repositories d). P r}"
  have d': "d' = d\<lparr>db_repositories := deleteMany P (db_repositories d),
      db_actions := deleteMany (\<lambda>a. act_repositoryId a \<in> ?gone) (db_actions d)\<rparr>"
    using assms(1) by (simp add: delete_repositories_def Let_def split: if_splits)
  assume sep: "separates F u d"
  then show "separates F u d'"
    by (simp add: d' separates_def)
  have gone: "r \<in> set (db_repositories d) \<Longrightarrow> P r \<Longrightarrow> repo_id r \<notin> fo_repositories F \<and> repo_deviceId r \<notin> fo_devices F" for r
    using sep own [of r] by (auto simp: separates_def repository_apart_def)
  have "filter (\<lambda>r. repo_deviceId r \<in> fo_devices F) (deleteMany P (db_repositories d)) = filter (\<lambda>r. repo_deviceId r \<in> fo_devices F) (db_repositories d)"
    by (rule filter_deleteMany_own) (simp add: gone)
  moreover have "filter (\<lambda>r. act_repositoryId r \<in> fo_repositories F) (deleteMany (\<lambda>a. act_repositoryId a \<in> ?gone) (db_actions d)) =
      filter (\<lambda>r. act_repositoryId r \<in> fo_repositories F) (db_actions d)"
    by (rule filter_deleteMany_own) (use gone in auto)
  ultimately show "others F u d' = others F u d"
    by (simp add: d' others_def)
qed

lemma spares_delete_jobs:
  assumes own: "\<And>r. P r \<Longrightarrow> job_deviceId r \<notin> fo_devices F"
  shows "spares_others F u d (delete_jobs P d)"
proof (rule sparesI)
  assume sep: "separates F u d"
  then show "separates F u (delete_jobs P d)"
    by (simp add: delete_jobs_def separates_def)
  have gone: "r \<in> set (db_jobs d) \<Longrightarrow> P r \<Longrightarrow> job_id r \<notin> fo_jobs F" for r
    using sep own [of r] by (auto simp: separates_def job_apart_def)
  have "filter (\<lambda>r. job_deviceId r \<in> fo_devices F) (deleteMany P (db_jobs d)) = filter (\<lambda>r. job_deviceId r \<in> fo_devices F) (db_jobs d)"
    by (rule filter_deleteMany_own) (simp add: own)
  moreover have "filter (\<lambda>c. ch_jobId c \<in> fo_jobs F) (deleteMany (\<lambda>c. \<exists>r \<in> set (db_jobs d). P r \<and> job_id r = ch_jobId c) (db_chunks d)) =
      filter (\<lambda>c. ch_jobId c \<in> fo_jobs F) (db_chunks d)"
    by (rule filter_deleteMany_own) (use gone in metis)
  ultimately show "others F u (delete_jobs P d) = others F u d"
    by (simp add: delete_jobs_def others_def)
qed

lemma spares_delete_device_row:
  assumes "delete_device_row i d = Inr d'" and "i \<notin> fo_devices F"
  shows "spares_others F u d d'"
proof (rule sparesI)
  have d': "db_devices d' = deleteMany (\<lambda>r. dev_id r = i) (db_devices d)" "db_credentials d' = deleteMany (\<lambda>r. cred_deviceId r = i) (db_credentials d)"
    "db_users d' = db_users d" "db_sessions d' = db_sessions d" "db_pairingCodes d' = db_pairingCodes d" "db_repositories d' = db_repositories d"
    "db_actions d' = db_actions d" "db_jobs d' = db_jobs d" "db_chunks d' = db_chunks d" "db_push d' = db_push d"
    using assms(1) by (auto simp: delete_device_row_def split: if_splits)
  assume sep: "separates F u d"
  then show "separates F u d'"
    by (simp add: d' separates_def)
  have "filter (\<lambda>r. dev_userId r \<noteq> u) (deleteMany (\<lambda>r. dev_id r = i) (db_devices d)) = filter (\<lambda>r. dev_userId r \<noteq> u) (db_devices d)"
    by (rule filter_deleteMany_own) (use sep assms(2) in \<open>auto simp: separates_def device_apart_def\<close>)
  moreover have "filter (\<lambda>r. cred_deviceId r \<in> fo_devices F) (deleteMany (\<lambda>r. cred_deviceId r = i) (db_credentials d)) =
      filter (\<lambda>r. cred_deviceId r \<in> fo_devices F) (db_credentials d)"
    by (rule filter_deleteMany_own) (simp add: assms(2))
  ultimately show "others F u d' = others F u d"
    by (simp add: d' others_def)
qed

subsection \<open>What a request finds is the user's own\<close>

lemma spares_when: "(separates F u d \<Longrightarrow> spares_others F u d d') \<Longrightarrow> spares_others F u d d'"
  by (auto simp: spares_others_def)

lemma own_device: "findUserDevice u i d = Some dev \<Longrightarrow> separates F u d \<Longrightarrow> i \<notin> fo_devices F \<and> dev_id dev = i"
  by (auto simp: findUserDevice_def separates_def device_apart_def dest!: find_SomeD)

lemma owns_device_own: "owns_device u i d \<Longrightarrow> separates F u d \<Longrightarrow> i \<notin> fo_devices F"
  by (auto simp: owns_device_def findDevice_def separates_def device_apart_def split: option.splits dest!: find_SomeD)

lemma own_repository:
  "findUserRepository u i d = Some r \<Longrightarrow> separates F u d \<Longrightarrow> i \<notin> fo_repositories F \<and> repo_id r = i \<and> repo_deviceId r \<notin> fo_devices F"
proof -
  assume "findUserRepository u i d = Some r" and sep: "separates F u d"
  then have r: "r \<in> set (db_repositories d)" "repo_id r = i" "owns_device u (repo_deviceId r) d"
    by (auto simp: findUserRepository_def dest!: find_SomeD)
  have "repository_apart F r"
    using sep r(1) by (simp add: separates_def)
  with owns_device_own [OF r(3) sep] r(2) show ?thesis
    by (simp add: repository_apart_def)
qed

lemma own_action: "findUserAction u i d = Some a \<Longrightarrow> separates F u d \<Longrightarrow> i \<notin> fo_actions F"
proof -
  assume "findUserAction u i d = Some a" and sep: "separates F u d"
  then obtain r where a: "a \<in> set (db_actions d)" "act_id a = i" "findRepository (act_repositoryId a) d = Some r"
      "owns_device u (repo_deviceId r) d"
    by (auto simp: findUserAction_def split: option.splits dest!: find_SomeD)
  then have r: "r \<in> set (db_repositories d)" "repo_id r = act_repositoryId a"
    by (auto simp: findRepository_def dest!: find_SomeD)
  have "repository_apart F r" "action_apart F a"
    using sep r(1) a(1) by (simp_all add: separates_def)
  with owns_device_own [OF a(4) sep] a(2) r(2) show ?thesis
    by (simp add: repository_apart_def action_apart_def)
qed

lemma own_job: "findUserJob u j d = Some job \<Longrightarrow> separates F u d \<Longrightarrow> j \<notin> fo_jobs F"
  by (auto simp: findUserJob_def separates_def job_apart_def dest!: find_SomeD)

lemma authenticate_own:
  assumes "authenticate hx rq d = (Inr a, d')"
  shows "spares_others F (ax_userId a) d d'" and "separates F (ax_userId a) d \<Longrightarrow> ax_sessionId a \<notin> fo_sessions F"
proof -
  obtain s us where s: "s \<in> set (db_sessions d)" "ax_sessionId a = ses_id s" "findUser (ses_userId s) d = Some us" "ax_userId a = usr_id us"
    using assms by (auto simp: authenticate_def Let_def split: option.splits if_splits dest!: find_SomeD)
  then have user: "ses_userId s = ax_userId a"
    by (auto simp: findUser_def dest: find_SomeD)
  show own: "separates F (ax_userId a) d \<Longrightarrow> ax_sessionId a \<notin> fo_sessions F"
    using s(1,2) user by (auto simp: separates_def session_apart_def)
  let ?d = "d\<lparr>db_sessions := updateMany (\<lambda>r. ses_id r = ax_sessionId a) (\<lambda>r. r\<lparr>ses_lastUsedAt := hx_now hx\<rparr>) (db_sessions d)\<rparr>"
  have "spares_others F (ax_userId a) d ?d"
  proof (rule sparesI)
    assume sep: "separates F (ax_userId a) d"
    have keep: "session_apart F (ax_userId a) r \<Longrightarrow> session_apart F (ax_userId a) (r\<lparr>ses_lastUsedAt := hx_now hx\<rparr>)" for r
      by (simp add: session_apart_def)
    from sep show "separates F (ax_userId a) ?d"
      by (auto simp: separates_def set_updateMany keep)
    have "filter (\<lambda>r. ses_userId r \<noteq> ax_userId a) (db_sessions ?d) = filter (\<lambda>r. ses_userId r \<noteq> ax_userId a) (db_sessions d)"
      using sep own [OF sep] by (simp, intro filter_updateMany_own) (auto simp: separates_def session_apart_def)
    then show "others F (ax_userId a) ?d = others F (ax_userId a) d"
      by (simp add: others_def)
  qed
  moreover have "d' = d \<or> d' = ?d"
    using authenticate_refreshes [where hx = hx and rq = rq and d = d] by (simp add: assms)
  ultimately show "spares_others F (ax_userId a) d d'"
    by auto
qed

subsection \<open>Handlers\<close>

definition keeps_others :: "foreign \<Rightarrow> ident \<Rightarrow> (server \<Rightarrow> outcome) \<Rightarrow> bool" where
  "keeps_others F u k \<longleftrightarrow> (\<forall>sv. spares_others F u (sdb sv) (sdb (snd (k sv))))"

lemma keeps_parsed: "(\<And>x. p = Some x \<Longrightarrow> keeps_others F u (k x)) \<Longrightarrow> keeps_others F u (with_parsed p k)"
  by (auto simp: keeps_others_def with_parsed_def split: option.split)

lemma keeps_owner: "rq_auth rq = Some a \<Longrightarrow> keeps_others F u (k (ax_userId a)) \<Longrightarrow> keeps_others F u (with_owner rq k)"
  by (auto simp: keeps_others_def with_owner_def)

lemma keepsI: "(\<And>sv. separates F u (sdb sv) \<Longrightarrow> spares_others F u (sdb sv) (sdb (snd (k sv)))) \<Longrightarrow> keeps_others F u k"
  by (auto simp: keeps_others_def intro: spares_when)

lemma keeps_auth:
  assumes "authenticate hx rq (sdb sv) = (Inr a, d)" and "keeps_others F (ax_userId a) (k (rq\<lparr>rq_auth := Some a\<rparr>))"
  shows "spares_others F (ax_userId a) (sdb sv) (sdb (snd (requireAuth hx rq k sv)))"
proof -
  have "spares_others F (ax_userId a) d (sdb (snd (k (rq\<lparr>rq_auth := Some a\<rparr>) (on_db (\<lambda>_. d) sv))))"
    using assms(2) unfolding keeps_others_def by (metis sdb_on_db)
  with authenticate_own(1) [OF assms(1)] show ?thesis
    by (simp add: requireAuth_def assms(1)) (rule others_trans)
qed

lemma keeps_auth_csrf:
  assumes "authenticate hx rq (sdb sv) = (Inr a, d)" and "keeps_others F (ax_userId a) (k (rq\<lparr>rq_auth := Some a\<rparr>))"
  shows "spares_others F (ax_userId a) (sdb sv) (sdb (snd (requireAuthCsrf hx rq k sv)))"
  unfolding requireAuthCsrf_def
  by (rule keeps_auth [OF assms(1)]) (use assms(2) in \<open>auto simp: keeps_others_def split: option.split\<close>)

lemma updateUnique_D: "updateUnique P f rows = (x, rows') \<Longrightarrow> rows' = updateMany P f rows \<or> rows' = rows"
  by (auto simp: updateUnique_def split: option.splits)

lemma updateKeyed_D: "updateKeyed ident key i f rows = (x, rows') \<Longrightarrow> rows' = updateMany (\<lambda>r. ident r = i) f rows \<or> rows' = rows"
  by (auto simp: updateKeyed_def split: option.splits if_splits)

definition reads_only :: "(server \<Rightarrow> outcome) \<Rightarrow> bool" where
  "reads_only k \<longleftrightarrow> (\<forall>sv. sdb (snd (k sv)) = sdb sv)"

lemma reads_parsed: "(\<And>x. reads_only (k x)) \<Longrightarrow> reads_only (with_parsed p k)"
  by (auto simp: reads_only_def with_parsed_def split: option.split)

lemma reads_owner: "(\<And>u. reads_only (k u)) \<Longrightarrow> reads_only (with_owner rq k)"
  by (auto simp: reads_only_def with_owner_def split: option.split)

lemma keeps_reads: "reads_only k \<Longrightarrow> keeps_others F u k"
  by (simp add: reads_only_def keeps_others_def)

lemma reading_routes_spare:
  assumes auth: "authenticate hx rq (sdb sv) = (Inr a, d)"
  shows "spares_others F (ax_userId a) (sdb sv) (sdb (snd (get_session hx rq sv)))"
    "spares_others F (ax_userId a) (sdb sv) (sdb (snd (get_devices hx rq sv)))"
    "spares_others F (ax_userId a) (sdb sv) (sdb (snd (get_device hx rq sv)))"
    "spares_others F (ax_userId a) (sdb sv) (sdb (snd (get_device_repositories hx rq sv)))"
    "spares_others F (ax_userId a) (sdb sv) (sdb (snd (get_repository hx rq sv)))"
    "spares_others F (ax_userId a) (sdb sv) (sdb (snd (get_actions hx rq sv)))"
    "spares_others F (ax_userId a) (sdb sv) (sdb (snd (get_jobs hx rq sv)))"
    "spares_others F (ax_userId a) (sdb sv) (sdb (snd (get_job hx rq sv)))"
    "spares_others F (ax_userId a) (sdb sv) (sdb (snd (get_job_output hx rq sv)))"
    "spares_others F (ax_userId a) (sdb sv) (sdb (snd (get_push_config hx rq sv)))"
  unfolding get_session_def get_devices_def get_device_def get_device_repositories_def get_repository_def get_actions_def get_jobs_def get_job_def get_job_output_def get_push_config_def
  by (intro keeps_auth [OF auth keeps_reads] reads_parsed reads_owner;
      auto simp: reads_only_def Let_def reply_repository_def split: option.split sum.split)+

lemma session_routes_spare:
  assumes "r \<in> set session_routes" and "authenticate hx rq (sdb sv) = (Inr a, d)"
  shows "spares_others F (ax_userId a) (sdb sv) (sdb (snd (snd (snd r) out hx rq sv)))"
  using assms(1) reading_routes_spare [OF assms(2)] by (auto simp: session_routes_def)

text \<open>Sessions, pairing codes and push subscriptions name their user.\<close>

lemma logout_spares:
  assumes auth: "authenticate hx rq (sdb sv) = (Inr a, d)"
  shows "spares_others F (ax_userId a) (sdb sv) (sdb (snd (post_logout hx rq sv)))"
proof -
  have revoke: "spares_others F (ax_userId a) d (snd (revokeCurrent hx (rq\<lparr>rq_auth := Some a\<rparr>) d))"
    if own: "separates F (ax_userId a) d \<Longrightarrow> ax_sessionId a \<notin> fo_sessions F" for d
  proof (rule sparesI)
    assume sep: "separates F (ax_userId a) d"
    have keep: "session_apart F (ax_userId a) r \<Longrightarrow> session_apart F (ax_userId a) (r\<lparr>ses_revokedAt := Some (hx_now hx)\<rparr>)" for r
      by (simp add: session_apart_def)
    from sep show "separates F (ax_userId a) (snd (revokeCurrent hx (rq\<lparr>rq_auth := Some a\<rparr>) d))"
      by (auto simp: revokeCurrent_def separates_def set_updateMany keep)
    have "filter (\<lambda>r. ses_userId r \<noteq> ax_userId a) (db_sessions (snd (revokeCurrent hx (rq\<lparr>rq_auth := Some a\<rparr>) d))) =
        filter (\<lambda>r. ses_userId r \<noteq> ax_userId a) (db_sessions d)"
      using sep own [OF sep] by (simp add: revokeCurrent_def, intro filter_updateMany_own) (auto simp: separates_def session_apart_def)
    then show "others F (ax_userId a) (snd (revokeCurrent hx (rq\<lparr>rq_auth := Some a\<rparr>) d)) = others F (ax_userId a) d"
      by (simp add: revokeCurrent_def others_def)
  qed
  have revoked: "spares_others F (ax_userId a) d d'"
    if "revokeCurrent hx (rq\<lparr>rq_auth := Some a\<rparr>) d = (cookies, d')" "ax_sessionId a \<notin> fo_sessions F" for d d' cookies
    using revoke [of d] that by simp
  have own: "ax_sessionId a \<notin> fo_sessions F" if "separates F (ax_userId a) (sdb sv)"
    using authenticate_own(2) [OF auth that] .
  show ?thesis
  proof (rule spares_when)
    assume "separates F (ax_userId a) (sdb sv)"
    note own [OF this]
    then show "spares_others F (ax_userId a) (sdb sv) (sdb (snd (post_logout hx rq sv)))"
      unfolding post_logout_def
      by (intro keeps_auth_csrf [OF auth] keepsI) (auto split: prod.split intro: revoked)
  qed
qed

lemma pairing_codes_spare:
  assumes auth: "authenticate hx rq (sdb sv) = (Inr a, d)"
  shows "spares_others F (ax_userId a) (sdb sv) (sdb (snd (post_pairing_codes hx rq sv)))"
  unfolding post_pairing_codes_def Let_def
  by (intro keeps_auth_csrf [OF auth] keeps_owner [where a = a] keepsI)
    (auto simp: createUnique_def others_def separates_def intro!: sparesI keeps_owner [where a = a])

lemma evict_oldest_other: "filter (\<lambda>r. ps_userId r \<noteq> u) (evict_oldest u rows) = filter (\<lambda>r. ps_userId r \<noteq> u) rows"
  by (auto simp: evict_oldest_def split: list.split intro!: filter_deleteMany_own)

lemma store_subscription_other:
  "filter (\<lambda>r. ps_userId r \<noteq> u) (snd (store_subscription hx u input ua rows)) = filter (\<lambda>r. ps_userId r \<noteq> u) rows"
  by (auto simp: store_subscription_def Let_def createUnique_def new_subscription_def evict_oldest_other refresh_subscription_def
      intro!: filter_updateMany_own trans [OF filter_updateMany_own evict_oldest_other])

lemma spares_push:
  "filter (\<lambda>r. ps_userId r \<noteq> u) rows = filter (\<lambda>r. ps_userId r \<noteq> u) (db_push d) \<Longrightarrow> spares_others F u d (d\<lparr>db_push := rows\<rparr>)"
  by (auto simp: spares_others_def separates_def others_def)

lemma push_routes_spare:
  assumes auth: "authenticate hx rq (sdb sv) = (Inr a, d)"
  shows "spares_others F (ax_userId a) (sdb sv) (sdb (snd (post_push_subscribe hx rq sv)))"
    "spares_others F (ax_userId a) (sdb sv) (sdb (snd (delete_push_subscribe hx rq sv)))"
proof -
  have store: "filter (\<lambda>r. ps_userId r \<noteq> u) rows' = filter (\<lambda>r. ps_userId r \<noteq> u) rows"
    if "store_subscription hx u input ua rows = (e, rows')" for u input ua rows e rows'
    using store_subscription_other [of u hx input ua rows] by (simp add: that)
  have "keeps_others F (ax_userId a) (with_owner (rq\<lparr>rq_auth := Some a\<rparr>) (\<lambda>userId. with_parsed p (\<lambda>input sv.
         case store_subscription hx userId input ua (db_push (sdb sv)) of
           (Some e, rows) \<Rightarrow> fail e (on_db (\<lambda>d. d\<lparr>db_push := rows\<rparr>) sv)
         | (None, rows) \<Rightarrow>
             reply (json_reply 201 (JObj [(''ok'', JBool True)]))
               (on_db (\<lambda>d. audited hx 1 (rq\<lparr>rq_auth := Some a\<rparr>) ''push.subscribe'' (Some userId) None None (d\<lparr>db_push := rows\<rparr>)) sv))))" for p ua
    by (intro keeps_owner [where a = a] keeps_parsed keepsI) (auto split: prod.split option.split intro!: spares_push dest: store)
  then show "spares_others F (ax_userId a) (sdb sv) (sdb (snd (post_push_subscribe hx rq sv)))"
    unfolding post_push_subscribe_def
    by (intro keeps_auth_csrf [OF auth]) (auto simp: keeps_others_def)
  show "spares_others F (ax_userId a) (sdb sv) (sdb (snd (delete_push_subscribe hx rq sv)))"
    unfolding delete_push_subscribe_def
    by (intro keeps_auth_csrf [OF auth] keeps_owner [where a = a] keeps_parsed keepsI) (auto intro!: spares_push filter_deleteMany_own)
qed

subsection \<open>Devices\<close>

lemma spares_devices_updated:
  assumes "updateUnique (\<lambda>r. dev_id r = i) f (db_devices d) = (x, rows)" and "i \<notin> fo_devices F"
    and "\<And>r. dev_id (f r) = dev_id r" "\<And>r. dev_userId (f r) = dev_userId r"
  shows "spares_others F u d (d\<lparr>db_devices := rows\<rparr>)"
  using updateUnique_D [OF assms(1)] spares_devices [OF assms(2-4)] by auto

lemma patch_device_spares:
  assumes auth: "authenticate hx rq (sdb sv) = (Inr a, d)"
  shows "spares_others F (ax_userId a) (sdb sv) (sdb (snd (patch_device hx rq sv)))"
  unfolding patch_device_def Let_def
  by (intro keeps_auth_csrf [OF auth] keeps_owner [where a = a] keeps_parsed keepsI)
    (auto split: option.split prod.split sum.split dest: own_device elim!: spares_devices_updated)

lemma request_cancellations_db [simp]: "sdb (request_cancellations hx i jobs sv) = sdb sv"
  by (induction jobs arbitrary: sv) (simp_all add: request_cancellations_def)

lemma revoke_transaction_spares:
  assumes "revoke_transaction hx rq u dev d = (x, d')" and own: "dev_id dev \<notin> fo_devices F"
  shows "spares_others F u d d'"
proof -
  let ?d2 = "\<lambda>d. d\<lparr>db_credentials := updateMany (\<lambda>r. cred_deviceId r = dev_id dev \<and> cred_revokedAt r = None)
      (\<lambda>r. r\<lparr>cred_revokedAt := Some (hx_now hx)\<rparr>) (db_credentials d)\<rparr>"
  let ?d3 = "\<lambda>d. d\<lparr>db_jobs := updateMany (\<lambda>r. job_deviceId r = dev_id dev \<and> is_active (job_status r))
      (\<lambda>r. r\<lparr>job_status := Disconnected, job_statusDetail := Some ''Device was revoked.'', job_updatedAt := hx_now hx\<rparr>) (db_jobs d)\<rparr>"
  have 2: "spares_others F u d (?d2 d)" for d
    using own by (auto simp: others_def separates_def intro!: sparesI filter_updateMany_own)
  have 3: "spares_others F u d (?d3 d)" for d
    using own by (intro spares_jobs) auto
  show ?thesis
  proof (cases "updateUnique (\<lambda>r. dev_id r = dev_id dev) (\<lambda>r. r\<lparr>dev_status := Revoked, dev_updatedAt := hx_now hx\<rparr>) (db_devices d)")
    case (Pair y rows)
    then have "spares_others F u d (d\<lparr>db_devices := rows\<rparr>)"
      by (rule spares_devices_updated) (use own in auto)
    note all = others_trans [OF others_trans [OF this 2] 3]
    show ?thesis
      using assms(1) all by (cases y) (auto simp: revoke_transaction_def Pair)
  qed
qed

lemma delete_device_spares:
  assumes auth: "authenticate hx rq (sdb sv) = (Inr a, d)"
  shows "spares_others F (ax_userId a) (sdb sv) (sdb (snd (delete_device hx rq sv)))"
  unfolding delete_device_def Let_def
  by (intro keeps_auth_csrf [OF auth] keeps_owner [where a = a] keeps_parsed keepsI)
    (auto simp: announce_revocation_db split: option.split prod.split sum.split dest!: own_device elim!: revoke_transaction_spares)

lemma purge_transaction_spares:
  assumes "purge_transaction hx rq u i d = (x, d')" and sep: "separates F u d"
  shows "spares_others F u d d'"
proof (cases "findUserDevice u i d")
  case (Some dev)
  have own: "i \<notin> fo_devices F"
    using own_device [OF Some sep] by simp
  show ?thesis
  proof (cases "delete_repositories (\<lambda>r. repo_deviceId r = i) (delete_jobs (\<lambda>r. job_deviceId r = i) d)")
    case (Inr d1)
    have "spares_others F u d (delete_jobs (\<lambda>r. job_deviceId r = i) d)"
      by (rule spares_delete_jobs) (simp add: own)
    also have "spares_others F u (delete_jobs (\<lambda>r. job_deviceId r = i) d) d1"
      by (rule spares_delete_repositories [OF Inr]) (use own in \<open>auto simp: repository_apart_def\<close>)
    finally have "spares_others F u d d2" if "delete_device_row i d1 = Inr d2" for d2
      using spares_delete_device_row [OF that own] by (rule others_trans)
    then show ?thesis
      using assms(1) by (auto simp: purge_transaction_def Some Inr split: if_splits sum.splits)
  qed (use assms(1) in \<open>auto simp: purge_transaction_def Some split: if_splits\<close>)
qed (use assms(1) in \<open>simp add: purge_transaction_def\<close>)

lemma delete_device_permanent_spares:
  assumes auth: "authenticate hx rq (sdb sv) = (Inr a, d)"
  shows "spares_others F (ax_userId a) (sdb sv) (sdb (snd (delete_device_permanent hx rq sv)))"
  unfolding delete_device_permanent_def
  by (intro keeps_auth_csrf [OF auth] keeps_owner [where a = a] keeps_parsed keepsI)
    (auto split: prod.split sum.split elim!: purge_transaction_spares)

subsection \<open>Repositories and actions\<close>

definition unused_ids :: "http \<Rightarrow> foreign \<Rightarrow> bool" where
  "unused_ids hx F \<longleftrightarrow> (\<forall>n. hx_id hx n \<notin> fo_repositories F \<union> fo_actions F \<union> fo_jobs F)"

lemma spares_repositories_updated:
  assumes "updateKeyed repo_id repo_key i f (db_repositories d) = (x, rows) \<or> updateUnique (\<lambda>r. repo_id r = i) f (db_repositories d) = (x', rows)"
    and "i \<notin> fo_repositories F" and "\<And>r. repo_id (f r) = repo_id r" "\<And>r. repo_deviceId (f r) = repo_deviceId r"
  shows "spares_others F u d (d\<lparr>db_repositories := rows\<rparr>)"
  using assms(1) updateKeyed_D updateUnique_D spares_repositories [OF assms(2-4)] by fastforce

lemma spares_validated:
  "updateKeyed repo_id repo_key i (set_validated now v p e) (db_repositories d) = (x, rows) \<Longrightarrow> i \<notin> fo_repositories F \<Longrightarrow>
    spares_others F u d (d\<lparr>db_repositories := rows\<rparr>)"
  by (erule spares_repositories_updated [OF disjI1]) (simp_all add: set_validated_def)

lemma spares_new_repository:
  assumes "repo_id r \<notin> fo_repositories F" "repo_deviceId r \<notin> fo_devices F"
  shows "spares_others F u d (d\<lparr>db_repositories := db_repositories d @ [r]\<rparr>)"
  using assms by (auto simp: others_def separates_def repository_apart_def intro!: sparesI)

lemma register_spares:
  assumes begun: "register_begin hx u i input sv = (Inr (r, promise), sv')" and ids: "unused_ids hx F" and sep: "separates F u (sdb sv)"
    and finish: "register_finish hx rq u i r outcome sv' = (res, sv'')"
  shows "spares_others F u (sdb sv) (sdb sv'')"
proof -
  obtain dev where dev: "findUserDevice u i (sdb sv) = Some dev"
    using begun by (auto simp: register_begin_def split: if_splits option.splits)
  have own: "i \<notin> fo_devices F"
    using own_device [OF dev sep] by simp
  have r: "repo_id r \<notin> fo_repositories F" "repo_deviceId r \<notin> fo_devices F"
    "sdb sv' = (sdb sv)\<lparr>db_repositories := db_repositories (sdb sv) @ [r]\<rparr>"
    using begun own ids
    by (auto simp: register_begin_def dev createUnique_def new_repository_def unused_ids_def split: if_splits prod.splits
        dest!: validation_request_db)
  have "spares_others F u (sdb sv) (sdb sv')"
    unfolding r(3) by (rule spares_new_repository [OF r(1,2)])
  also have "spares_others F u (sdb sv') (sdb sv'')"
    using finish r(1)
    by (auto simp: register_finish_def Let_def reply_repository_def split: sum.splits prod.splits option.splits
        elim: spares_validated intro: spares_delete_repositories)
  finally show ?thesis .
qed

lemma register_begin_fails: "register_begin hx u i input sv = (Inl e, sv') \<Longrightarrow> sv' = sv"
  by (auto simp: register_begin_def split: if_splits option.splits sum.splits prod.splits)

lemma post_device_repositories_spares:
  assumes auth: "authenticate hx rq (sdb sv) = (Inr a, d)" and ids: "unused_ids hx F"
  shows "spares_others F (ax_userId a) (sdb sv) (sdb (snd (post_device_repositories answer hx rq sv)))"
proof -
  have step: "spares_others F u (sdb sv) (sdb (snd (register_finish hx rq u i r outcome sv')))"
    if "register_begin hx u i input sv = (Inr (r, promise), sv')" "separates F u (sdb sv)" for u i input sv r promise sv' rq outcome
    using register_spares [OF that(1) ids that(2)] by (metis prod.collapse)
  show ?thesis
    unfolding post_device_repositories_def
    by (intro keeps_auth_csrf [OF auth] keeps_owner [where a = a] keeps_parsed keepsI)
      (auto split: prod.split sum.split dest: register_begin_fails intro: step)
qed

lemma set_enabled_spares: "set_enabled now i b d = (x, d') \<Longrightarrow> i \<notin> fo_repositories F \<Longrightarrow> spares_others F u d d'"
  by (auto simp: set_enabled_def split: prod.splits intro!: spares_repositories_updated [OF disjI2])

lemma update_fields_spares:
  assumes "i \<notin> fo_repositories F"
  shows "spares_others F u (sdb sv) (sdb (snd (update_fields hx rq v i input b sv)))"
  using assms
  by (auto simp: update_fields_def reply_repository_def apply_repository_def split: prod.split sum.split option.split
      intro!: spares_repositories_updated [OF disjI2])

lemma change_path_begin_spares:
  assumes "change_path_begin hx r p sv = (x, sv')" and "repo_id r \<notin> fo_repositories F"
  shows "spares_others F u (sdb sv) (sdb sv')"
  using assms
  by (auto simp: change_path_begin_def split: if_splits prod.splits sum.splits dest!: validation_request_db intro: set_enabled_spares)

lemma change_path_finish_spares:
  assumes "change_path_finish hx r input outcome sv = (x, sv')" and "repo_id r \<notin> fo_repositories F"
  shows "spares_others F u (sdb sv) (sdb sv')"
  using assms
  by (auto simp: change_path_finish_def Let_def split: if_splits prod.splits sum.splits
      intro: set_enabled_spares elim: spares_validated)

lemma patch_repository_spares:
  assumes auth: "authenticate hx rq (sdb sv) = (Inr a, d)"
  shows "spares_others F (ax_userId a) (sdb sv) (sdb (snd (patch_repository answer hx rq sv)))"
proof -
  let ?rq = "rq\<lparr>rq_auth := Some a\<rparr>"
  have moved: "spares_others F u (sdb sv) (sdb (snd (update_fields hx ?rq v i input True sv2)))"
    if "change_path_begin hx r nextPath sv = (p, sv1)" "change_path_finish hx r input outcome sv1 = (e, sv2)"
      "repo_id r \<notin> fo_repositories F" "i \<notin> fo_repositories F" for r nextPath input outcome v i u sv sv1 sv2 p e
    using others_trans [OF others_trans [OF change_path_begin_spares change_path_finish_spares] update_fields_spares] that by blast
  have path: "spares_others F u (sdb sv) (sdb (snd (case change_path_begin hx r nextPath sv of
      (Inl e, sv) \<Rightarrow> fail e sv
    | (Inr promise, sv) \<Rightarrow>
        (case change_path_finish hx r input (case promise of Inl e \<Rightarrow> Inl e | Inr p \<Rightarrow> answer p) sv of
           (Some e, sv) \<Rightarrow> fail e sv
         | (None, sv) \<Rightarrow> update_fields hx ?rq v i input True sv))))"
    if "repo_id r \<notin> fo_repositories F" "i \<notin> fo_repositories F" for r nextPath input v i u sv
    using that
    by (auto split: prod.split sum.split option.split
        intro: moved others_trans [OF change_path_begin_spares change_path_finish_spares] change_path_begin_spares)
  show ?thesis
    unfolding patch_repository_def
    by (intro keeps_auth_csrf [OF auth] keeps_owner [where a = a] keeps_parsed keepsI)
      (simp_all split: option.split add: path update_fields_spares own_repository)
qed

lemma delete_repository_spares:
  assumes auth: "authenticate hx rq (sdb sv) = (Inr a, d)"
  shows "spares_others F (ax_userId a) (sdb sv) (sdb (snd (delete_repository hx rq sv)))"
  unfolding delete_repository_def
  by (intro keeps_auth_csrf [OF auth] keeps_owner [where a = a] keeps_parsed keepsI)
    (auto split: option.split sum.split dest: own_repository intro: spares_delete_repositories)

lemma post_actions_spares:
  assumes auth: "authenticate hx rq (sdb sv) = (Inr a, d)" and ids: "unused_ids hx F"
  shows "spares_others F (ax_userId a) (sdb sv) (sdb (snd (post_actions hx rq sv)))"
proof -
  have new: "spares_others F u d (d\<lparr>db_actions := db_actions d @ [new_action hx i input w]\<rparr>)" if "i \<notin> fo_repositories F" for u d i input w
    using that ids by (auto simp: others_def separates_def action_apart_def new_action_def unused_ids_def intro!: sparesI)
  have "keeps_others F (ax_userId a) (\<lambda>sv. with_owner (rq\<lparr>rq_auth := Some a\<rparr>) k sv)" if "keeps_others F (ax_userId a) (k (ax_userId a))" for k
    using that by (simp add: keeps_others_def with_owner_def)
  then show ?thesis
    unfolding post_actions_def
    by (intro keeps_auth_csrf [OF auth] keeps_parsed keepsI)
      (auto simp: with_owner_def Let_def split: option.split sum.split dest: own_repository intro: new)
qed

lemma spares_actions_updated:
  assumes "updateUnique (\<lambda>r. act_id r = i) f (db_actions d) = (x, rows)" and "i \<notin> fo_actions F"
    and "\<And>r. act_id (f r) = act_id r" "\<And>r. act_repositoryId (f r) = act_repositoryId r"
  shows "spares_others F u d (d\<lparr>db_actions := rows\<rparr>)"
  using updateUnique_D [OF assms(1)] spares_actions [OF assms(2-4)] by auto

lemma patch_action_spares:
  assumes auth: "authenticate hx rq (sdb sv) = (Inr a, d)"
  shows "spares_others F (ax_userId a) (sdb sv) (sdb (snd (patch_action hx rq sv)))"
proof -
  have applied: "spares_others F u d (d\<lparr>db_actions := rows\<rparr>)"
    if "updateUnique (\<lambda>r. act_id r = i) (apply_action now input w) (db_actions d) = (x, rows)" "i \<notin> fo_actions F" for i now input w x rows u d
    using that by (rule spares_actions_updated) (simp_all add: apply_action_def)
  show ?thesis
    unfolding patch_action_def
    by (intro keeps_auth_csrf [OF auth] keeps_parsed keepsI)
      (auto simp: with_owner_def split: option.split sum.split prod.split dest: own_action intro: applied)
qed

lemma delete_action_spares:
  assumes auth: "authenticate hx rq (sdb sv) = (Inr a, d)"
  shows "spares_others F (ax_userId a) (sdb sv) (sdb (snd (delete_action hx rq sv)))"
proof -
  have delete: "spares_others F u d (d\<lparr>db_actions := deleteMany (\<lambda>r. act_id r = i) (db_actions d)\<rparr>)" if "i \<notin> fo_actions F" for u d i
    using that by (auto simp: others_def separates_def action_apart_def intro!: sparesI filter_deleteMany_own)
  have clear: "spares_others F u d (d\<lparr>db_jobs := updateMany (\<lambda>j. job_actionId j = Some i) (\<lambda>j. j\<lparr>job_actionId := None\<rparr>) (db_jobs d)\<rparr>)"
    if "i \<notin> fo_actions F" for u d i
    using that by (intro spares_jobs) (auto simp: job_apart_def)
  show ?thesis
    unfolding delete_action_def
    by (intro keeps_auth_csrf [OF auth] keeps_owner [where a = a] keeps_parsed keepsI)
      (use others_trans [OF delete clear] in \<open>auto split: option.split dest: own_action\<close>)
qed

subsection \<open>Jobs\<close>

lemma spares_new_job:
  assumes "job_id j \<notin> fo_jobs F" "job_deviceId j \<notin> fo_devices F"
  shows "spares_others F u d (d\<lparr>db_jobs := db_jobs d @ [j]\<rparr>)"
  using assms by (auto simp: others_def separates_def job_apart_def intro!: sparesI)

lemma never_dispatched_spares: "j \<notin> fo_jobs F \<Longrightarrow> spares_others F u d (snd (updateJob now j (never_dispatched now) d))"
  by (erule spares_updateJob) (simp_all add: never_dispatched_def)

lemma start_job_spares:
  assumes "repo_deviceId r \<notin> fo_devices F" and "hx_id hx 0 \<notin> fo_jobs F"
  shows "spares_others F u (sdb sv) (sdb (snd (start_job hx rq v r p sv)))"
proof -
  let ?j = "new_job hx v r p" and ?sv1 = "on_db (\<lambda>d. d\<lparr>db_jobs := db_jobs d @ [new_job hx v r p]\<rparr>) sv"
  have created: "spares_others F u (sdb sv) (sdb ?sv1)"
    using assms by (simp add: spares_new_job new_job_def)
  have sent: "sdb sv2 = sdb ?sv1" if "server_sendToAgent hx (repo_deviceId r) (JobStart m) ?sv1 = (ok, sv2)" for m ok sv2
    using server_sendToAgent_db [of hx "repo_deviceId r" "JobStart m" ?sv1] by (simp add: that)
  have failed: "spares_others F u (sdb sv) d'" if "updateJob (hx_now hx) (job_id ?j) (never_dispatched (hx_now hx)) (sdb ?sv1) = (x, d')" for x d'
    using others_trans [OF created never_dispatched_spares [where j = "job_id ?j" and now = "hx_now hx"]] assms(2)
    by (metis that snd_conv new_job_def job.select_convs(1))
  show ?thesis
    using created
    by (auto simp: start_job_def Let_def sent split: option.split prod.split sum.split dest: failed [simplified])
qed

lemma post_jobs_spares:
  assumes auth: "authenticate hx rq (sdb sv) = (Inr a, d)" and ids: "unused_ids hx F"
  shows "spares_others F (ax_userId a) (sdb sv) (sdb (snd (post_jobs hx rq sv)))"
proof -
  have "hx_id hx 0 \<notin> fo_jobs F"
    using ids by (simp add: unused_ids_def)
  then show ?thesis
    unfolding post_jobs_def
    by (intro keeps_auth_csrf [OF auth] keeps_owner [where a = a] keeps_parsed keepsI)
      (auto split: sum.split prod.split intro!: start_job_spares dest!: admit_job_D(1) dest: own_repository)
qed

lemma requestCancellation_spares:
  assumes sep: "separates F u (w_db w)"
  shows "spares_others F u (w_db w) (w_db (snd (requestCancellation cx u j w)))"
proof (cases "findUserJob u j (w_db w)")
  case (Some job)
  have own: "j \<notin> fo_jobs F"
    using own_job [OF Some sep] .
  have "spares_others F u (w_db w) (snd (updateJob now j (\<lambda>r. r\<lparr>job_status := Cancelled, job_finishedAt := Some now,
      job_statusDetail := Some ''Cancelled before start.''\<rparr>) (w_db w)))" for now
    by (rule spares_updateJob [OF own]) simp_all
  moreover have "spares_others F u (w_db w) (snd (updateJob now j (\<lambda>r. r\<lparr>job_statusDetail := Some ''Cancellation requested.''\<rparr>) (w_db w)))" for now
    by (rule spares_updateJob [OF own]) simp_all
  ultimately show ?thesis
    using requestCancellation_db [of cx u j w] by auto
qed (simp add: requestCancellation_def)

lemma post_job_cancel_spares:
  assumes auth: "authenticate hx rq (sdb sv) = (Inr a, d)"
  shows "spares_others F (ax_userId a) (sdb sv) (sdb (snd (post_job_cancel hx rq sv)))"
proof -
  have cancelled: "spares_others F u (sdb sv) (w_db w')"
    if "requestCancellation cx u j (sr_world sv) = (x, w')" "separates F u (sdb sv)" for cx u j sv x w'
    using requestCancellation_spares [OF that(2), of cx j] by (simp add: that(1))
  show ?thesis
    unfolding post_job_cancel_def
    by (intro keeps_auth_csrf [OF auth] keeps_owner [where a = a] keeps_parsed keepsI)
      (auto split: sum.split prod.split intro: cancelled)
qed

lemma csrf_routes_spare:
  assumes "r \<in> set csrf_routes" and auth: "authenticate hx rq (sdb sv) = (Inr a, d)" and ids: "unused_ids hx F"
  shows "spares_others F (ax_userId a) (sdb sv) (sdb (snd (snd (snd r) out hx rq sv)))"
  using assms(1) logout_spares [OF auth] pairing_codes_spare [OF auth] patch_device_spares [OF auth] delete_device_spares [OF auth]
    delete_device_permanent_spares [OF auth] post_device_repositories_spares [OF auth ids] patch_repository_spares [OF auth]
    delete_repository_spares [OF auth] post_actions_spares [OF auth ids] patch_action_spares [OF auth] delete_action_spares [OF auth]
    post_jobs_spares [OF auth ids] post_job_cancel_spares [OF auth] push_routes_spare [OF auth]
  by (auto simp: csrf_routes_def)

subsection \<open>All routes\<close>

text \<open>
  A database in which identifiers are unique and a job, its device, its repository and its action belong
  together, as its unique keys, foreign keys and the checks at creation have it; and the rows of others in it.
\<close>

definition tenants_ok :: "db \<Rightarrow> bool" where
  "tenants_ok d \<longleftrightarrow> distinct (map ses_id (db_sessions d)) \<and> distinct (map dev_id (db_devices d)) \<and> distinct (map repo_id (db_repositories d)) \<and>
     distinct (map act_id (db_actions d)) \<and> distinct (map job_id (db_jobs d)) \<and>
     (\<forall>j \<in> set (db_jobs d). (\<exists>dev \<in> set (db_devices d). dev_id dev = job_deviceId j \<and> dev_userId dev = job_userId j) \<and>
        (\<exists>r \<in> set (db_repositories d). repo_id r = job_repositoryId j \<and> repo_deviceId r = job_deviceId j) \<and>
        (\<forall>i. job_actionId j = Some i \<longrightarrow> (\<exists>a \<in> set (db_actions d). act_id a = i \<and> act_repositoryId a = job_repositoryId j)))"

definition others_of :: "ident \<Rightarrow> db \<Rightarrow> foreign" where
  "others_of u d =
     (let devices = dev_id ` {r \<in> set (db_devices d). dev_userId r \<noteq> u};
          repositories = repo_id ` {r \<in> set (db_repositories d). repo_deviceId r \<in> devices}
      in \<lparr>fo_devices = devices, fo_repositories = repositories,
          fo_actions = act_id ` {a \<in> set (db_actions d). act_repositoryId a \<in> repositories},
          fo_jobs = job_id ` {j \<in> set (db_jobs d). job_deviceId j \<in> devices},
          fo_sessions = ses_id ` {s \<in> set (db_sessions d). ses_userId s \<noteq> u}\<rparr>)"

lemma image_unique: "distinct (map key rows) \<Longrightarrow> r \<in> set rows \<Longrightarrow> key r \<in> key ` {r \<in> set rows. P r} \<longleftrightarrow> P r"
  by (auto simp: distinct_map inj_on_def)

lemma others_of_separates:
  assumes "tenants_ok d"
  shows "separates (others_of u d) u d"
proof -
  have keys: "distinct (map ses_id (db_sessions d))" "distinct (map dev_id (db_devices d))" "distinct (map repo_id (db_repositories d))"
    "distinct (map act_id (db_actions d))" "distinct (map job_id (db_jobs d))"
    using assms by (simp_all add: tenants_ok_def)
  note apart = keys [THEN image_unique]
  have "job_apart (others_of u d) u j" if j: "j \<in> set (db_jobs d)" for j
  proof -
    obtain dev r where dev: "dev \<in> set (db_devices d)" "dev_id dev = job_deviceId j" "dev_userId dev = job_userId j"
      and r: "r \<in> set (db_repositories d)" "repo_id r = job_repositoryId j" "repo_deviceId r = job_deviceId j"
      and act: "\<forall>i. job_actionId j = Some i \<longrightarrow> (\<exists>a \<in> set (db_actions d). act_id a = i \<and> act_repositoryId a = job_repositoryId j)"
      using assms j by (auto simp: tenants_ok_def)
    have "job_deviceId j \<in> fo_devices (others_of u d) \<longleftrightarrow> job_userId j \<noteq> u"
      using apart(2) [OF dev(1)] dev(2,3) by (simp add: others_of_def Let_def)
    moreover have "job_id j \<in> fo_jobs (others_of u d) \<longleftrightarrow> job_deviceId j \<in> fo_devices (others_of u d)"
      using apart(5) [OF j] by (simp add: others_of_def Let_def)
    moreover have "job_repositoryId j \<in> fo_repositories (others_of u d)" if "job_deviceId j \<in> fo_devices (others_of u d)"
      using apart(3) [OF r(1)] r(2,3) that by (simp add: others_of_def Let_def)
    then have "set_option (job_actionId j) \<subseteq> fo_actions (others_of u d)" if "job_deviceId j \<in> fo_devices (others_of u d)"
      using act that by (fastforce simp: others_of_def Let_def)
    ultimately show ?thesis
      by (auto simp: job_apart_def)
  qed
  then show ?thesis
    using apart by (simp add: separates_def session_apart_def device_apart_def repository_apart_def action_apart_def others_of_def Let_def)
qed

text \<open>
  C8. Users are kept apart. Whatever a signed-in user sends to any route behind the session, with any
  identifiers, body and query, and whether it succeeds or fails, every row that belongs to another user is afterwards
  what it was: accounts, sessions, devices and their credentials, pairing codes, repositories, actions, jobs,
  their output, and push subscriptions. New rows do not land among them either.
\<close>

theorem users_kept_apart:
  assumes "tenants_ok (sdb sv)" and "find_route meth path routes = Some (h, params)" and "find_route meth path public_routes = None"
    and "authenticate hx rq (sdb sv) = (Inr a, d)" and "unused_ids hx (others_of (ax_userId a) (sdb sv))"
  shows "others (others_of (ax_userId a) (sdb sv)) (ax_userId a) (sdb (snd (serve out hx meth path rq sv))) =
    others (others_of (ax_userId a) (sdb sv)) (ax_userId a) (sdb sv)"
proof -
  let ?rq = "rq\<lparr>rq_params := params\<rparr>" and ?F = "others_of (ax_userId a) (sdb sv)"
  have "find_route meth path (session_routes @ csrf_routes) = Some (h, params)"
    using assms(2,3) by (simp add: routes_def find_route_append)
  then obtain r where r: "r \<in> set session_routes \<or> r \<in> set csrf_routes" "h = snd (snd r)"
    using find_route_in by (metis Un_iff set_append)
  have auth: "authenticate hx ?rq (sdb sv) = (Inr a, d)"
    using assms(4) by simp
  have "spares_others ?F (ax_userId a) (sdb sv) (sdb (snd (h out hx ?rq sv)))"
    using r session_routes_spare [OF _ auth] csrf_routes_spare [OF _ auth assms(5)] by blast
  then have "others ?F (ax_userId a) (sdb (snd (h out hx ?rq sv))) = others ?F (ax_userId a) (sdb sv)"
    using others_of_separates [OF assms(1)] by (simp add: spares_others_def)
  then show ?thesis
    by (auto simp: serve_def handle_def assms(2) split: option.split prod.split sum.split)
qed

definition two_users :: db where
  "two_users = empty_db\<lparr>db_users := [example_user ''u''], db_sessions := [example_session_row],
     db_devices := [example_device ''d'' ''u'', example_device ''e'' ''v'']\<rparr>"

lemma two_users_ok: "sdb (example_server two_users) = two_users" "tenants_ok two_users"
  by (simp_all add: example_server_def tenants_ok_def two_users_def empty_db_def example_device_def)

lemma two_users_signed_in:
  "\<exists>a d. authenticate (example_http 5) (signed_in example_request) two_users = (Inr a, d) \<and> ax_userId a = ''u''"
  by (auto simp: authenticate_def two_users_def signed_in_def example_request_def example_session_row_def example_http_def
      example_lib_def example_environment_def hashOpaqueToken_def findUser_def example_user_def empty_db_def)

theorem users_kept_apart_witness:
  "filter (\<lambda>r. dev_userId r \<noteq> ''u'') (db_devices (sdb (snd (serve example_outside (example_http 5) ''DELETE'' ''/api/devices/e''
      (signed_in example_request) (example_server two_users))))) = [example_device ''e'' ''v'']"
proof -
  let ?sv = "example_server two_users" and ?rq = "signed_in example_request"
  note sdb = two_users_ok(1)
  have ok: "tenants_ok (sdb ?sv)"
    by (simp add: two_users_ok)
  have "decodeURIComponent ''e'' = Some ''e''"
    by code_simp
  then have route: "find_route ''DELETE'' ''/api/devices/e'' routes = Some (\<lambda>out. delete_device, [(''deviceId'', JStr ''e'')])"
    by (simp add: routes_def public_routes_def session_routes_def csrf_routes_def match_route_def startsWith_def)
  have guarded: "find_route ''DELETE'' ''/api/devices/e'' public_routes = None"
    by (simp add: public_routes_def match_route_def startsWith_def)
  obtain a d where auth: "authenticate (example_http 5) ?rq (sdb ?sv) = (Inr a, d)" and user: "ax_userId a = ''u''"
    using two_users_signed_in by (auto simp: two_users_ok)
  have ids: "unused_ids (example_http 5) (others_of (ax_userId a) (sdb ?sv))"
    unfolding sdb by (simp add: unused_ids_def others_of_def two_users_def empty_db_def)
  from users_kept_apart [OF ok route guarded auth ids, of example_outside] show ?thesis
    unfolding sdb user by (simp add: others_def two_users_def example_device_def)
qed

subsection \<open>What a user reads\<close>

text \<open>The database as a user may see it, and two databases that a user cannot tell apart: the second is the first without others' rows.\<close>

definition own_rows :: "foreign \<Rightarrow> ident \<Rightarrow> db \<Rightarrow> db" where
  "own_rows F u d = d\<lparr>db_users := filter (\<lambda>r. usr_id r = u) (db_users d), db_sessions := filter (\<lambda>r. ses_userId r = u) (db_sessions d),
     db_devices := filter (\<lambda>r. dev_userId r = u) (db_devices d),
     db_credentials := filter (\<lambda>r. cred_deviceId r \<notin> fo_devices F) (db_credentials d),
     db_pairingCodes := filter (\<lambda>r. pc_userId r = u) (db_pairingCodes d),
     db_repositories := filter (\<lambda>r. repo_deviceId r \<notin> fo_devices F) (db_repositories d),
     db_actions := filter (\<lambda>r. act_repositoryId r \<notin> fo_repositories F) (db_actions d),
     db_jobs := filter (\<lambda>r. job_deviceId r \<notin> fo_devices F) (db_jobs d),
     db_chunks := filter (\<lambda>c. ch_jobId c \<notin> fo_jobs F) (db_chunks d),
     db_audit := [], db_push := filter (\<lambda>r. ps_userId r = u) (db_push d)\<rparr>"

definition looks_alike :: "foreign \<Rightarrow> ident \<Rightarrow> db \<Rightarrow> db \<Rightarrow> bool" where
  "looks_alike F u d d' \<longleftrightarrow> separates F u d \<and> (\<forall>j \<in> set (db_jobs d). job_userId j = u \<longrightarrow> job_repositoryId j \<notin> fo_repositories F) \<and>
     db_devices d' = filter (\<lambda>r. dev_userId r = u) (db_devices d) \<and>
     db_repositories d' = filter (\<lambda>r. repo_deviceId r \<notin> fo_devices F) (db_repositories d) \<and>
     db_actions d' = filter (\<lambda>r. act_repositoryId r \<notin> fo_repositories F) (db_actions d) \<and>
     db_jobs d' = filter (\<lambda>r. job_deviceId r \<notin> fo_devices F) (db_jobs d) \<and>
     db_chunks d' = filter (\<lambda>c. ch_jobId c \<notin> fo_jobs F) (db_chunks d)"

lemma find_filter_implied: "(\<And>r. r \<in> set rows \<Longrightarrow> P r \<Longrightarrow> Q r) \<Longrightarrow> List.find P (filter Q rows) = List.find P rows"
  by (induction rows) auto

lemma filter_filter_implied: "(\<And>r. r \<in> set rows \<Longrightarrow> P r \<Longrightarrow> Q r) \<Longrightarrow> filter P (filter Q rows) = filter P rows"
  by (induction rows) auto

lemma authenticate_own_rows:
  assumes "authenticate hx rq d = (Inr a, d1)" and "u = ax_userId a"
  shows "\<exists>d2. authenticate hx rq (own_rows F u d) = (Inr a, d2) \<and> db_devices d2 = db_devices (own_rows F u d) \<and>
    db_repositories d2 = db_repositories (own_rows F u d) \<and> db_actions d2 = db_actions (own_rows F u d) \<and>
    db_jobs d2 = db_jobs (own_rows F u d) \<and> db_chunks d2 = db_chunks (own_rows F u d)"
proof -
  have find_own: "List.find P (filter Q xs) = Some x" if "List.find P xs = Some x" "Q x" for P Q and xs :: "'a list" and x
    using that by (induction xs) (auto split: if_splits)
  obtain tok s us where s: "map_of (rq_cookies rq) SESSION_COOKIE = Some tok" "length tok \<le> 256"
      "List.find (\<lambda>r. ses_tokenHash r = hashOpaqueToken (hx_lib hx) tok (env_SESSION_SECRET (hx_env hx))) (db_sessions d) = Some s"
      "\<not> (ses_revokedAt s \<noteq> None \<or> ses_expiresAt s \<le> hx_now hx)" "findUser (ses_userId s) d = Some us"
      "a = \<lparr>ax_sessionId = ses_id s, ax_csrfTokenHash = ses_csrfTokenHash s, ax_userId = usr_id us, ax_email = usr_email us, ax_createdAt = usr_createdAt us\<rparr>"
    using assms(1) by (auto simp: authenticate_def Let_def not_less split: option.splits if_splits)
  then have u: "usr_id us = u" "ses_userId s = u"
    using assms(2) by (auto simp: findUser_def dest: find_SomeD)
  have "findUser u (own_rows F u d) = Some us"
    using s(5) u by (simp add: findUser_def own_rows_def find_own)
  moreover have "List.find (\<lambda>r. ses_tokenHash r = hashOpaqueToken (hx_lib hx) tok (env_SESSION_SECRET (hx_env hx))) (db_sessions (own_rows F u d)) = Some s"
    using s(3) u by (simp add: own_rows_def find_own)
  ultimately show ?thesis
    using s u by (auto simp: authenticate_def Let_def)
qed

lemma looks_devices:
  assumes "looks_alike F u d d'"
  shows "findUserDevice u i d' = findUserDevice u i d" "filter (\<lambda>r. dev_userId r = u) (db_devices d') = filter (\<lambda>r. dev_userId r = u) (db_devices d)"
    "i \<notin> fo_devices F \<Longrightarrow> findDevice i d' = findDevice i d" "owns_device u i d' = owns_device u i d"
proof -
  have devs: "db_devices d' = filter (\<lambda>r. dev_userId r = u) (db_devices d)" and sep: "\<forall>r \<in> set (db_devices d). device_apart F u r"
    using assms by (simp_all add: looks_alike_def separates_def)
  show "findUserDevice u i d' = findUserDevice u i d"
    unfolding findUserDevice_def devs by (rule find_filter_implied) simp
  show "filter (\<lambda>r. dev_userId r = u) (db_devices d') = filter (\<lambda>r. dev_userId r = u) (db_devices d)"
    by (simp add: devs)
  show own: "findDevice i d' = findDevice i d" if "i \<notin> fo_devices F" for i
    unfolding findDevice_def devs by (rule find_filter_implied) (use that sep in \<open>auto simp: device_apart_def\<close>)
  show "owns_device u i d' = owns_device u i d"
  proof (cases "i \<in> fo_devices F")
    case True
    then have "findDevice i d' = None" "\<not> owns_device u i d"
      using sep by (auto simp: findDevice_def owns_device_def devs find_None_iff_all device_apart_def split: option.split dest!: find_SomeD)
    then show ?thesis
      by (simp add: owns_device_def)
  qed (simp add: owns_device_def own)
qed

lemma looks_repositories:
  assumes "looks_alike F u d d'"
  shows "findUserRepository u i d' = findUserRepository u i d" "i \<notin> fo_devices F \<Longrightarrow> repositories_of i d' = repositories_of i d"
    "i \<notin> fo_repositories F \<Longrightarrow> findRepository i d' = findRepository i d"
    "i \<notin> fo_repositories F \<Longrightarrow> filter (\<lambda>a. act_repositoryId a = i) (db_actions d') = filter (\<lambda>a. act_repositoryId a = i) (db_actions d)"
proof -
  have repos: "db_repositories d' = filter (\<lambda>r. repo_deviceId r \<notin> fo_devices F) (db_repositories d)" and sep: "separates F u d"
    and acts: "db_actions d' = filter (\<lambda>r. act_repositoryId r \<notin> fo_repositories F) (db_actions d)"
    using assms by (simp_all add: looks_alike_def)
  show "findUserRepository u i d' = findUserRepository u i d"
    unfolding findUserRepository_def repos looks_devices(4) [OF assms]
    by (rule find_filter_implied) (use owns_device_own [OF _ sep] in blast)
  show "repositories_of i d' = repositories_of i d" if "i \<notin> fo_devices F"
    unfolding repositories_of_def repos by (rule filter_filter_implied) (use that in simp)
  show "findRepository i d' = findRepository i d" if "i \<notin> fo_repositories F"
    unfolding findRepository_def repos
    by (rule find_filter_implied) (use that sep in \<open>auto simp: separates_def repository_apart_def\<close>)
  show "filter (\<lambda>a. act_repositoryId a = i) (db_actions d') = filter (\<lambda>a. act_repositoryId a = i) (db_actions d)" if "i \<notin> fo_repositories F"
    unfolding acts by (rule filter_filter_implied) (use that in simp)
qed

lemma looks_jobs:
  assumes "looks_alike F u d d'"
  shows "(\<And>j. P j \<Longrightarrow> job_userId j = u) \<Longrightarrow> filter P (db_jobs d') = filter P (db_jobs d)"
    "findUserJob u i d' = findUserJob u i d"
    "replay u i n limit d' = replay u i n limit d"
    "j \<in> set (db_jobs d) \<Longrightarrow> job_userId j = u \<Longrightarrow> included_repository d' j = included_repository d j \<and> included_device d' j = included_device d j"
proof -
  have jobs: "db_jobs d' = filter (\<lambda>r. job_deviceId r \<notin> fo_devices F) (db_jobs d)" and sep: "separates F u d"
    and chunks: "db_chunks d' = filter (\<lambda>c. ch_jobId c \<notin> fo_jobs F) (db_chunks d)"
    and repo: "\<forall>j \<in> set (db_jobs d). job_userId j = u \<longrightarrow> job_repositoryId j \<notin> fo_repositories F"
    using assms by (simp_all add: looks_alike_def)
  have own: "job_deviceId j \<notin> fo_devices F \<and> job_id j \<notin> fo_jobs F" if "j \<in> set (db_jobs d)" "job_userId j = u" for j
    using that sep by (auto simp: separates_def job_apart_def)
  show "filter P (db_jobs d') = filter P (db_jobs d)" if "\<And>j. P j \<Longrightarrow> job_userId j = u" for P
    unfolding jobs by (rule filter_filter_implied) (use own that in blast)
  have find: "List.find (\<lambda>r. job_id r = i \<and> job_userId r = u) (db_jobs d') = List.find (\<lambda>r. job_id r = i \<and> job_userId r = u) (db_jobs d)"
    unfolding jobs by (rule find_filter_implied) (use own in blast)
  then show "findUserJob u i d' = findUserJob u i d"
    by (simp add: findUserJob_def)
  show "replay u i n limit d' = replay u i n limit d"
  proof (cases "List.find (\<lambda>r. job_id r = i \<and> job_userId r = u) (db_jobs d)")
    case (Some j)
    then have "i \<notin> fo_jobs F"
      using own [of j] by (auto dest: find_SomeD)
    then have "chunks_of i (db_chunks d') = chunks_of i (db_chunks d)"
      unfolding chunks_of_def chunks by (intro filter_filter_implied) auto
    then show ?thesis
      by (simp add: replay_def find Some)
  qed (simp add: replay_def find)
  show "included_repository d' j = included_repository d j \<and> included_device d' j = included_device d j"
    if "j \<in> set (db_jobs d)" "job_userId j = u"
    using own [OF that] that repo looks_repositories(3) [OF assms] looks_devices(3) [OF assms]
    by (simp add: included_repository_def included_device_def)
qed

lemma looks_listed:
  assumes "looks_alike F u d d'" and "\<And>j. P j \<Longrightarrow> job_userId j = u"
  shows "map (\<lambda>j. serializeJob (included_repository d' j) (f (included_device d' j)) j) (take n (sort_key g (filter P (db_jobs d')))) =
    map (\<lambda>j. serializeJob (included_repository d j) (f (included_device d j)) j) (take n (sort_key g (filter P (db_jobs d))))"
proof -
  have "filter P (db_jobs d') = filter P (db_jobs d)"
    by (rule looks_jobs(1) [OF assms(1)]) (rule assms(2))
  moreover have "included_repository d' j = included_repository d j \<and> included_device d' j = included_device d j"
    if "j \<in> set (take n (sort_key g (filter P (db_jobs d))))" for j
    using in_set_takeD [OF that] looks_jobs(4) [OF assms(1)] assms(2) by simp
  ultimately show ?thesis
    by (simp cong: map_cong)
qed

lemma findUserJob_D: "findUserJob u i d = Some j \<Longrightarrow> j \<in> set (db_jobs d) \<and> job_userId j = u"
  by (auto simp: findUserJob_def dest: find_SomeD)

lemma tenants_ok_job:
  "tenants_ok d \<Longrightarrow> j \<in> set (db_jobs d) \<Longrightarrow>
    (\<exists>dev \<in> set (db_devices d). dev_id dev = job_deviceId j \<and> dev_userId dev = job_userId j) \<and>
    (\<exists>r \<in> set (db_repositories d). repo_id r = job_repositoryId j \<and> repo_deviceId r = job_deviceId j)"
  by (simp add: tenants_ok_def)

text \<open>The rest of a reading route, on two states a user cannot tell apart.\<close>

definition answers_alike :: "foreign \<Rightarrow> ident \<Rightarrow> (server \<Rightarrow> outcome) \<Rightarrow> bool" where
  "answers_alike F u k \<longleftrightarrow> (\<forall>sv sv'. looks_alike F u (sdb sv) (sdb sv') \<longrightarrow> fst (k sv') = fst (k sv))"

lemma alike_parsed: "(\<And>x. answers_alike F u (k x)) \<Longrightarrow> answers_alike F u (with_parsed p k)"
  by (auto simp: answers_alike_def with_parsed_def split: option.split)

lemma alike_owner: "rq_auth rq = Some a \<Longrightarrow> answers_alike F u (k (ax_userId a)) \<Longrightarrow> answers_alike F u (with_owner rq k)"
  by (auto simp: answers_alike_def with_owner_def)

lemma alikeI: "(\<And>sv sv'. looks_alike F u (sdb sv) (sdb sv') \<Longrightarrow> fst (k sv') = fst (k sv)) \<Longrightarrow> answers_alike F u k"
  by (simp add: answers_alike_def)

lemma alike_auth:
  assumes auth: "authenticate hx rq (sdb sv) = (Inr a, d)" and F: "F = others_of (ax_userId a) (sdb sv)" and ok: "tenants_ok (sdb sv)"
    and k: "answers_alike F (ax_userId a) (k (rq\<lparr>rq_auth := Some a\<rparr>))"
  shows "fst (requireAuth hx rq k (on_db (own_rows F (ax_userId a)) sv)) = fst (requireAuth hx rq k sv)"
proof -
  obtain d2 where d2: "authenticate hx rq (own_rows F (ax_userId a) (sdb sv)) = (Inr a, d2)"
    "db_devices d2 = db_devices (own_rows F (ax_userId a) (sdb sv))" "db_repositories d2 = db_repositories (own_rows F (ax_userId a) (sdb sv))"
    "db_actions d2 = db_actions (own_rows F (ax_userId a) (sdb sv))" "db_jobs d2 = db_jobs (own_rows F (ax_userId a) (sdb sv))"
    "db_chunks d2 = db_chunks (own_rows F (ax_userId a) (sdb sv))"
    using authenticate_own_rows [OF auth refl] by blast
  have sep: "separates F (ax_userId a) (sdb sv)"
    unfolding F by (rule others_of_separates [OF ok])
  have d: "db_devices d = db_devices (sdb sv)" "db_repositories d = db_repositories (sdb sv)" "db_actions d = db_actions (sdb sv)"
    "db_jobs d = db_jobs (sdb sv)" "db_chunks d = db_chunks (sdb sv)"
    using authenticate_refreshes [where hx = hx and rq = rq and d = "sdb sv"] by (auto simp: auth)
  have "separates F (ax_userId a) d"
    using authenticate_own(1) [OF auth, of F] sep by (simp add: spares_others_def)
  moreover have "job_repositoryId j \<notin> fo_repositories F" if mine: "j \<in> set (db_jobs (sdb sv))" "job_userId j = ax_userId a" for j
  proof -
    obtain dev r where "dev \<in> set (db_devices (sdb sv))" "dev_id dev = job_deviceId j" "dev_userId dev = job_userId j"
      and r: "r \<in> set (db_repositories (sdb sv))" "repo_id r = job_repositoryId j" "repo_deviceId r = job_deviceId j"
      using tenants_ok_job [OF ok mine(1)] by blast
    then have "job_deviceId j \<notin> fo_devices F" "repository_apart F r"
      using sep mine(2) by (auto simp: separates_def device_apart_def)
    with r show ?thesis
      by (simp add: repository_apart_def)
  qed
  ultimately have "looks_alike F (ax_userId a) d d2"
    by (simp add: looks_alike_def d d2 own_rows_def)
  with k have "fst (k (rq\<lparr>rq_auth := Some a\<rparr>) (on_db (\<lambda>_. d2) (on_db (own_rows F (ax_userId a)) sv))) = fst (k (rq\<lparr>rq_auth := Some a\<rparr>) (on_db (\<lambda>_. d) sv))"
    unfolding answers_alike_def by (metis sdb_on_db)
  then show ?thesis
    by (simp add: requireAuth_def auth d2(1))
qed

lemma looks_own:
  assumes "looks_alike F u d d'"
  shows "findUserDevice u i d = Some dev \<Longrightarrow> i \<notin> fo_devices F" "findUserRepository u i d = Some r \<Longrightarrow> i \<notin> fo_repositories F"
    "findUserRepository u i d = Some r \<Longrightarrow> repo_deviceId r \<notin> fo_devices F"
    "dev \<in> set (db_devices d) \<Longrightarrow> dev_userId dev = u \<Longrightarrow> dev_id dev \<notin> fo_devices F"
  using assms own_device own_repository by (auto simp: looks_alike_def separates_def device_apart_def)

lemma looks_device_list:
  assumes "looks_alike F u d d'"
  shows "map (\<lambda>r. serializeDevice (Some (length (repositories_of (dev_id r) d'))) r) (sort_key g (filter (\<lambda>r. dev_userId r = u) (db_devices d'))) =
    map (\<lambda>r. serializeDevice (Some (length (repositories_of (dev_id r) d))) r) (sort_key g (filter (\<lambda>r. dev_userId r = u) (db_devices d)))"
  unfolding looks_devices(2) [OF assms]
  by (rule map_cong [OF refl]) (simp add: looks_repositories(2) [OF assms] looks_own(4) [OF assms])

lemma alike_reads:
  assumes "authenticate hx rq (sdb sv) = (Inr a, d)" and "F = others_of (ax_userId a) (sdb sv)" and "tenants_ok (sdb sv)"
  defines "sv' \<equiv> on_db (own_rows F (ax_userId a)) sv"
  shows "fst (get_session hx rq sv') = fst (get_session hx rq sv)" "fst (get_push_config hx rq sv') = fst (get_push_config hx rq sv)"
    "fst (get_devices hx rq sv') = fst (get_devices hx rq sv)" "fst (get_device hx rq sv') = fst (get_device hx rq sv)"
    "fst (get_device_repositories hx rq sv') = fst (get_device_repositories hx rq sv)"
    "fst (get_repository hx rq sv') = fst (get_repository hx rq sv)" "fst (get_actions hx rq sv') = fst (get_actions hx rq sv)"
    "fst (get_jobs hx rq sv') = fst (get_jobs hx rq sv)" "fst (get_job hx rq sv') = fst (get_job hx rq sv)"
    "fst (get_job_output hx rq sv') = fst (get_job_output hx rq sv)"
proof -
  note alike = alike_auth [OF assms(1-3), folded sv'_def]
  show "fst (get_session hx rq sv') = fst (get_session hx rq sv)" "fst (get_push_config hx rq sv') = fst (get_push_config hx rq sv)"
    unfolding get_session_def get_push_config_def by (rule alike, rule alikeI, simp split: sum.split)+
  show "fst (get_job_output hx rq sv') = fst (get_job_output hx rq sv)"
    unfolding get_job_output_def
    by (intro alike alike_parsed alike_owner [where a = a] alikeI) (simp_all add: looks_jobs split: sum.split)
  show "fst (get_device_repositories hx rq sv') = fst (get_device_repositories hx rq sv)"
    unfolding get_device_repositories_def
    by (intro alike alike_parsed alike_owner [where a = a] alikeI)
      (auto simp: looks_devices(1) looks_repositories(2) looks_own(1) split: option.split)
  show "fst (get_actions hx rq sv') = fst (get_actions hx rq sv)"
    unfolding get_actions_def
    by (intro alike alike_parsed alike_owner [where a = a] alikeI)
      (auto simp: looks_repositories(1,4) looks_own(2) split: option.split)
  show "fst (get_repository hx rq sv') = fst (get_repository hx rq sv)"
    unfolding get_repository_def
    by (intro alike alike_parsed alike_owner [where a = a] alikeI)
      (auto simp: looks_repositories(1) looks_devices(3) looks_own(3) reply_repository_def split: option.split)
  show "fst (get_jobs hx rq sv') = fst (get_jobs hx rq sv)"
    unfolding get_jobs_def Let_def
    by (intro alike alike_parsed alike_owner [where a = a] alikeI)
      (simp_all add: looks_listed [where f = id, unfolded id_apply])
  show "fst (get_job hx rq sv') = fst (get_job hx rq sv)"
    unfolding get_job_def
    by (intro alike alike_parsed alike_owner [where a = a] alikeI)
      (auto simp: looks_jobs(2,4) split: option.split dest!: findUserJob_D)
  show "fst (get_device hx rq sv') = fst (get_device hx rq sv)"
    unfolding get_device_def Let_def
    by (intro alike alike_parsed alike_owner [where a = a] alikeI)
      (auto simp: looks_devices(1) looks_repositories(2) looks_own(1) looks_listed [where f = "\<lambda>_. None"] split: option.split)
  show "fst (get_devices hx rq sv') = fst (get_devices hx rq sv)"
    unfolding get_devices_def Let_def
    by (intro alike alike_parsed alike_owner [where a = a] alikeI)
      (simp_all add: looks_device_list)
qed

text \<open>
  C9. Users see only their own. What a signed-in user gets from any reading route, with any identifiers and
  query, is what the same request gets from a database that holds that user's rows and nothing else: no
  answer, and no error, depends on a row of another user.
\<close>

theorem answers_from_own_rows:
  assumes "tenants_ok (sdb sv)" and "authenticate hx rq (sdb sv) = (Inr a, d)" and "find_route ''GET'' path session_routes = Some (h, params)"
    and "F = others_of (ax_userId a) (sdb sv)"
  shows "fst (h out hx (rq\<lparr>rq_params := params\<rparr>) (on_db (own_rows F (ax_userId a)) sv)) = fst (h out hx (rq\<lparr>rq_params := params\<rparr>) sv)"
proof -
  have auth: "authenticate hx (rq\<lparr>rq_params := params\<rparr>) (sdb sv) = (Inr a, d)"
    using assms(2) by simp
  obtain r where "r \<in> set session_routes" "h = snd (snd r)"
    using find_route_in [OF assms(3)] by blast
  then show ?thesis
    using alike_reads [OF auth assms(4,1)] by (auto simp: session_routes_def)
qed

theorem answers_from_own_rows_witness:
  "fst (get_device (example_http 5) ((signed_in example_request)\<lparr>rq_params := [(''deviceId'', JStr ''e'')]\<rparr>) (example_server two_users)) =
    fst (get_device (example_http 5) ((signed_in example_request)\<lparr>rq_params := [(''deviceId'', JStr ''e'')]\<rparr>)
      (on_db (own_rows (others_of ''u'' two_users) ''u'') (example_server two_users)))"
proof -
  let ?sv = "example_server two_users" and ?rq = "signed_in example_request"
  note sdb = two_users_ok(1)
  have ok: "tenants_ok (sdb ?sv)"
    by (simp add: two_users_ok)
  have "decodeURIComponent ''e'' = Some ''e''"
    by code_simp
  then have route: "find_route ''GET'' ''/api/devices/e'' session_routes = Some (\<lambda>out. get_device, [(''deviceId'', JStr ''e'')])"
    by (simp add: session_routes_def match_route_def startsWith_def)
  obtain a d where auth: "authenticate (example_http 5) ?rq (sdb ?sv) = (Inr a, d)" and user: "ax_userId a = ''u''"
    using two_users_signed_in by (auto simp: two_users_ok)
  from answers_from_own_rows [OF ok auth route refl] show ?thesis
    unfolding sdb user by simp
qed

end
