(* ===== verification/Spec2Isabelle.thy ===== *)
theory Spec2Isabelle
  imports Relay Shell Pages Focus Contract Tenants
begin

text \<open>
  A model of RelayDock, a relay between browsers and the machines that run a user's commands, with
  the theorems that make its server and its web client correct. Paths below are under \<open>src/\<close>.

  \<^bold>\<open>The program.\<close> An agent on a device opens a WebSocket to the server (\<open>apps/server/src\<close>) and reports
  on the jobs it runs; browsers open another and watch. In between the server keeps users, devices,
  repositories, actions, jobs and their output in a database, relays live output to the viewers
  before it is stored, and offers an HTTP API. The pages of the browser (\<open>apps/web/src\<close>) call that API and
  follow a job over the socket. Several server instances can share the work through
  Redis: a device's presence is a Redis key, and messages for an agent or a viewer of another instance
  travel on channels.

  \<^bold>\<open>The theories\<close>, in the order they build on one another:

  \<^item> \<open>Prelude\<close>: errors (\<open>js_error\<close>), JSON values, the database client's operations on a table (a list of
    rows), association lists for JavaScript's ordered \<open>Map\<close>, and their lemmas.
  \<^item> \<open>JobStatus\<close>: \<open>packages/shared\<close>, the transition table of job statuses. \<open>Protocol\<close>: the message
    unions of \<open>packages/protocol\<close>. \<open>Domain\<close>: \<open>lib/domain.ts\<close>. \<open>Database\<close>: the tables of
    \<open>prisma/schema.prisma\<close>, a record per model; \<open>db\<close> is the whole database.
  \<^item> \<open>Output\<close>: \<open>persistChunks\<close> of \<open>services/jobs.ts\<close> with its paged eviction, and \<open>replay\<close>. Storing a
    batch refines an abstract bounded log, keeps the byte total exact, and evicts what the reference
    definition names. \<open>Pipeline\<close>: the buffers, timers and queues in front of it, as steps that
    interleave freely; nothing is lost or reordered.
  \<^item> \<open>Hub\<close>: \<open>ConnectionHub\<close> of \<open>services/connections.ts\<close>: sockets, the registry of agents, viewers and
    their subscriptions, delivery, the messages between instances. \<open>Presence\<close>: the Lua scripts on the
    Redis store and the operations that await them, run in any interleaving.
  \<^item> \<open>Jobs\<close>: \<open>JobService\<close> on the state of a server (\<open>world\<close>): transitions, cancellation, output, in one
    step relation. \<open>Broker\<close>: \<open>RepositoryValidationBroker\<close>. \<open>AgentSocket\<close>: the route \<open>/ws/agent\<close>, every
    message handler and the clean-up on close.
  \<^item> \<open>Schema\<close>: the combinators of the schema library the source uses. \<open>Env\<close>: \<open>env.ts\<close>. \<open>Services\<close>:
    \<open>lib/crypto.ts\<close>, \<open>lib/errors.ts\<close>, \<open>services/audit.ts\<close>, \<open>services/sessions.ts\<close>,
    \<open>services/maintenance.ts\<close>. \<open>ClientSocket\<close>: the route \<open>/ws/client\<close>.
  \<^item> \<open>Routes\<close>: guards of \<open>app.ts\<close> and \<open>lib/serializers.ts\<close>. \<open>DeviceRoutes\<close>, \<open>RepositoryRoutes\<close>,
    \<open>JobRoutes\<close>, \<open>Push\<close> (with \<open>services/push.ts\<close>) and \<open>AuthRoutes\<close> (with \<open>lib/google-oauth.ts\<close>): one
    definition per route of the files under \<open>routes/\<close>, from the request to the response and the new
    state. \<open>Lockout\<close>: what revoking and deleting a device guarantees, against everything agents send.
  \<^item> \<open>App\<close>: the table of routes and the server as one function of a request (\<open>handle\<close>): guards, matching of
    paths, errors. \<open>Tenants\<close>: no request of a user changes or reads the rows of another.
  \<^item> \<open>Wire\<close>: the schemas of \<open>packages/protocol\<close> and the JSON of the messages of the four directions, which they
    read back. \<open>Relay\<close>: \<open>services/connections.ts\<close> again, as far as it talks to Redis: envelopes and presence
    values as text, their reading, the sending to an agent of another instance with its retries, and the life
    of the connection.
  \<^item> \<open>Paging\<close>: what a source of pages owes a loop that follows its cursor. \<open>ApiClient\<close>: \<open>apps/web/src/api/client.ts\<close>,
    its calls, the reading of responses, and the loop over the output route, also joined to the server
    (\<open>served_call\<close>). \<open>Contract\<close>: \<open>api/types.ts\<close>, the types of what those calls give. \<open>JobStream\<close>:
    \<open>hooks/useJobSocket.ts\<close>, every event of its sockets, timers and the network.
  \<^item> \<open>WebPush\<close>: \<open>hooks/useWebPush.ts\<close> and \<open>lib/webPush.ts\<close>, joined to the push routes. \<open>Signin\<close>: \<open>auth/\<close>, \<open>App.tsx\<close>,
    \<open>main.tsx\<close> and \<open>api/queryKeys.ts\<close>: what the browser knows of the session, and the guards of its routes.
    \<open>Shell\<close>: the sign-out of \<open>components/AppShell.tsx\<close>, over both. \<open>BrowserLib\<close>: \<open>lib.ts\<close>, \<open>lib/\<close> and the swipes of
    \<open>components/TerminalView.tsx\<close>. \<open>Pages\<close>: the forms, commands, actions and filters of \<open>pages/\<close>, read by the
    schemas of the routes. \<open>Focus\<close>: the keys of the menu, the dialogs and the full screen.

  \<^bold>\<open>How the model reads the code.\<close> A handler is a function from the state to its result and the new
  state; a thrown error is an \<open>Inl\<close> or a \<open>Some e\<close>. JavaScript runs one callback at a time, so code between
  two awaits is one step. Where another callback can come in at an await and the code depends on what it
  does, the operation is two definitions (\<open>transition_read\<close> and \<open>transition_write\<close>,
  \<open>attachAgent_begin\<close> and \<open>attachAgent_finish\<close>, \<open>pair_lookup\<close> and \<open>pair_claim\<close>, \<open>register_begin\<close> and
  \<open>register_finish\<close>), and the theorems let other steps come between them. Database transactions are
  atomic. Strings are 8-bit, times are integer milliseconds, integers are unbounded: the source adds
  byte counts and sequence numbers that the schemas bound far below \<open>2^53\<close>.

  \<^bold>\<open>Parameters.\<close> What is not in the repository is an argument: HMAC and Argon2, URL, UUID, e-mail and
  number recognition (\<open>lib\<close>); the clock, random bytes and identifiers, and the outcome of Redis commands
  (\<open>http\<close>, \<open>ctx\<close>); Google's token endpoint and token decoding; the push service; in the browser, what its promises
  come to (\<open>platform\<close>), the cache of the query library (\<open>query_cache\<close>, with \<open>cache_laws\<close>: setting resolves one
  query, removing those of a predicate), and where Tab goes (\<open>tab_order\<close>). A theorem that relies on
  their behaviour says so in its hypotheses and has a witness on a concrete instance.

  \<^bold>\<open>Interfaces.\<close> \<open>presence\<close> is what the hub relies on in Redis, interpreted by the scripts;
  \<open>lawful_service\<close> is what every operation on jobs keeps, interpreted by the steps of \<open>JobService\<close>;
  \<open>agent_contract\<close> is what the agents' route may write, interpreted by the lockout of a revoked device;
  \<open>paged_source\<close> and \<open>strict_source\<close> are what a loop over pages relies on, interpreted by the pages the
  server serves of a job's output; \<open>push_server\<close> is what the toggle of notifications relies on, interpreted by the routes.

  \<^bold>\<open>Loops.\<close> The eviction loop is a function with a termination proof (every page that does not end it
  deletes a row). The loop of the browser over the output route, which nothing in its own code bounds, is a
  partial function that is proved to have a value against this server. Sending to an agent is a machine of
  steps, one per reply of Redis, proved to end within seven. No fuel is used.

  \<^bold>\<open>Not modelled.\<close> Rate limiting, CORS and cookie parsing are plugins of the framework. Loading the Redis
  package and its event emitters are calls to a library, and so is the wiring of the services (\<open>index.ts\<close>,
  \<open>vercel.ts\<close>, \<open>prisma.ts\<close>, the construction of the server in \<open>app.ts\<close>). Of the web client: what the pages draw
  (JSX), the mutation objects of the query library with the dialogs that show them, the texts made by \<open>Intl\<close>,
  the terminal emulator. A swipe is computed exactly, not in floating point. The agent (\<open>apps/agent\<close>) is a Go
  program: its messages are arbitrary inputs of \<open>AgentSocket\<close>.
\<close>

end
